(* ===== verification/Prelude.thy ===== *)
theory Prelude
  imports Complex_Main "HOL-Library.Code_Target_Nat" "HOL-Library.Log_Nat" "HOL-Library.Word" "HOL-Library.Sublist"
begin

text \<open>
  Shared material of the development: the lemma collections, the printing and scanning of
  decimal digit strings (Go's \<^verbatim>\<open>%d\<close> and the digits of \<^verbatim>\<open>%.8f\<close>), rounding to the nearest integer
  with ties to even, and the list operations that stand for SQL's \<^verbatim>\<open>UPDATE ... WHERE\<close> with the
  lemmas on sums and distinct keys that the tables need.
\<close>

section \<open>Lemma collections\<close>

named_theorems go_consts \<open>the string constants of the program and that they differ\<close>
named_theorems sql_defs \<open>the definitions of the repository operations\<close>
named_theorems monad_defs \<open>the definitions of the effect monad\<close>
named_theorems frame_simps \<open>what an operation leaves alone\<close>

section \<open>Digits\<close>

definition digit_char :: "nat \<Rightarrow> char" where
  "digit_char d = char_of (48 + d)"

definition is_digit :: "char \<Rightarrow> bool" where
  "is_digit c \<longleftrightarrow> 48 \<le> (of_char c :: nat) \<and> (of_char c :: nat) \<le> 57"

definition digit_val :: "char \<Rightarrow> nat" where
  "digit_val c = of_char c - 48"

text \<open>Go's \<^verbatim>\<open>%d\<close> of a non-negative integer, and of any integer.\<close>

fun show_nat :: "nat \<Rightarrow> string" where
  "show_nat n = (if n < 10 then [digit_char n] else show_nat (n div 10) @ [digit_char (n mod 10)])"

declare show_nat.simps [simp del]

definition show_int :: "int \<Rightarrow> string" where
  "show_int i = (if i < 0 then ''-'' @ show_nat (nat (- i)) else show_nat (nat i))"

text \<open>The last \<open>k\<close> decimal digits of a number, padded with zeros.\<close>

fun show_width :: "nat \<Rightarrow> nat \<Rightarrow> string" where
  "show_width 0 n = []"
| "show_width (Suc k) n = show_width k (n div 10) @ [digit_char (n mod 10)]"

text \<open>The value of a digit string, starting from an accumulator.\<close>

fun digits_val :: "nat \<Rightarrow> string \<Rightarrow> nat" where
  "digits_val acc [] = acc"
| "digits_val acc (c # cs) = digits_val (acc * 10 + digit_val c) cs"

lemma of_char_digit_char [simp]: "d < 10 \<Longrightarrow> of_char (digit_char d) = (48 + d :: nat)"
  by (simp add: digit_char_def)

lemma digit_val_digit_char [simp]: "d < 10 \<Longrightarrow> digit_val (digit_char d) = d"
  by (simp add: digit_val_def)

lemma is_digit_digit_char [simp]: "d < 10 \<Longrightarrow> is_digit (digit_char d)"
  by (simp add: is_digit_def)

lemma digits_val_append: "digits_val acc (xs @ ys) = digits_val (digits_val acc xs) ys"
  by (induction xs arbitrary: acc) auto

lemma digits_val_acc: "digits_val acc xs = acc * 10 ^ length xs + digits_val 0 xs"
proof (induction xs arbitrary: acc)
  case (Cons c cs)
  have "digits_val acc (c # cs) = (acc * 10 + digit_val c) * 10 ^ length cs + digits_val 0 cs"
    using Cons.IH [of "acc * 10 + digit_val c"] by simp
  also have "\<dots> = acc * 10 ^ length (c # cs) + digits_val (digit_val c) cs"
    using Cons.IH [of "digit_val c"] by (simp add: algebra_simps)
  finally show ?case by simp
qed simp

lemma digits_val_show_nat [simp]: "digits_val 0 (show_nat n) = n"
proof (induction n rule: show_nat.induct)
  case (1 n)
  show ?case
  proof (cases "n < 10")
    case True
    then show ?thesis by (simp add: show_nat.simps [of n])
  next
    case False
    with 1 have "digits_val 0 (show_nat (n div 10)) = n div 10" by simp
    with False show ?thesis by (simp add: show_nat.simps [of n] digits_val_append)
  qed
qed

lemma show_nat_digits: "\<forall>c \<in> set (show_nat n). is_digit c"
proof (induction n rule: show_nat.induct)
  case (1 n)
  then show ?case
    by (cases "n < 10") (auto simp: show_nat.simps [of n])
qed

lemma show_nat_nonempty [simp]: "show_nat n \<noteq> []"
  by (subst show_nat.simps) simp

lemma show_nat_inj [simp]: "show_nat a = show_nat b \<longleftrightarrow> a = b"
  by (metis digits_val_show_nat)

text \<open>No leading zero: a longer digit string starts with another digit.\<close>

lemma show_nat_head: "show_nat n = c # cs \<Longrightarrow> cs = [] \<or> c \<noteq> CHR ''0''"
proof (induction n arbitrary: c cs rule: show_nat.induct)
  case (1 n)
  show ?case
  proof (cases "n < 10")
    case True
    with "1.prems" show ?thesis by (simp add: show_nat.simps [of n])
  next
    case False
    obtain d ds where d: "show_nat (n div 10) = d # ds"
      by (cases "show_nat (n div 10)") auto
    with False "1.prems" have c: "c = d" by (simp add: show_nat.simps [of n])
    have "d \<noteq> CHR ''0''"
    proof (cases "ds = []")
      case True
      with d have "digits_val 0 [d] = n div 10" using digits_val_show_nat [of "n div 10"] by simp
      with False show ?thesis by (auto simp: digit_val_def)
    next
      case ne: False
      with "1.IH" [OF False d] show ?thesis by simp
    qed
    with c show ?thesis by simp
  qed
qed

lemma length_show_width [simp]: "length (show_width k n) = k"
  by (induction k n rule: show_width.induct) auto

lemma show_width_digits: "\<forall>c \<in> set (show_width k n). is_digit c"
  by (induction k n rule: show_width.induct) auto

lemma digits_val_show_width: "digits_val 0 (show_width k n) = n mod 10 ^ k"
proof (induction k n rule: show_width.induct)
  case (2 k n)
  have "n mod 10 ^ Suc k = n div 10 mod 10 ^ k * 10 + n mod 10"
    by (simp add: mod_mult2_eq)
  with 2 show ?case by (simp add: digits_val_append)
qed simp

lemma is_digit_not_special:
  "is_digit c \<Longrightarrow> c \<noteq> CHR ''.'' \<and> c \<noteq> CHR ''_'' \<and> c \<noteq> CHR ''-'' \<and> c \<noteq> CHR ''+'' \<and>
     c \<noteq> CHR ''e'' \<and> c \<noteq> CHR ''E'' \<and> c \<noteq> CHR ''p'' \<and> c \<noteq> CHR ''P'' \<and> c \<noteq> CHR ''I'' \<and> c \<noteq> CHR ''i''"
  by (auto simp: is_digit_def)

section \<open>Rounding to the nearest integer, ties to even\<close>

definition round_even :: "rat \<Rightarrow> int" where
  "round_even x = (let f = \<lfloor>x\<rfloor>; d = x - of_int f in
     if d < 1/2 then f else if d > 1/2 then f + 1 else if even f then f else f + 1)"

lemma round_even_error: "\<bar>of_int (round_even x) - x\<bar> \<le> 1/2"
proof -
  have "of_int \<lfloor>x\<rfloor> \<le> x" "x < of_int \<lfloor>x\<rfloor> + 1" by linarith+
  then show ?thesis by (auto simp: round_even_def Let_def)
qed

lemma round_even_unique: "\<bar>x - of_int n\<bar> < 1/2 \<Longrightarrow> round_even x = n"
proof -
  assume "\<bar>x - of_int n\<bar> < 1/2"
  moreover have "\<bar>of_int (round_even x) - x\<bar> \<le> 1/2" by (rule round_even_error)
  ultimately have "\<bar>of_int (round_even x) - of_int n :: rat\<bar> < 1" by linarith
  then have "\<bar>round_even x - n\<bar> < 1"
    by (metis of_int_1 of_int_abs of_int_diff of_int_less_iff)
  then show ?thesis by linarith
qed

lemma round_even_of_int [simp]: "round_even (of_int n) = n"
  by (rule round_even_unique) simp

lemma round_even_0 [simp]: "round_even 0 = 0"
  using round_even_of_int [of 0] by simp

lemma round_even_mono: "x \<le> y \<Longrightarrow> round_even x \<le> round_even y"
proof -
  assume le: "x \<le> y"
  then have f: "\<lfloor>x\<rfloor> \<le> \<lfloor>y\<rfloor>" by (rule floor_mono)
  have up: "round_even x \<le> \<lfloor>x\<rfloor> + 1" and lo: "\<lfloor>y\<rfloor> \<le> round_even y"
    by (auto simp: round_even_def Let_def)
  show ?thesis
  proof (cases "\<lfloor>x\<rfloor> = \<lfloor>y\<rfloor>")
    case True
    then show ?thesis using le by (auto simp: round_even_def Let_def)
  next
    case False
    with f up lo show ?thesis by linarith
  qed
qed

lemma round_even_uminus: "round_even (- x) = - round_even x"
proof (cases "x = of_int \<lfloor>x\<rfloor>")
  case True
  then have "- x = of_int (- \<lfloor>x\<rfloor>)" by simp
  then have "round_even (- x) = - \<lfloor>x\<rfloor>" by (metis round_even_of_int)
  moreover have "round_even x = \<lfloor>x\<rfloor>" using True by (metis round_even_of_int)
  ultimately show ?thesis by simp
next
  case False
  have "of_int \<lfloor>x\<rfloor> \<le> x" "x < of_int \<lfloor>x\<rfloor> + 1" by linarith+
  with False have "of_int \<lfloor>x\<rfloor> < x" by linarith
  with \<open>x < of_int \<lfloor>x\<rfloor> + 1\<close> have "\<lfloor>- x\<rfloor> = - \<lfloor>x\<rfloor> - 1" by (simp add: floor_eq_iff)
  then show ?thesis by (auto simp: round_even_def Let_def)
qed

section \<open>Go's \<^verbatim>\<open>int\<close> on a 64-bit machine\<close>

text \<open>Wrap-around of an arithmetic result, and division, which truncates towards zero.\<close>

definition wrap64 :: "int \<Rightarrow> int" where
  "wrap64 x = (x + 2 ^ 63) mod 2 ^ 64 - 2 ^ 63"

definition go_div :: "int \<Rightarrow> int \<Rightarrow> int" where
  "go_div a b = sgn a * sgn b * (\<bar>a\<bar> div \<bar>b\<bar>)"

definition int64_range :: "int \<Rightarrow> bool" where
  "int64_range x \<longleftrightarrow> - (2 ^ 63) \<le> x \<and> x < 2 ^ 63"

lemma wrap64_id [simp]: "int64_range x \<Longrightarrow> wrap64 x = x"
  by (simp add: wrap64_def int64_range_def)

lemma wrap64_range: "int64_range (wrap64 x)"
  by (simp add: wrap64_def int64_range_def)

lemma wrap64_word: "wrap64 x = sint (word_of_int x :: 64 word)"
  by (simp add: wrap64_def sint_sbintrunc' signed_take_bit_eq_take_bit_shift take_bit_eq_mod)

lemma go_div_nonneg: "0 \<le> a \<Longrightarrow> 0 < b \<Longrightarrow> go_div a b = a div b"
  by (cases "a = 0") (simp_all add: go_div_def)

section \<open>Tables as lists\<close>

text \<open>SQL's \<^verbatim>\<open>UPDATE t SET ... WHERE p\<close> and \<^verbatim>\<open>SELECT ... WHERE p\<close> on a table kept as a list of rows.\<close>

definition upd_where :: "('r \<Rightarrow> bool) \<Rightarrow> ('r \<Rightarrow> 'r) \<Rightarrow> 'r list \<Rightarrow> 'r list" where
  "upd_where p f rs = map (\<lambda>r. if p r then f r else r) rs"

lemma upd_where_Nil [simp]: "upd_where p f [] = []"
  by (simp add: upd_where_def)

lemma upd_where_Cons [simp]:
  "upd_where p f (r # rs) = (if p r then f r else r) # upd_where p f rs"
  by (simp add: upd_where_def)

lemma length_upd_where [simp]: "length (upd_where p f rs) = length rs"
  by (simp add: upd_where_def)

lemma set_upd_where: "set (upd_where p f rs) = (\<lambda>r. if p r then f r else r) ` set rs"
  by (simp add: upd_where_def)

lemma upd_where_none: "(\<And>r. r \<in> set rs \<Longrightarrow> \<not> p r) \<Longrightarrow> upd_where p f rs = rs"
  by (induction rs) auto

lemma map_upd_where_same:
  "(\<And>r. p r \<Longrightarrow> g (f r) = g r) \<Longrightarrow> map g (upd_where p f rs) = map g rs"
  by (induction rs) auto

lemma upd_where_all:
  "(\<And>r. r \<in> set rs \<Longrightarrow> Q r) \<Longrightarrow> (\<And>r. r \<in> set rs \<Longrightarrow> p r \<Longrightarrow> Q (f r)) \<Longrightarrow>
     r \<in> set (upd_where p f rs) \<Longrightarrow> Q r"
  by (auto simp: set_upd_where)

lemma find_upd_where:
  "(\<And>r. p r \<Longrightarrow> q (f r) = q r) \<Longrightarrow>
     find q (upd_where p f rs) = map_option (\<lambda>r. if p r then f r else r) (find q rs)"
  by (induction rs) auto

lemma find_SomeD: "find p rs = Some r \<Longrightarrow> r \<in> set rs \<and> p r"
  by (auto simp: find_Some_iff)

lemma find_None_iff_set: "find p rs = None \<longleftrightarrow> (\<forall>r \<in> set rs. \<not> p r)"
  by (auto simp: find_None_iff)

text \<open>A row is found by its key, when keys are distinct.\<close>

lemma find_key:
  "distinct (map k rs) \<Longrightarrow> r \<in> set rs \<Longrightarrow> find (\<lambda>x. k x = k r) rs = Some r"
  by (induction rs) force+

lemma find_key_unique:
  "distinct (map k rs) \<Longrightarrow> r \<in> set rs \<Longrightarrow> r' \<in> set rs \<Longrightarrow> k r = k r' \<Longrightarrow> r = r'"
  by (metis distinct_map inj_on_eq_iff)

text \<open>An update of the one row with a key changes a sum by the change of that row.\<close>

lemma sum_list_upd_key:
  fixes g :: "'r \<Rightarrow> int"
  assumes "distinct (map k rs)" and "find (\<lambda>x. k x = a) rs = Some r"
  shows "sum_list (map g (upd_where (\<lambda>x. k x = a) f rs)) = sum_list (map g rs) + g (f r) - g r"
  using assms
proof (induction rs)
  case (Cons x xs)
  show ?case
  proof (cases "k x = a")
    case True
    with Cons.prems have "upd_where (\<lambda>x. k x = a) f xs = xs"
      by (intro upd_where_none) (auto simp: image_iff)
    with True Cons.prems show ?thesis by simp
  next
    case False
    with Cons show ?thesis by simp
  qed
qed simp

lemma find_append_new: "find P xs = None \<Longrightarrow> P x \<Longrightarrow> find P (xs @ [x]) = Some x"
  by (induction xs) (auto split: if_splits)

lemma find_append_other: "\<not> P x \<Longrightarrow> find P (xs @ [x]) = find P xs"
  by (induction xs) auto

end
