(* ===== verification/BigFloat.thy ===== *)
theory BigFloat
  imports Prelude
begin

text \<open>
  Go's \<^verbatim>\<open>math/big.Float\<close>, as far as the program uses it: values of a given precision, parsing
  (\<^verbatim>\<open>SetString\<close>, that is \<^verbatim>\<open>Parse\<close> with base 0), \<^verbatim>\<open>Add\<close>, \<^verbatim>\<open>Sub\<close>, \<^verbatim>\<open>Mul\<close>, \<^verbatim>\<open>Cmp\<close>, \<^verbatim>\<open>Sign\<close> and the
  format \<^verbatim>\<open>%.8f\<close>, all in the default rounding mode (to nearest, ties to even).
  A finite float is its precision in bits and its exact value, a rational; the flag of a zero
  is its sign. Not modelled: the 32-bit range of the binary exponent.
\<close>

section \<open>Rounding a rational to a precision\<close>

text \<open>The binary exponent \<open>e\<close> of a non-zero value, with \<open>2 powi (e - 1) \<le> \<bar>v\<bar> < 2 powi e\<close>.\<close>

definition expo :: "rat \<Rightarrow> int" where
  "expo v = (let (a, b) = quotient_of \<bar>v\<bar>; k = bitlen a - bitlen b in
     if \<bar>v\<bar> < 2 powi k then k else k + 1)"

text \<open>\<^verbatim>\<open>(*Float).round\<close>: the nearest value with a mantissa of \<open>p\<close> bits.\<close>

definition rnd :: "nat \<Rightarrow> rat \<Rightarrow> rat" where
  "rnd p v = (if v = 0 then 0 else
     of_int (round_even (v / 2 powi (expo v - int p))) * 2 powi (expo v - int p))"

lemma powi_2_pos [simp]: "(0::rat) < 2 powi k"
  by simp

lemma powi_2_split: "(2::rat) powi (a - b) = 2 powi a / 2 powi b"
  by (simp add: power_int_diff)

lemma powi_2_less_iff: "(2::rat) powi a < 2 powi b \<longleftrightarrow> a < b"
  by (metis linorder_not_le one_less_numeral_iff order.strict_implies_order power_int_increasing
      power_int_strict_increasing semiring_norm(76) one_le_numeral)

lemma powi_2_neq0: "2 powi k \<le> \<bar>v\<bar> \<Longrightarrow> v \<noteq> (0::rat)"
  using powi_2_pos [of k] by (auto simp: not_le [symmetric] simp del: powi_2_pos)

lemma bitlen_powi: "0 < x \<Longrightarrow> (2::rat) powi (bitlen x - 1) \<le> of_int x \<and> of_int x < (2::rat) powi bitlen x"
proof -
  assume x: "0 < x"
  then have b: "2 ^ nat (bitlen x - 1) \<le> x \<and> x < 2 ^ nat (bitlen x)" by (rule bitlen_bounds)
  have nn: "0 \<le> bitlen x - 1"
    using x bitlen_nonneg [of x] bitlen_eq_zero_iff [of x] by linarith
  have "(of_int (2 ^ nat (bitlen x - 1)) :: rat) \<le> of_int x" "(of_int x :: rat) < of_int (2 ^ nat (bitlen x))"
    using b by (auto simp only: of_int_le_iff of_int_less_iff)
  with nn show ?thesis by (simp add: power_int_def)
qed

lemma expo_bounds:
  assumes "v \<noteq> 0"
  shows "2 powi (expo v - 1) \<le> \<bar>v\<bar>" and "\<bar>v\<bar> < 2 powi (expo v)"
proof -
  obtain a b where q: "quotient_of \<bar>v\<bar> = (a, b)" by (cases "quotient_of \<bar>v\<bar>")
  have b: "0 < b" and v: "\<bar>v\<bar> = of_int a / of_int b"
    using q quotient_of_denom_pos quotient_of_div by blast+
  have a: "0 < a"
    using assms b v by (metis of_int_0_less_iff zero_less_abs_iff zero_less_divide_iff order_less_asym)
  let ?k = "bitlen a - bitlen b"
  note A = bitlen_powi [OF a] and B = bitlen_powi [OF b]
  have "2 powi (bitlen a - 1) / 2 powi bitlen b \<le> \<bar>v\<bar>"
    unfolding v using A B b a by (intro frac_le) auto
  then have lo: "2 powi (?k - 1) \<le> \<bar>v\<bar>"
    by (simp add: power_int_diff [symmetric] algebra_simps)
  have "\<bar>v\<bar> < 2 powi bitlen a / 2 powi (bitlen b - 1)"
    unfolding v using A B b a by (intro frac_less) auto
  then have hi: "\<bar>v\<bar> < 2 powi (?k + 1)"
    by (simp add: power_int_diff [symmetric] algebra_simps)
  show "2 powi (expo v - 1) \<le> \<bar>v\<bar>" and "\<bar>v\<bar> < 2 powi (expo v)"
    using lo hi by (auto simp: expo_def q Let_def)
qed

lemma expo_unique:
  assumes "2 powi (e - 1) \<le> \<bar>v\<bar>" and "\<bar>v\<bar> < 2 powi e"
  shows "expo v = e"
proof -
  from assms(1) have v: "v \<noteq> 0" by (rule powi_2_neq0)
  note b = expo_bounds [OF v]
  have "(2::rat) powi (e - 1) < 2 powi expo v" and "(2::rat) powi (expo v - 1) < 2 powi e"
    using assms b by linarith+
  then have "e - 1 < expo v" and "expo v - 1 < e"
    by (auto simp: powi_2_less_iff)
  then show ?thesis by linarith
qed

lemma rnd_0 [simp]: "rnd p 0 = 0"
  by (simp add: rnd_def)

text \<open>The relative error of one rounding is at most \<open>1 / 2 ^ p\<close>.\<close>

lemma rnd_error: "\<bar>rnd p v - v\<bar> \<le> \<bar>v\<bar> / 2 ^ p"
proof (cases "v = 0")
  case False
  let ?u = "(2::rat) powi (expo v - int p)"
  have "rnd p v - v = (of_int (round_even (v / ?u)) - v / ?u) * ?u"
    using False by (simp add: rnd_def algebra_simps)
  then have "\<bar>rnd p v - v\<bar> = \<bar>of_int (round_even (v / ?u)) - v / ?u\<bar> * ?u"
    by (simp add: abs_mult)
  also have "\<dots> \<le> 1/2 * ?u"
    by (intro mult_right_mono round_even_error) simp
  also have "\<dots> = 2 powi (expo v - 1) / 2 ^ p"
    by (simp add: power_int_diff)
  also have "\<dots> \<le> \<bar>v\<bar> / 2 ^ p"
    using expo_bounds(1) [OF False] by (intro divide_right_mono) auto
  finally show ?thesis .
qed simp

lemma rnd_uminus: "rnd p (- v) = - rnd p v"
proof -
  have "expo (- v) = expo v" by (simp add: expo_def)
  then show ?thesis by (simp add: rnd_def round_even_uminus)
qed

text \<open>A value with a mantissa of at most \<open>p\<close> bits is kept as it is.\<close>

lemma rnd_exact:
  assumes "\<bar>m\<bar> < 2 ^ p"
  shows "rnd p (of_int m * 2 powi k) = of_int m * 2 powi k"
proof (cases "m = 0")
  case False
  let ?v = "of_int m * 2 powi k :: rat"
  have v: "?v \<noteq> 0" using False by simp
  have "\<bar>?v\<bar> = of_int \<bar>m\<bar> * 2 powi k" by (simp add: abs_mult)
  also have "\<dots> < of_int (2 ^ p) * 2 powi k"
    using assms by (intro mult_strict_right_mono) (auto simp only: of_int_less_iff powi_2_pos)
  also have "\<dots> = 2 powi (k + int p)" by (simp add: power_int_add)
  finally have "\<bar>?v\<bar> < 2 powi (k + int p)" .
  then have "(2::rat) powi (expo ?v - 1) < 2 powi (k + int p)"
    using expo_bounds(1) [OF v] by linarith
  then have e: "expo ?v \<le> k + int p" by (simp add: powi_2_less_iff)
  let ?d = "nat (k - (expo ?v - int p))"
  have "?v / 2 powi (expo ?v - int p) = of_int m * 2 powi (k - (expo ?v - int p))"
    by (simp add: power_int_diff)
  also have "\<dots> = of_int (m * 2 ^ ?d)"
    using e by (simp add: power_int_def)
  finally have i: "?v / 2 powi (expo ?v - int p) = of_int (m * 2 ^ ?d)" .
  have "rnd p ?v = of_int (m * 2 ^ ?d) * 2 powi (expo ?v - int p)"
    unfolding rnd_def using v by (simp only: i round_even_of_int if_False)
  also have "\<dots> = ?v / 2 powi (expo ?v - int p) * 2 powi (expo ?v - int p)"
    by (simp only: i)
  also have "\<dots> = ?v" by simp
  finally show ?thesis .
qed simp

lemma rnd_of_int [simp]: "\<bar>n\<bar> < 2 ^ p \<Longrightarrow> rnd p (of_int n) = of_int n"
  using rnd_exact [of n p 0] by simp

text \<open>A rounding computed by hand: the mantissa \<open>m\<close> at the exponent \<open>e\<close>.\<close>

lemma rnd_eqI:
  assumes "2 powi (e - 1) \<le> \<bar>v\<bar>" and "\<bar>v\<bar> < 2 powi e"
    and "\<bar>v / 2 powi (e - int p) - of_int m\<bar> < 1/2"
  shows "rnd p v = of_int m * 2 powi (e - int p)"
proof -
  have "v \<noteq> 0" using assms(1) by (rule powi_2_neq0)
  then show ?thesis
    using round_even_unique [OF assms(3)] expo_unique [OF assms(1,2)] by (simp add: rnd_def)
qed

lemma rnd_pos: "1 \<le> p \<Longrightarrow> 0 < v \<Longrightarrow> 0 < rnd p v"
proof -
  assume p: "1 \<le> p" and v: "0 < v"
  have "(2::rat) ^ 1 \<le> 2 ^ p" using p by (intro power_increasing) auto
  then have "v / 2 ^ p \<le> v / 2" using v by (intro divide_left_mono) auto
  with rnd_error [of p v] v show ?thesis by linarith
qed

lemma rnd_pos_iff: "1 \<le> p \<Longrightarrow> 0 < rnd p v \<longleftrightarrow> 0 < v"
  using rnd_pos [of p v] rnd_pos [of p "- v"] by (cases v "0::rat" rule: linorder_cases) (auto simp: rnd_uminus)

section \<open>Floats and their operations\<close>

datatype big_float =
    Fin (fprec: nat) (zneg: bool) (fval: rat)
  | Inf (fprec: nat) (ineg: bool)

text \<open>A float of precision \<open>p\<close> nearest to \<open>v\<close>; \<open>z\<close> is the sign if that is zero.\<close>

definition mkf :: "nat \<Rightarrow> bool \<Rightarrow> rat \<Rightarrow> big_float" where
  "mkf p z v = Fin p (z \<and> v = 0) (rnd p v)"

text \<open>\<^verbatim>\<open>new(big.Float).SetPrec(p)\<close>.\<close>

definition new_float :: "nat \<Rightarrow> big_float" where
  "new_float p = Fin p False 0"

definition float_neg :: "big_float \<Rightarrow> bool" where
  "float_neg x = (case x of Fin p z v \<Rightarrow> z \<or> v < 0 | Inf p s \<Rightarrow> s)"

text \<open>The precision of a result: that of the receiver, or the larger one if that is 0.\<close>

definition zprec :: "nat \<Rightarrow> nat \<Rightarrow> nat \<Rightarrow> nat" where
  "zprec zp p q = (if zp = 0 then max p q else zp)"

text \<open>\<open>None\<close> is the panic \<^verbatim>\<open>ErrNaN\<close>.\<close>

fun Add :: "nat \<Rightarrow> big_float \<Rightarrow> big_float \<Rightarrow> big_float option" where
  "Add zp (Fin p z v) (Fin q w u) = Some (mkf (zprec zp p q) (z \<and> w) (v + u))"
| "Add zp (Inf p s) (Inf q t) = (if s = t then Some (Inf (zprec zp p q) s) else None)"
| "Add zp (Inf p s) (Fin q w u) = Some (Inf (zprec zp p q) s)"
| "Add zp (Fin p z v) (Inf q t) = Some (Inf (zprec zp p q) t)"

fun Neg :: "big_float \<Rightarrow> big_float" where
  "Neg (Fin p z v) = Fin p (v = 0 \<and> \<not> z) (- v)"
| "Neg (Inf p s) = Inf p (\<not> s)"

definition Sub :: "nat \<Rightarrow> big_float \<Rightarrow> big_float \<Rightarrow> big_float option" where
  "Sub zp x y = Add zp x (Neg y)"

fun Mul :: "nat \<Rightarrow> big_float \<Rightarrow> big_float \<Rightarrow> big_float option" where
  "Mul zp (Fin p z v) (Fin q w u) =
     Some (mkf (zprec zp p q) (float_neg (Fin p z v) \<noteq> float_neg (Fin q w u)) (v * u))"
| "Mul zp (Inf p s) (Inf q t) = Some (Inf (zprec zp p q) (s \<noteq> t))"
| "Mul zp (Inf p s) (Fin q w u) =
     (if u = 0 then None else Some (Inf (zprec zp p q) (s \<noteq> (u < 0))))"
| "Mul zp (Fin p z v) (Inf q t) =
     (if v = 0 then None else Some (Inf (zprec zp p q) ((v < 0) \<noteq> t)))"

definition Sign :: "big_float \<Rightarrow> int" where
  "Sign x = (case x of Fin p z v \<Rightarrow> (if v < 0 then -1 else if v = 0 then 0 else 1)
                     | Inf p s \<Rightarrow> (if s then -1 else 1))"

fun Cmp :: "big_float \<Rightarrow> big_float \<Rightarrow> int" where
  "Cmp (Fin p z v) (Fin q w u) = (if v < u then -1 else if v = u then 0 else 1)"
| "Cmp (Inf p s) (Inf q t) = (if s = t then 0 else if s then -1 else 1)"
| "Cmp (Inf p s) (Fin q w u) = (if s then -1 else 1)"
| "Cmp (Fin p z v) (Inf q t) = (if t then 1 else -1)"

definition Abs :: "big_float \<Rightarrow> big_float" where
  "Abs x = (case x of Fin p z v \<Rightarrow> Fin p False \<bar>v\<bar> | Inf p s \<Rightarrow> Inf p False)"

lemma Cmp_Fin_le [simp]: "Cmp (Fin p z v) (Fin q w u) \<le> 0 \<longleftrightarrow> v \<le> u"
  and Cmp_Fin_ge [simp]: "0 \<le> Cmp (Fin p z v) (Fin q w u) \<longleftrightarrow> u \<le> v"
  and Cmp_Fin_less [simp]: "Cmp (Fin p z v) (Fin q w u) < 0 \<longleftrightarrow> v < u"
  and Cmp_Fin_gr [simp]: "0 < Cmp (Fin p z v) (Fin q w u) \<longleftrightarrow> u < v"
  by auto

declare Cmp.simps(1) [simp del]

section \<open>The format \<^verbatim>\<open>%.8f\<close>\<close>

text \<open>A number of units of \<open>10 ^ - 8\<close> with its eight decimals.\<close>

definition show_fixed8 :: "nat \<Rightarrow> string" where
  "show_fixed8 n = show_nat (n div 10 ^ 8) @ ''.'' @ show_width 8 (n mod 10 ^ 8)"

definition fmt8f :: "big_float \<Rightarrow> string" where
  "fmt8f x = (case x of
     Fin p z v \<Rightarrow> (if z \<or> v < 0 then ''-'' else []) @ show_fixed8 (nat (round_even (\<bar>v\<bar> * 10 ^ 8)))
   | Inf p s \<Rightarrow> (if s then ''-Inf'' else ''+Inf''))"

section \<open>Parsing: \<^verbatim>\<open>SetString\<close>\<close>

text \<open>The value of a character as a digit of any base up to 36.\<close>

definition digit_of :: "char \<Rightarrow> nat option" where
  "digit_of c = (let k = of_char c :: nat in
     if 48 \<le> k \<and> k \<le> 57 then Some (k - 48)
     else if 97 \<le> k \<and> k \<le> 122 then Some (k - 97 + 10)
     else if 65 \<le> k \<and> k \<le> 90 then Some (k - 65 + 10) else None)"

text \<open>
  The loop of \<^verbatim>\<open>nat.scan\<close> in base \<open>b\<close>: whether a radix point may still come, the kind of the
  previous character, the digits so far and how many stood before the point, their value, and
  whether a separator was misplaced; then what is left of the input.
\<close>

fun nat_scan :: "nat \<Rightarrow> bool \<Rightarrow> char \<Rightarrow> nat \<Rightarrow> nat option \<Rightarrow> nat \<Rightarrow> bool \<Rightarrow> string
    \<Rightarrow> nat \<times> nat \<times> nat option \<times> char \<times> bool \<times> string" where
  "nat_scan b fracOk prev count dp acc bad [] = (acc, count, dp, prev, bad, [])"
| "nat_scan b fracOk prev count dp acc bad (c # cs) =
     (if c = CHR ''.'' \<and> fracOk then nat_scan b False (CHR ''.'') count (Some count) acc (bad \<or> prev = CHR ''_'') cs
      else if c = CHR ''_'' then nat_scan b fracOk (CHR ''_'') count dp acc (bad \<or> prev \<noteq> CHR ''0'') cs
      else case digit_of c of
        Some d \<Rightarrow> if d < b then nat_scan b fracOk (CHR ''0'') (Suc count) dp (acc * b + d) bad cs
                  else (acc, count, dp, prev, bad, c # cs)
      | None \<Rightarrow> (acc, count, dp, prev, bad, c # cs))"

text \<open>The base prefix and the mantissa: base, mantissa, number of fraction digits, rest.\<close>

definition scan_prefix :: "string \<Rightarrow> nat \<times> nat \<times> nat \<times> nat option \<times> char \<times> bool \<times> string" where
  "scan_prefix s = (if s \<noteq> [] \<and> hd s = CHR ''0'' then
       (case tl s of
          [] \<Rightarrow> (10, nat_scan 10 True (CHR ''0'') 1 None 0 False [])
        | c # r \<Rightarrow>
            if c = CHR ''b'' \<or> c = CHR ''B'' then (2, nat_scan 2 True (CHR ''0'') 0 None 0 False r)
            else if c = CHR ''o'' \<or> c = CHR ''O'' then (8, nat_scan 8 True (CHR ''0'') 0 None 0 False r)
            else if c = CHR ''x'' \<or> c = CHR ''X'' then (16, nat_scan 16 True (CHR ''0'') 0 None 0 False r)
            else (10, nat_scan 10 True (CHR ''0'') 1 None 0 False (c # r)))
     else (10, nat_scan 10 True (CHR ''.'') 0 None 0 False s))"

definition scan_mantissa :: "string \<Rightarrow> (nat \<times> nat \<times> nat \<times> string) option" where
  "scan_mantissa s = (case scan_prefix s of (b, acc, count, dp, prev, bad, rest) \<Rightarrow>
     if count = 0 \<or> bad \<or> prev = CHR ''_'' then None
     else Some (b, acc, (case dp of None \<Rightarrow> 0 | Some k \<Rightarrow> count - k), rest))"

text \<open>The digits of an exponent: value, whether there was one, last kind, misplaced separator, rest.\<close>

fun exp_scan :: "char \<Rightarrow> bool \<Rightarrow> nat \<Rightarrow> bool \<Rightarrow> string \<Rightarrow> nat \<times> bool \<times> char \<times> bool \<times> string" where
  "exp_scan prev has acc bad [] = (acc, has, prev, bad, [])"
| "exp_scan prev has acc bad (c # cs) =
     (if is_digit c then exp_scan (CHR ''0'') True (acc * 10 + digit_val c) bad cs
      else if c = CHR ''_'' then exp_scan (CHR ''_'') has acc (bad \<or> prev \<noteq> CHR ''0'') cs
      else (acc, has, prev, bad, c # cs))"

text \<open>\<^verbatim>\<open>scanExponent\<close>: exponent, its base, rest; \<open>None\<close> on malformed digits or beyond 64 bits.\<close>

definition scan_exponent :: "string \<Rightarrow> (int \<times> nat \<times> string) option" where
  "scan_exponent s = (case s of
     [] \<Rightarrow> Some (0, 10, [])
   | c # r \<Rightarrow>
       if c \<in> {CHR ''e'', CHR ''E'', CHR ''p'', CHR ''P''} then
         (let base = (if c = CHR ''e'' \<or> c = CHR ''E'' then 10 else 2);
              neg = (r \<noteq> [] \<and> hd r = CHR ''-'');
              r' = (if r \<noteq> [] \<and> (hd r = CHR ''-'' \<or> hd r = CHR ''+'') then tl r else r)
          in case exp_scan (CHR ''.'') False 0 False r' of (n, has, prev, bad, rest) \<Rightarrow>
            if \<not> has \<or> bad \<or> prev = CHR ''_'' then None
            else let e = (if neg then - int n else int n) in
              if e < - (2 ^ 63) \<or> e > 2 ^ 63 - 1 then None else Some (e, base, rest))
       else Some (0, 10, s))"

text \<open>The exact value of a whole string: sign and magnitude.\<close>

definition parse_exact :: "string \<Rightarrow> (bool \<times> rat) option" where
  "parse_exact s = (let neg = (s \<noteq> [] \<and> hd s = CHR ''-'');
       r = (if s \<noteq> [] \<and> (hd s = CHR ''-'' \<or> hd s = CHR ''+'') then tl s else s)
     in case scan_mantissa r of
       None \<Rightarrow> None
     | Some (b, m, fd, r1) \<Rightarrow>
         (case scan_exponent r1 of
            None \<Rightarrow> None
          | Some (e, eb, r2) \<Rightarrow>
              if r2 \<noteq> [] then None
              else Some (neg, of_nat m / of_nat b ^ fd * of_nat eb powi e)))"

text \<open>\<^verbatim>\<open>new(big.Float).SetPrec(p).SetString(s)\<close>; a precision of 0 becomes 64. \<open>None\<close> is \<^verbatim>\<open>(nil, false)\<close>.\<close>

definition SetString :: "nat \<Rightarrow> string \<Rightarrow> big_float option" where
  "SetString p s = (let p' = (if p = 0 then 64 else p) in
     if s = ''Inf'' \<or> s = ''inf'' \<or> s = ''+Inf'' \<or> s = ''+inf'' then Some (Inf p' False)
     else if s = ''-Inf'' \<or> s = ''-inf'' then Some (Inf p' True)
     else map_option (\<lambda>(neg, m). mkf p' neg (if neg then - m else m)) (parse_exact s))"

subsection \<open>Eight-decimal strings parse to their value\<close>

lemma digit_of_digit: "is_digit c \<Longrightarrow> digit_of c = Some (digit_val c) \<and> digit_val c < 10"
  by (auto simp: is_digit_def digit_of_def digit_val_def Let_def)

lemma nat_scan_digits:
  "\<forall>c \<in> set ds. is_digit c \<Longrightarrow> ds \<noteq> [] \<Longrightarrow>
     nat_scan 10 fracOk prev count dp acc bad (ds @ r) =
     nat_scan 10 fracOk (CHR ''0'') (count + length ds) dp (digits_val acc ds) bad r"
proof (induction ds arbitrary: prev count acc)
  case (Cons d ds)
  have d: "is_digit d" using Cons.prems by simp
  then have "nat_scan 10 fracOk prev count dp acc bad ((d # ds) @ r) =
      nat_scan 10 fracOk (CHR ''0'') (Suc count) dp (acc * 10 + digit_val d) bad (ds @ r)"
    using digit_of_digit [OF d] is_digit_not_special [OF d] by simp
  then show ?case using Cons by (cases "ds = []") simp_all
qed simp

lemma nat_scan_fraction:
  assumes "\<forall>c \<in> set fs. is_digit c" and "fs \<noteq> []"
  shows "nat_scan 10 True (CHR ''0'') count None acc False (CHR ''.'' # fs) =
     (digits_val acc fs, count + length fs, Some count, CHR ''0'', False, [])"
  using nat_scan_digits [OF assms, of False "CHR ''.''" count "Some count" acc False "[]"] by simp

lemma scan_prefix_decimal:
  assumes "\<forall>c \<in> set fs. is_digit c" and "fs \<noteq> []"
  shows "scan_prefix (show_nat n @ CHR ''.'' # fs) =
    (10, digits_val n fs, length (show_nat n) + length fs, Some (length (show_nat n)), CHR ''0'', False, [])"
proof -
  obtain c cs where n: "show_nat n = c # cs" by (cases "show_nat n") auto
  show ?thesis
  proof (cases "c = CHR ''0''")
    case True
    then have cs: "cs = []" using show_nat_head [OF n] by simp
    then have "n = 0" using digits_val_show_nat [of n] n True by (simp add: digit_val_def)
    with n True cs nat_scan_fraction [OF assms, of 1 0] show ?thesis
      by (simp add: scan_prefix_def del: nat_scan.simps)
  next
    case False
    then have "scan_prefix (show_nat n @ CHR ''.'' # fs) =
        (10, nat_scan 10 True (CHR ''.'') 0 None 0 False (show_nat n @ CHR ''.'' # fs))"
      by (simp add: scan_prefix_def n del: nat_scan.simps)
    then show ?thesis
      using nat_scan_digits [OF show_nat_digits show_nat_nonempty] nat_scan_fraction [OF assms]
      by simp
  qed
qed

lemma digits_val_fixed8: "digits_val (n div 10 ^ 8) (show_width 8 (n mod 10 ^ 8)) = n"
  by (subst digits_val_acc) (simp add: digits_val_show_width)

lemma scan_mantissa_fixed8:
  "scan_mantissa (show_fixed8 n) = Some (10, n, 8, [])"
proof -
  have "show_width 8 (n mod 10 ^ 8) \<noteq> []"
    by (metis length_show_width list.size(3) zero_neq_numeral)
  then show ?thesis
    using scan_prefix_decimal [of "show_width 8 (n mod 10 ^ 8)" "n div 10 ^ 8"] digits_val_fixed8 [of n]
    by (simp add: scan_mantissa_def show_fixed8_def show_width_digits)
qed

lemma show_fixed8_head: "\<exists>c cs. show_fixed8 n = c # cs \<and> is_digit c"
proof -
  obtain c cs where n: "show_nat (n div 10 ^ 8) = c # cs" by (cases "show_nat (n div 10 ^ 8)") auto
  then have "is_digit c" using show_nat_digits [of "n div 10 ^ 8"] by simp
  with n show ?thesis by (auto simp: show_fixed8_def)
qed

lemma parse_exact_fixed8: "parse_exact (show_fixed8 n) = Some (False, of_nat n / 10 ^ 8)"
proof -
  obtain c cs where c: "show_fixed8 n = c # cs" "is_digit c" using show_fixed8_head by blast
  then have "hd (show_fixed8 n) \<noteq> CHR ''-''" "hd (show_fixed8 n) \<noteq> CHR ''+''"
    by (auto dest: is_digit_not_special)
  then show ?thesis
    by (simp add: parse_exact_def Let_def scan_mantissa_fixed8 scan_exponent_def)
qed

lemma parse_exact_neg_fixed8: "parse_exact (CHR ''-'' # show_fixed8 n) = Some (True, of_nat n / 10 ^ 8)"
  by (simp add: parse_exact_def Let_def scan_mantissa_fixed8 scan_exponent_def)

lemma show_fixed8_not_inf:
  "is_digit c \<Longrightarrow> c # cs \<noteq> ''Inf'' \<and> c # cs \<noteq> ''inf'' \<and> c # cs \<noteq> ''+Inf'' \<and> c # cs \<noteq> ''+inf'' \<and>
     c # cs \<noteq> ''-Inf'' \<and> c # cs \<noteq> ''-inf'' \<and> CHR ''-'' # c # cs \<noteq> ''-Inf'' \<and> CHR ''-'' # c # cs \<noteq> ''-inf''"
  using is_digit_not_special [of c] by auto

lemma SetString_fixed8:
  "SetString p (show_fixed8 n) = Some (mkf (if p = 0 then 64 else p) False (of_nat n / 10 ^ 8))"
proof -
  obtain c cs where c: "show_fixed8 n = c # cs" "is_digit c" using show_fixed8_head by blast
  then show ?thesis
    using show_fixed8_not_inf [OF c(2), of cs] parse_exact_fixed8 [of n]
    by (auto simp: SetString_def Let_def)
qed

lemma SetString_neg_fixed8:
  "SetString p (CHR ''-'' # show_fixed8 n) =
     Some (mkf (if p = 0 then 64 else p) True (- (of_nat n / 10 ^ 8)))"
proof -
  obtain c cs where c: "show_fixed8 n = c # cs" "is_digit c" using show_fixed8_head by blast
  then show ?thesis
    using show_fixed8_not_inf [OF c(2), of cs] parse_exact_neg_fixed8 [of n]
    by (auto simp: SetString_def Let_def)
qed

end
