(* ===== verification/Numeric.thy ===== *)
theory Numeric
  imports BigFloat
begin

text \<open>
  The columns of type \<^verbatim>\<open>NUMERIC(20,8)\<close> (src/migrations/000001_init_schema.up.sql) and what the
  program's floats make of them. A stored value is an integer number of units of \<open>10 ^ - 8\<close>; it
  is read as text with eight decimals, parsed to a \<^verbatim>\<open>big.Float\<close>, computed with, printed with
  \<^verbatim>\<open>%.8f\<close> and stored again. The locale \<open>float_exact\<close> states once, for a precision and a bound on
  the amounts, when that detour through binary floats gives the exact decimal result; it is
  interpreted for the 128 bits of the matching engine and for the 64 bits of the services.
\<close>

type_synonym numeric = int

section \<open>Text of a column\<close>

definition numeric_out :: "numeric \<Rightarrow> string" where
  "numeric_out n = (if n < 0 then ''-'' else []) @ show_fixed8 (nat \<bar>n\<bar>)"

text \<open>
  Reading a decimal literal into a column: optional sign, digits, an optional fraction that is
  rounded to eight places away from zero on a tie; the column holds less than \<open>10 ^ 12\<close>. The only
  strings the modelled code sends are those of \<^verbatim>\<open>%.8f\<close>; an infinity does not fit such a column.
\<close>

definition numeric_fits :: "numeric \<Rightarrow> bool" where
  "numeric_fits n \<longleftrightarrow> \<bar>n\<bar> < 10 ^ 20"

definition decimal_literal :: "string \<Rightarrow> numeric option" where
  "decimal_literal s = (let ds = takeWhile is_digit s; r = dropWhile is_digit s;
       fs = (if r \<noteq> [] \<and> hd r = CHR ''.'' then takeWhile is_digit (tl r) else []);
       rest = (if r \<noteq> [] \<and> hd r = CHR ''.'' then dropWhile is_digit (tl r) else r);
       m = digits_val 0 (ds @ fs); k = length fs
     in if ds @ fs = [] \<or> rest \<noteq> [] then None
        else if k \<le> 8 then Some (int (m * 10 ^ (8 - k)))
        else Some (int ((m + 5 * 10 ^ (k - 9)) div 10 ^ (k - 8))))"

definition numeric_in :: "string \<Rightarrow> numeric option" where
  "numeric_in s = (let neg = (s \<noteq> [] \<and> hd s = CHR ''-'');
       r = (if s \<noteq> [] \<and> (hd s = CHR ''-'' \<or> hd s = CHR ''+'') then tl s else s)
     in case decimal_literal r of
          None \<Rightarrow> None
        | Some n \<Rightarrow> let v = (if neg then - n else n) in if numeric_fits v then Some v else None)"

lemma takeWhile_digits:
  "\<forall>c \<in> set ds. is_digit c \<Longrightarrow> \<not> is_digit x \<Longrightarrow> takeWhile is_digit (ds @ x # r) = ds"
  "\<forall>c \<in> set ds. is_digit c \<Longrightarrow> \<not> is_digit x \<Longrightarrow> dropWhile is_digit (ds @ x # r) = x # r"
  by (induction ds) auto

lemma decimal_literal_fixed8: "decimal_literal (show_fixed8 n) = Some (int n)"
proof -
  define d f where d: "d = show_nat (n div 10 ^ 8)" and f: "f = show_width 8 (n mod 10 ^ 8)"
  have dot: "\<not> is_digit (CHR ''.'')" by (simp add: is_digit_def)
  have s: "show_fixed8 n = d @ CHR ''.'' # f" by (simp add: show_fixed8_def d f)
  have "\<forall>c \<in> set d. is_digit c" unfolding d by (rule show_nat_digits)
  note t = takeWhile_digits [OF this dot]
  have "\<forall>c \<in> set f. is_digit c" unfolding f by (rule show_width_digits)
  then have w: "takeWhile is_digit f = f" "dropWhile is_digit f = []"
    by (auto simp: takeWhile_eq_all_conv dropWhile_eq_Nil_conv)
  have v: "digits_val 0 (d @ f) = n" and l: "length f = 8" and ne: "d \<noteq> []"
    unfolding d f by (simp_all add: digits_val_append digits_val_fixed8 del: power_numeral)
  show ?thesis
    unfolding decimal_literal_def Let_def s t by (simp add: w v l ne)
qed

lemma numeric_in_fixed8:
  "numeric_in (show_fixed8 n) = (if numeric_fits (int n) then Some (int n) else None)"
proof -
  obtain c cs where c: "show_fixed8 n = c # cs" "is_digit c" using show_fixed8_head by blast
  then have "hd (show_fixed8 n) \<noteq> CHR ''-''" "hd (show_fixed8 n) \<noteq> CHR ''+''"
    by (auto dest: is_digit_not_special)
  then show ?thesis by (simp add: numeric_in_def Let_def decimal_literal_fixed8)
qed

lemma numeric_in_neg_fixed8:
  "numeric_in (CHR ''-'' # show_fixed8 n) = (if numeric_fits (int n) then Some (- int n) else None)"
  by (simp add: numeric_in_def Let_def decimal_literal_fixed8 numeric_fits_def)

lemma numeric_in_out: "numeric_fits n \<Longrightarrow> numeric_in (numeric_out n) = Some n"
  using numeric_in_fixed8 [of "nat n"] numeric_in_neg_fixed8 [of "nat (- n)"]
  by (auto simp: numeric_out_def numeric_fits_def)

lemma numeric_fits_0 [simp]: "numeric_fits 0"
  by (simp add: numeric_fits_def)

lemma numeric_in_fits: "numeric_in s = Some n \<Longrightarrow> numeric_fits n"
  by (auto simp: numeric_in_def Let_def split: option.splits if_splits)

text \<open>Storing a printed float: the nearest number of units.\<close>

lemma round_even_nonneg: "0 \<le> x \<Longrightarrow> 0 \<le> round_even x"
  using round_even_mono [of 0 x] by simp

lemma numeric_in_fmt8f:
  assumes "z \<Longrightarrow> v = 0"
  shows "numeric_in (fmt8f (Fin p z v)) =
    (let n = round_even (v * 10 ^ 8) in if numeric_fits n then Some n else None)"
proof (cases "z \<or> v < 0")
  case True
  then have "v = - \<bar>v\<bar>" using assms by auto
  define r where r: "r = round_even (\<bar>v\<bar> * 10 ^ 8)"
  have e: "round_even (v * 10 ^ 8) = - r"
    unfolding r using \<open>v = - \<bar>v\<bar>\<close> by (metis mult_minus_left round_even_uminus)
  have "0 \<le> r" unfolding r by (intro round_even_nonneg) simp
  moreover have "fmt8f (Fin p z v) = CHR ''-'' # show_fixed8 (nat r)"
    using True by (simp add: fmt8f_def r)
  ultimately show ?thesis
    unfolding e by (simp add: numeric_in_neg_fixed8 Let_def numeric_fits_def)
next
  case False
  moreover from False have "0 \<le> round_even (v * 10 ^ 8)" by (intro round_even_nonneg) simp
  ultimately show ?thesis
    by (simp add: fmt8f_def numeric_in_fixed8 Let_def numeric_fits_def)
qed

text \<open>Printing a float whose nearest number of units is not negative is printing that number.\<close>

lemma fmt8f_numeric_out:
  "\<not> z \<Longrightarrow> 0 \<le> v \<Longrightarrow> fmt8f (Fin p z v) = numeric_out (round_even (v * 10 ^ 8))"
  using round_even_nonneg [of "v * 10 ^ 8"] by (simp add: fmt8f_def numeric_out_def)

text \<open>Loading a column into a float.\<close>

lemma SetString_numeric_out:
  assumes "p \<noteq> 0"
  shows "SetString p (numeric_out n) = Some (Fin p False (rnd p (of_int n / 10 ^ 8)))"
proof (cases "n < 0")
  case True
  then have n: "numeric_out n = CHR ''-'' # show_fixed8 (nat (- n))"
    by (simp add: numeric_out_def)
  have e: "- (of_nat (nat (- n)) / 10 ^ 8 :: rat) = of_int n / 10 ^ 8"
    using True by simp
  show ?thesis
    using assms True unfolding n SetString_neg_fixed8 e by (simp add: mkf_def)
next
  case False
  then have n: "numeric_out n = show_fixed8 (nat n)" by (simp add: numeric_out_def)
  have e: "(of_nat (nat n) / 10 ^ 8 :: rat) = of_int n / 10 ^ 8" using False by simp
  show ?thesis using assms False unfolding n SetString_fixed8 e by (simp add: mkf_def)
qed

section \<open>Exactness of the detour through floats\<close>

text \<open>The number of units stored for a float value, and the float value loaded for a number of units.\<close>

definition units :: "rat \<Rightarrow> int" where
  "units v = round_even (v * 10 ^ 8)"

definition load :: "nat \<Rightarrow> numeric \<Rightarrow> rat" where
  "load p n = rnd p (of_int n / 10 ^ 8)"

lemma rnd_error_units: "\<bar>rnd p v * 10 ^ 8 - v * 10 ^ 8\<bar> \<le> \<bar>v * 10 ^ 8\<bar> / 2 ^ p"
proof -
  have e: "rnd p v * 10 ^ 8 - v * 10 ^ 8 = (rnd p v - v) * 10 ^ 8"
    by (rule left_diff_distrib [symmetric])
  have "\<bar>rnd p v - v\<bar> * 10 ^ 8 \<le> \<bar>v\<bar> / 2 ^ p * 10 ^ 8"
    by (intro mult_right_mono rnd_error) auto
  then show ?thesis unfolding e abs_mult by simp
qed

lemma load_error: "\<bar>load p n * 10 ^ 8 - of_int n\<bar> \<le> \<bar>of_int n\<bar> / 2 ^ p"
  using rnd_error_units [of p "of_int n / 10 ^ 8"] by (simp add: load_def)

lemma load_uminus: "load p (- n) = - load p n"
  by (simp add: load_def rnd_uminus flip: minus_divide_left)

lemma load_0 [simp]: "load p 0 = 0"
  by (simp add: load_def)

lemma load_pos_iff: "1 \<le> p \<Longrightarrow> 0 < load p n \<longleftrightarrow> 0 < n"
  by (simp add: load_def rnd_pos_iff zero_less_divide_iff)

text \<open>What the operations of \<^verbatim>\<open>big.Float\<close> are on floats of one precision.\<close>

lemma parse_exact_inf: "parse_exact ''Inf'' = None" "parse_exact ''inf'' = None" "parse_exact ''+Inf'' = None"
  "parse_exact ''+inf'' = None" "parse_exact ''-Inf'' = None" "parse_exact ''-inf'' = None"
  by code_simp+

lemma SetString_exact: "parse_exact s = Some (False, v) \<Longrightarrow> p \<noteq> 0 \<Longrightarrow> SetString p s = Some (Fin p False (rnd p v))"
  by (auto simp: SetString_def Let_def parse_exact_inf mkf_def)

lemma SetString_load: "p \<noteq> 0 \<Longrightarrow> SetString p (numeric_out n) = Some (Fin p False (load p n))"
  by (simp add: SetString_numeric_out load_def)

lemma SetString_amount:
  "parse_exact s = Some (False, of_int n / 10 ^ 8) \<Longrightarrow> p \<noteq> 0 \<Longrightarrow> SetString p s = Some (Fin p False (load p n))"
  by (simp add: SetString_exact load_def)

lemma Add_Fin: "Add 0 (Fin p False v) (Fin p False u) = Some (Fin p False (rnd p (v + u)))"
  and Sub_Fin: "Sub 0 (Fin p False v) (Fin p False u) = Some (Fin p False (rnd p (v - u)))"
  by (simp_all add: zprec_def mkf_def Sub_def)

lemma Mul_Fin: "0 \<le> v \<Longrightarrow> 0 \<le> u \<Longrightarrow> Mul 0 (Fin p False v) (Fin p False u) = Some (Fin p False (rnd p (v * u)))"
  by (simp add: zprec_def mkf_def float_neg_def)

lemma fmt8f_units: "0 \<le> v \<Longrightarrow> fmt8f (Fin p False v) = numeric_out (units v)"
  by (simp add: fmt8f_numeric_out units_def)

lemma numeric_in_units:
  "numeric_in (fmt8f (Fin p False v)) = (if numeric_fits (units v) then Some (units v) else None)"
  by (simp add: numeric_in_fmt8f units_def Let_def)

lemma units_nonneg: "0 \<le> v \<Longrightarrow> 0 \<le> units v"
  unfolding units_def by (intro round_even_nonneg) simp

lemma load_nonneg: "1 \<le> p \<Longrightarrow> 0 \<le> n \<Longrightarrow> 0 \<le> load p n"
  using load_pos_iff [of p n] by (cases "n = 0") auto

lemma rnd_nonneg: "1 \<le> p \<Longrightarrow> 0 \<le> v \<Longrightarrow> 0 \<le> rnd p v"
  using rnd_pos [of p v] by (cases "v = 0") auto

text \<open>Amounts of less than \<open>B\<close> units, computed with \<open>p\<close> bits.\<close>

locale float_exact =
  fixes p :: nat and B :: int
  assumes prec: "1 \<le> p" and room: "16 * B \<le> 2 ^ p"
begin

lemma room_rat: "of_int B / 2 ^ p \<le> (1/16 :: rat)"
proof -
  have "(of_int (16 * B) :: rat) \<le> of_int (2 ^ p)" using room by (simp only: of_int_le_iff)
  then show ?thesis by (simp add: field_simps)
qed

lemma small_error: "\<bar>n\<bar> \<le> B \<Longrightarrow> \<bar>of_int n\<bar> / 2 ^ p \<le> (1/16 :: rat)"
proof -
  assume "\<bar>n\<bar> \<le> B"
  then have "(of_int \<bar>n\<bar> :: rat) \<le> of_int B" by (simp only: of_int_le_iff)
  then have "of_int \<bar>n\<bar> / 2 ^ p \<le> (of_int B / 2 ^ p :: rat)" by (intro divide_right_mono) auto
  also note room_rat
  finally show ?thesis by (simp only: of_int_abs)
qed

lemma load_close: "\<bar>n\<bar> \<le> B \<Longrightarrow> \<bar>load p n * 10 ^ 8 - of_int n\<bar> \<le> 1/16"
  using load_error [of p n] small_error [of n] by linarith

text \<open>What is stored is what was loaded.\<close>

lemma units_load: "\<bar>n\<bar> \<le> B \<Longrightarrow> units (load p n) = n"
  unfolding units_def using load_close [of n] by (intro round_even_unique) auto

text \<open>Comparing floats compares the amounts.\<close>

lemma load_less_iff:
  assumes "\<bar>a\<bar> \<le> B" and "\<bar>b\<bar> \<le> B"
  shows "load p a < load p b \<longleftrightarrow> a < b"
proof -
  have less: "load p x < load p y" if "\<bar>x\<bar> \<le> B" "\<bar>y\<bar> \<le> B" "x < y" for x y
  proof -
    have "(of_int x + 1 :: rat) \<le> of_int y" using that(3) by (metis add1_zle_eq of_int_1 of_int_add of_int_le_iff)
    with load_close [OF that(1)] load_close [OF that(2)] have "load p x * 10 ^ 8 < load p y * 10 ^ 8"
      unfolding abs_le_iff by linarith
    then show ?thesis by simp
  qed
  show ?thesis using less [of a b] less [of b a] assms by (cases a b rule: linorder_cases) auto
qed

lemma load_le_iff: "\<bar>a\<bar> \<le> B \<Longrightarrow> \<bar>b\<bar> \<le> B \<Longrightarrow> load p a \<le> load p b \<longleftrightarrow> a \<le> b"
  using load_less_iff [of b a] by (simp add: not_less [symmetric])

text \<open>Adding and subtracting floats adds and subtracts the amounts, exactly, once stored.\<close>

lemma units_add:
  assumes "\<bar>a\<bar> \<le> B" and "\<bar>b\<bar> \<le> B" and "\<bar>a + b\<bar> \<le> B"
  shows "units (rnd p (load p a + load p b)) = a + b"
proof -
  let ?x = "(load p a + load p b) * 10 ^ 8"
  have x: "\<bar>?x - of_int (a + b)\<bar> \<le> 1/8"
    using load_close [OF assms(1)] load_close [OF assms(2)]
    unfolding distrib_right of_int_add by linarith
  have "\<bar>?x\<bar> \<le> \<bar>of_int (a + b)\<bar> + 1/8" using x by linarith
  then have "\<bar>?x\<bar> / 2 ^ p \<le> (\<bar>of_int (a + b)\<bar> + 1/8) / 2 ^ p" by (intro divide_right_mono) auto
  also have "\<dots> = \<bar>of_int (a + b)\<bar> / 2 ^ p + 1/8 / 2 ^ p" by (simp add: add_divide_distrib)
  also have "1/8 / (2::rat) ^ p \<le> 1/8 / 1" by (intro divide_left_mono) auto
  finally have e: "\<bar>?x\<bar> / 2 ^ p \<le> 3/16" using small_error [OF assms(3)] by linarith
  have "\<bar>rnd p (load p a + load p b) * 10 ^ 8 - ?x\<bar> \<le> \<bar>?x\<bar> / 2 ^ p"
    by (rule rnd_error_units)
  with x e show ?thesis unfolding units_def by (intro round_even_unique) linarith
qed

lemma units_sub:
  assumes "\<bar>a\<bar> \<le> B" and "\<bar>b\<bar> \<le> B" and "\<bar>a - b\<bar> \<le> B"
  shows "units (rnd p (load p a - load p b)) = a - b"
  using units_add [of a "- b"] assms by (simp add: load_uminus)

end

text \<open>
  The cost of a trade, \<open>q\<close> units of quantity at a price of \<open>c\<close> units: \<open>q * c / 10 ^ 8\<close> units of money,
  rounded. With enough bits the float of the cost is so near that only an exact tie is left open.
\<close>

definition cost_units :: "numeric \<Rightarrow> numeric \<Rightarrow> numeric" where
  "cost_units q c = (q * c + 5 * 10 ^ 7) div 10 ^ 8"

definition cost_tie :: "numeric \<Rightarrow> numeric \<Rightarrow> bool" where
  "cost_tie q c \<longleftrightarrow> (q * c) mod 10 ^ 8 = 5 * 10 ^ 7"

definition float_cost :: "nat \<Rightarrow> numeric \<Rightarrow> numeric \<Rightarrow> rat" where
  "float_cost p q c = rnd p (load p q * load p c)"

lemma cost_units_close: "\<bar>of_int (q * c) / 10 ^ 8 - of_int (cost_units q c)\<bar> \<le> (1/2 :: rat)"
  and cost_units_near: "\<not> cost_tie q c \<Longrightarrow> \<bar>of_int (q * c) / 10 ^ 8 - of_int (cost_units q c)\<bar> \<le> (1/2 - 1/10 ^ 8 :: rat)"
proof -
  define n r where n: "n = q * c" and r: "r = (n + 5 * 10 ^ 7) mod 10 ^ 8"
  have e: "10 ^ 8 * cost_units q c = n + 5 * 10 ^ 7 - r"
    unfolding cost_units_def r n by (simp add: minus_mod_eq_mult_div [symmetric])
  then have "(of_int (10 ^ 8 * cost_units q c) :: rat) = of_int (n + 5 * 10 ^ 7 - r)" by simp
  then have d: "of_int n / 10 ^ 8 - of_int (cost_units q c) = (of_int r - 5 * 10 ^ 7) / (10 ^ 8 :: rat)"
    by (simp add: field_simps)
  have b: "0 \<le> r" "r < 10 ^ 8" unfolding r by simp_all
  then have "(0 :: rat) \<le> of_int r" "(of_int r :: rat) \<le> 10 ^ 8" by simp_all
  then show "\<bar>of_int (q * c) / 10 ^ 8 - of_int (cost_units q c)\<bar> \<le> (1/2 :: rat)"
    unfolding n [symmetric] d by (simp add: abs_le_iff)
  assume t: "\<not> cost_tie q c"
  have "r \<noteq> 0"
  proof
    assume "r = 0"
    with e have "n = 10 ^ 8 * (cost_units q c - 1) + 5 * 10 ^ 7" by simp
    then have "n mod 10 ^ 8 = 5 * 10 ^ 7" by (simp only: mod_mult_self4) simp
    with t show False by (simp add: cost_tie_def n)
  qed
  then have "1 \<le> r" "r \<le> 10 ^ 8 - 1" using b by simp_all
  then have "(1 :: rat) \<le> of_int r" "(of_int r :: rat) \<le> of_int (10 ^ 8 - 1)" by (simp_all only: of_int_le_iff of_int_1_le_iff)
  then show "\<bar>of_int (q * c) / 10 ^ 8 - of_int (cost_units q c)\<bar> \<le> (1/2 - 1/10 ^ 8 :: rat)"
    unfolding n [symmetric] d by (simp add: abs_le_iff)
qed

lemma cost_exact: "(10 ^ 8) dvd q * c \<Longrightarrow> \<not> cost_tie q c \<and> 10 ^ 8 * cost_units q c = q * c"
  unfolding cost_tie_def cost_units_def by (auto simp: mod_eq_0_iff_dvd)

lemma abs_between: "\<bar>x - z\<bar> \<le> \<bar>x - y\<bar> + \<bar>y - z\<bar>" for x y z :: rat
  by linarith

lemma round_near:
  fixes y t :: rat
  assumes "\<bar>y - t\<bar> \<le> 3 / 10 ^ 9" and "\<bar>t - of_int n\<bar> \<le> 1/2 - 1/10 ^ 8"
  shows "round_even y = n"
proof -
  have "\<bar>y - of_int n\<bar> \<le> \<bar>y - t\<bar> + \<bar>t - of_int n\<bar>" by linarith
  also have "\<dots> \<le> 3 / 10 ^ 9 + (1/2 - 1/10 ^ 8)" using assms by (intro add_mono)
  also have "\<dots> < 1/2" by simp
  finally show ?thesis by (rule round_even_unique)
qed

text \<open>The error of the float of a cost: three roundings, relative to the cost.\<close>

lemma float_cost_error:
  assumes "0 \<le> q" and "0 \<le> c"
  shows "\<bar>float_cost p q c * 10 ^ 8 - of_int (q * c) / 10 ^ 8\<bar> \<le> 7 * (of_int (q * c) / 10 ^ 8 / 2 ^ p)"
proof -
  define e m Q C :: rat where e: "e = 1 / 2 ^ p" and m: "m = of_int (q * c) / 10 ^ 8"
    and Q: "Q = load p q * 10 ^ 8" and C: "C = load p c * 10 ^ 8"
  have e01: "0 \<le> e" "e \<le> 1" unfolding e by simp_all
  have m0: "0 \<le> m" unfolding m using assms(1,2) by simp
  have q: "\<bar>Q - of_int q\<bar> \<le> of_int q * e" and c: "\<bar>C - of_int c\<bar> \<le> of_int c * e"
    using load_error [of p q] load_error [of p c] assms(1,2) by (simp_all add: Q C e)
  have qc: "\<bar>Q * C - of_int q * of_int c\<bar> \<le> of_int q * of_int c * (2 * e + e * e)"
  proof -
    have "Q * C - of_int q * of_int c = (Q - of_int q) * (C - of_int c) + (Q - of_int q) * of_int c + of_int q * (C - of_int c)"
      by (simp add: algebra_simps)
    also have "\<bar>\<dots>\<bar> \<le> \<bar>(Q - of_int q) * (C - of_int c)\<bar> + \<bar>(Q - of_int q) * of_int c\<bar> + \<bar>of_int q * (C - of_int c)\<bar>"
      by linarith
    also have "\<dots> \<le> (of_int q * e) * (of_int c * e) + (of_int q * e) * of_int c + of_int q * (of_int c * e)"
      unfolding abs_mult using assms(1,2) q c e01(1) by (intro add_mono mult_mono) auto
    finally show ?thesis by (simp add: algebra_simps)
  qed
  have mul: "\<bar>Q * C / 10 ^ 8 - m\<bar> \<le> m * (2 * e + e * e)"
  proof -
    have "Q * C / 10 ^ 8 - m = (Q * C - of_int q * of_int c) / 10 ^ 8" by (simp add: m diff_divide_distrib)
    also have "\<bar>\<dots>\<bar> \<le> of_int q * of_int c * (2 * e + e * e) / 10 ^ 8"
      unfolding abs_divide using qc by (simp add: divide_right_mono)
    finally show ?thesis by (simp add: m)
  qed
  have v: "load p q * load p c * 10 ^ 8 = Q * C / 10 ^ 8" by (simp add: Q C)
  have r: "\<bar>float_cost p q c * 10 ^ 8 - Q * C / 10 ^ 8\<bar> \<le> \<bar>Q * C / 10 ^ 8\<bar> * e"
    using rnd_error_units [of p "load p q * load p c"] unfolding float_cost_def v by (simp add: e)
  have ee: "m * (e * e) \<le> m * e" using m0 e01 by (intro mult_left_mono) (auto simp: mult_left_le)
  have "\<bar>Q * C / 10 ^ 8\<bar> \<le> m + 3 * (m * e)" using mul ee m0 by (simp add: distrib_left abs_le_iff)
  then have "\<bar>Q * C / 10 ^ 8\<bar> * e \<le> (m + 3 * (m * e)) * e" using e01 by (intro mult_right_mono) auto
  also have "\<dots> = m * e + 3 * (m * (e * e))" by (simp add: algebra_simps)
  also have "\<dots> \<le> 4 * (m * e)" using ee by linarith
  finally have "\<bar>float_cost p q c * 10 ^ 8 - Q * C / 10 ^ 8\<bar> \<le> 4 * (m * e)" using r by linarith
  moreover have "\<bar>Q * C / 10 ^ 8 - m\<bar> \<le> 3 * (m * e)" using mul ee by (simp only: distrib_left)
  ultimately have "\<bar>float_cost p q c * 10 ^ 8 - m\<bar> \<le> 4 * (m * e) + 3 * (m * e)"
    by (rule order_trans [OF abs_between add_mono])
  then have "\<bar>float_cost p q c * 10 ^ 8 - m\<bar> \<le> 7 * (m * e)" by (simp add: mult.commute)
  then show ?thesis unfolding m e by simp
qed

context float_exact
begin

lemma float_cost_half:
  assumes "0 \<le> q" and "0 \<le> c" and "q * c \<le> B * 10 ^ 8"
  shows "\<bar>float_cost p q c * 10 ^ 8 - of_int (q * c) / 10 ^ 8\<bar> \<le> 7/16"
proof -
  have "(of_int (q * c) :: rat) \<le> of_int (B * 10 ^ 8)" using assms(3) by (simp only: of_int_le_iff)
  then have "of_int (q * c) / 10 ^ 8 \<le> (of_int B :: rat)" by simp
  then have "of_int (q * c) / 10 ^ 8 / 2 ^ p \<le> of_int B / (2 :: rat) ^ p" by (intro divide_right_mono) auto
  also note room_rat
  finally have "7 * (of_int (q * c) / 10 ^ 8 / 2 ^ p) \<le> 7 * (1/16 :: rat)" by (intro mult_left_mono) simp_all
  then show ?thesis using float_cost_error [OF assms(1,2), of p] by linarith
qed

text \<open>A balance that is a unit more than the cost is enough, one that is a unit less is not.\<close>

lemma funds_accept:
  assumes "0 \<le> q" and "0 \<le> c" and "q * c + 10 ^ 8 \<le> b * 10 ^ 8" and "b \<le> B"
  shows "float_cost p q c \<le> load p b"
proof -
  have qc: "0 \<le> q * c" using assms(1,2) by simp
  have qB: "q * c \<le> B * 10 ^ 8" and b: "\<bar>b\<bar> \<le> B" using assms(3,4) qc by auto
  have "(of_int (q * c + 10 ^ 8) :: rat) \<le> of_int (b * 10 ^ 8)" using assms(3) by (simp only: of_int_le_iff)
  then have "of_int (q * c) / 10 ^ 8 + 1 \<le> (of_int b :: rat)" by simp
  then have "float_cost p q c * 10 ^ 8 \<le> load p b * 10 ^ 8"
    using float_cost_half [OF assms(1,2) qB] load_close [OF b] unfolding abs_le_iff by linarith
  then show ?thesis by simp
qed

lemma funds_reject:
  assumes "0 \<le> q" and "0 \<le> c" and "b * 10 ^ 8 + 10 ^ 8 \<le> q * c" and "q * c \<le> B * 10 ^ 8" and "0 \<le> b"
  shows "load p b < float_cost p q c"
proof -
  have b: "\<bar>b\<bar> \<le> B" using assms(3-5) by auto
  have "(of_int (b * 10 ^ 8 + 10 ^ 8) :: rat) \<le> of_int (q * c)" using assms(3) by (simp only: of_int_le_iff)
  then have "(of_int b :: rat) + 1 \<le> of_int (q * c) / 10 ^ 8" by simp
  then have "load p b * 10 ^ 8 < float_cost p q c * 10 ^ 8"
    using float_cost_half [OF assms(1,2,4)] load_close [OF b] unfolding abs_le_iff by linarith
  then show ?thesis by simp
qed

end

locale float_trade = float_exact +
  assumes fine: "10 ^ 9 * 8 * B \<le> 2 ^ p"
begin

lemma rel_small: "\<bar>v\<bar> \<le> of_int B \<Longrightarrow> \<bar>v\<bar> / 2 ^ p \<le> (1 / (8 * 10 ^ 9) :: rat)"
proof -
  assume v: "\<bar>v\<bar> \<le> of_int B"
  have "(of_int (10 ^ 9 * 8 * B) :: rat) \<le> of_int (2 ^ p)" using fine by (simp only: of_int_le_iff)
  then have "of_int B / 2 ^ p \<le> (1 / (8 * 10 ^ 9) :: rat)" by (simp add: field_simps)
  moreover have "\<bar>v\<bar> / 2 ^ p \<le> of_int B / 2 ^ p" using v by (intro divide_right_mono) auto
  ultimately show ?thesis by linarith
qed

lemma load_near: "\<bar>n\<bar> \<le> B \<Longrightarrow> \<bar>load p n * 10 ^ 8 - of_int n\<bar> \<le> 1 / (8 * 10 ^ 9)"
proof -
  assume "\<bar>n\<bar> \<le> B"
  then have "\<bar>of_int n\<bar> \<le> (of_int B :: rat)" by (simp only: of_int_le_iff flip: of_int_abs)
  from rel_small [OF this] load_error [of p n] show ?thesis by linarith
qed

text \<open>The float of a cost: all its errors together are less than a tenth of the smallest fraction.\<close>

lemma float_cost_near:
  assumes "0 \<le> q" and "0 \<le> c" and "q * c \<le> B * 10 ^ 8"
  shows "\<bar>float_cost p q c * 10 ^ 8 - of_int (q * c) / 10 ^ 8\<bar> \<le> 1 / 10 ^ 9"
proof -
  have "(of_int (q * c) :: rat) \<le> of_int (B * 10 ^ 8)" "(0 :: rat) \<le> of_int (q * c)"
    using assms by (simp_all only: of_int_le_iff of_int_0_le_iff mult_nonneg_nonneg)
  then have "\<bar>of_int (q * c) / 10 ^ 8\<bar> \<le> (of_int B :: rat)" by simp
  from rel_small [OF this] \<open>(0 :: rat) \<le> of_int (q * c)\<close>
  have "of_int (q * c) / 10 ^ 8 / 2 ^ p \<le> (1 / (8 * 10 ^ 9) :: rat)" by (simp only: abs_of_nonneg divide_nonneg_nonneg zero_le_power zero_le_numeral)
  then have "7 * (of_int (q * c) / 10 ^ 8 / 2 ^ p) \<le> 7 * (1 / (8 * 10 ^ 9) :: rat)" by (intro mult_left_mono) auto
  also have "\<dots> \<le> 1 / 10 ^ 9" by simp
  finally show ?thesis by (rule order_trans [OF float_cost_error [OF assms(1,2)]])
qed

text \<open>Adding the cost to a balance or subtracting it (\<open>g\<close> is \<open>1\<close> or \<open>- 1\<close>).\<close>

lemma moved_near:
  assumes "0 \<le> q" and "0 \<le> c" and "q * c \<le> B * 10 ^ 8" and "\<bar>b\<bar> \<le> B" and g: "\<bar>g\<bar> = 1"
    and "\<bar>of_int b + g * (of_int (q * c) / 10 ^ 8)\<bar> \<le> of_int B"
  shows "\<bar>rnd p (load p b + g * float_cost p q c) * 10 ^ 8 - (of_int b + g * (of_int (q * c) / 10 ^ 8))\<bar> \<le> 3 / 10 ^ 9"
proof -
  define x t where x: "x = (load p b + g * float_cost p q c) * 10 ^ 8" and t: "t = of_int b + g * (of_int (q * c) / 10 ^ 8)"
  have "x - t = (load p b * 10 ^ 8 - of_int b) + g * (float_cost p q c * 10 ^ 8 - of_int (q * c) / 10 ^ 8)"
    by (simp add: x t algebra_simps)
  also have "\<bar>\<dots>\<bar> \<le> \<bar>load p b * 10 ^ 8 - of_int b\<bar> + \<bar>g\<bar> * \<bar>float_cost p q c * 10 ^ 8 - of_int (q * c) / 10 ^ 8\<bar>"
    unfolding abs_mult [symmetric] by (rule abs_triangle_ineq)
  also have "\<dots> \<le> 1 / (8 * 10 ^ 9) + 1 / 10 ^ 9"
    using load_near [OF assms(4)] float_cost_near [OF assms(1-3)] unfolding g mult_1 by (intro add_mono)
  finally have d: "\<bar>x - t\<bar> \<le> 9 / (8 * 10 ^ 9)" by simp
  have "\<bar>x\<bar> / 2 ^ p \<le> \<bar>t\<bar> / 2 ^ p + \<bar>x - t\<bar> / 2 ^ p"
    unfolding add_divide_distrib [symmetric] by (intro divide_right_mono) auto
  also have "\<bar>x - t\<bar> / 2 ^ p \<le> \<bar>x - t\<bar> / 1" by (intro divide_left_mono) auto
  finally have "\<bar>x\<bar> / 2 ^ p \<le> \<bar>t\<bar> / 2 ^ p + \<bar>x - t\<bar>" by (simp only: div_by_1)
  also have "\<dots> \<le> 1 / (8 * 10 ^ 9) + 9 / (8 * 10 ^ 9)"
    using rel_small [of t] assms(6) d unfolding t by (intro add_mono)
  finally have "\<bar>x\<bar> / 2 ^ p \<le> 10 / (8 * 10 ^ 9)" by simp
  moreover have "\<bar>rnd p (load p b + g * float_cost p q c) * 10 ^ 8 - x\<bar> \<le> \<bar>x\<bar> / 2 ^ p"
    unfolding x by (rule rnd_error_units)
  ultimately have "\<bar>rnd p (load p b + g * float_cost p q c) * 10 ^ 8 - x\<bar> + \<bar>x - t\<bar> \<le> 10 / (8 * 10 ^ 9) + 9 / (8 * 10 ^ 9)"
    using d by (intro add_mono) (rule order_trans)
  also have "\<dots> \<le> 3 / 10 ^ 9" by simp
  finally show ?thesis unfolding t [symmetric] by (rule order_trans [OF abs_between])
qed

lemma units_cost:
  assumes "0 \<le> q" and "0 \<le> c" and "q * c \<le> B * 10 ^ 8" and "\<not> cost_tie q c"
  shows "units (float_cost p q c) = cost_units q c"
  unfolding units_def
  by (rule round_near [OF order_trans [OF float_cost_near [OF assms(1-3)]] cost_units_near [OF assms(4)]]) simp

lemma units_debit:
  assumes "0 \<le> q" and "0 \<le> c" and "q * c \<le> b * 10 ^ 8" and "b \<le> B" and "\<not> cost_tie q c"
  shows "units (rnd p (load p b - float_cost p q c)) = b - cost_units q c"
proof -
  have qc: "0 \<le> q * c" using assms(1,2) by simp
  then have "0 \<le> b * 10 ^ 8" using assms(3) by linarith
  then have b: "0 \<le> b" by simp
  have "q * c \<le> B * 10 ^ 8" using assms(3,4) by simp
  moreover have "\<bar>of_int b + - 1 * (of_int (q * c) / 10 ^ 8)\<bar> \<le> (of_int B :: rat)"
  proof -
    have "(of_int (q * c) :: rat) \<le> of_int (b * 10 ^ 8)" "(0 :: rat) \<le> of_int (q * c)" "(of_int b :: rat) \<le> of_int B"
      using assms(3,4) qc by (simp_all only: of_int_le_iff of_int_0_le_iff)
    then show ?thesis by simp
  qed
  ultimately have "\<bar>rnd p (load p b + - 1 * float_cost p q c) * 10 ^ 8 - (of_int b + - 1 * (of_int (q * c) / 10 ^ 8))\<bar> \<le> 3 / 10 ^ 9"
    using assms b by (intro moved_near) auto
  moreover have "\<bar>of_int b + - 1 * (of_int (q * c) / 10 ^ 8) - of_int (b - cost_units q c)\<bar> \<le> (1/2 - 1/10 ^ 8 :: rat)"
    using cost_units_near [OF assms(5)] by (simp add: abs_minus_commute)
  ultimately have "round_even (rnd p (load p b + - 1 * float_cost p q c) * 10 ^ 8) = b - cost_units q c"
    by (rule round_near)
  then show ?thesis unfolding units_def by simp
qed

lemma units_credit:
  assumes "0 \<le> q" and "0 \<le> c" and "0 \<le> b" and "b * 10 ^ 8 + q * c \<le> B * 10 ^ 8" and "\<not> cost_tie q c"
  shows "units (rnd p (load p b + float_cost p q c)) = b + cost_units q c"
proof -
  have qc: "0 \<le> q * c" using assms(1,2) by simp
  then have "q * c \<le> B * 10 ^ 8" "b \<le> B" using assms(3,4) by simp_all
  moreover have "\<bar>of_int b + 1 * (of_int (q * c) / 10 ^ 8)\<bar> \<le> (of_int B :: rat)"
  proof -
    have "(of_int (b * 10 ^ 8 + q * c) :: rat) \<le> of_int (B * 10 ^ 8)" "(0 :: rat) \<le> of_int (q * c)" "(0 :: rat) \<le> of_int b"
      using assms(3,4) qc by (simp_all only: of_int_le_iff of_int_0_le_iff)
    then show ?thesis by simp
  qed
  ultimately have "\<bar>rnd p (load p b + 1 * float_cost p q c) * 10 ^ 8 - (of_int b + 1 * (of_int (q * c) / 10 ^ 8))\<bar> \<le> 3 / 10 ^ 9"
    using assms by (intro moved_near) auto
  moreover have "\<bar>of_int b + 1 * (of_int (q * c) / 10 ^ 8) - of_int (b + cost_units q c)\<bar> \<le> (1/2 - 1/10 ^ 8 :: rat)"
    using cost_units_near [OF assms(5)] by simp
  ultimately have "round_even (rnd p (load p b + 1 * float_cost p q c) * 10 ^ 8) = b + cost_units q c"
    by (rule round_near)
  then show ?thesis unfolding units_def by simp
qed

text \<open>The check of the funds: right unless the cost is exactly the balance.\<close>

lemma debit_sign:
  assumes "0 \<le> q" and "0 \<le> c" and "q * c \<le> B * 10 ^ 8" and "0 \<le> b" and "b \<le> B"
  shows "q * c < b * 10 ^ 8 \<Longrightarrow> 0 < load p b - float_cost p q c"
    and "b * 10 ^ 8 < q * c \<Longrightarrow> load p b - float_cost p q c < 0"
proof -
  define x y t u where d: "x = load p b * 10 ^ 8" "y = float_cost p q c * 10 ^ 8" "t = (of_int b :: rat)"
    "u = (of_int (q * c) / 10 ^ 8 :: rat)"
  have "\<bar>x - t\<bar> \<le> 1 / (8 * 10 ^ 9)" "\<bar>y - u\<bar> \<le> 1 / 10 ^ 9"
    unfolding d using load_near [of b] float_cost_near [OF assms(1-3)] assms(4,5) by simp_all
  then have n: "\<bar>(x - y) - (t - u)\<bar> \<le> 9 / (8 * 10 ^ 9)" unfolding abs_le_iff by simp
  have s: "load p b - float_cost p q c = (x - y) / 10 ^ 8" unfolding d by (simp add: field_simps)
  {
    assume "q * c < b * 10 ^ 8"
    then have "(of_int (q * c + 1) :: rat) \<le> of_int (b * 10 ^ 8)" by (simp only: of_int_le_iff)
    then have "1 / 10 ^ 8 \<le> t - u" unfolding d by simp
    with n show "0 < load p b - float_cost p q c" unfolding s abs_le_iff by simp
  next
    assume "b * 10 ^ 8 < q * c"
    then have "(of_int (b * 10 ^ 8 + 1) :: rat) \<le> of_int (q * c)" by (simp only: of_int_le_iff)
    then have "t - u \<le> - (1 / 10 ^ 8)" unfolding d by simp
    with n show "load p b - float_cost p q c < 0" unfolding s abs_le_iff by simp
  }
qed

text \<open>Even on a tie, a transfer of the cost creates or destroys at most one unit.\<close>

lemma transfer_drift:
  assumes "0 \<le> q" and "0 \<le> c" and "0 \<le> b" and "b \<le> B" and "0 \<le> s" and "s * 10 ^ 8 + q * c \<le> B * 10 ^ 8"
  shows "\<bar>units (rnd p (load p b - float_cost p q c)) + units (rnd p (load p s + float_cost p q c)) - (b + s)\<bar> \<le> 1"
proof -
  define x y u where d: "x = rnd p (load p b + - 1 * float_cost p q c) * 10 ^ 8"
    "y = rnd p (load p s + 1 * float_cost p q c) * 10 ^ 8" "u = (of_int (q * c) / 10 ^ 8 :: rat)"
  have qc: "0 \<le> q * c" using assms(1,2) by simp
  have qB: "q * c \<le> B * 10 ^ 8" "s \<le> B" using assms(5,6) qc by simp_all
  have "(of_int (q * c) :: rat) \<le> of_int (B * 10 ^ 8)" "(0 :: rat) \<le> of_int (q * c)" "(of_int b :: rat) \<le> of_int B"
    "(of_int (s * 10 ^ 8 + q * c) :: rat) \<le> of_int (B * 10 ^ 8)" "(0 :: rat) \<le> of_int b" "(0 :: rat) \<le> of_int s"
    using assms qc qB by (simp_all only: of_int_le_iff of_int_0_le_iff)
  then have "\<bar>of_int b + - 1 * u\<bar> \<le> of_int B" "\<bar>of_int s + 1 * u\<bar> \<le> of_int B" unfolding d by simp_all
  moreover have "\<bar>b\<bar> \<le> B" "\<bar>s\<bar> \<le> B" using assms qB by simp_all
  ultimately have "\<bar>x - (of_int b + - 1 * u)\<bar> \<le> 3 / 10 ^ 9" "\<bar>y - (of_int s + 1 * u)\<bar> \<le> 3 / 10 ^ 9"
    unfolding d by (intro moved_near [OF assms(1,2) qB(1)]; simp)+
  moreover have "\<bar>of_int (round_even x) - x\<bar> \<le> 1/2" "\<bar>of_int (round_even y) - y\<bar> \<le> 1/2"
    by (rule round_even_error)+
  ultimately have "\<bar>of_int (round_even x + round_even y - (b + s)) :: rat\<bar> < 2"
    unfolding abs_less_iff abs_le_iff by simp
  then have "\<bar>round_even x + round_even y - (b + s)\<bar> < 2" by (simp only: of_int_less_numeral_iff flip: of_int_abs)
  then show ?thesis unfolding d units_def by simp
qed

end

interpretation f128: float_trade 128 "10 ^ 20"
  by unfold_locales simp_all

interpretation f64: float_exact 64 "10 ^ 18"
  by unfold_locales simp_all

end
