(* ===== verification/Model.thy ===== *)
theory Model
  imports Numeric
begin

text \<open>
  The data of the program: the structs of the \<^verbatim>\<open>model.go\<close> files and of kafka/events.go, their
  string constants, and the errors. A struct whose decimal fields are Go strings and the row
  it is scanned from are one record over the type of those fields: \<open>string wallet\<close> is the struct
  \<^verbatim>\<open>wallet.Wallet\<close>, \<open>numeric wallet\<close> a row of the table \<^verbatim>\<open>wallets\<close>. A time is an integer number of
  microseconds; \<^verbatim>\<open>*string\<close> and \<^verbatim>\<open>*int64\<close> are options.
\<close>

section \<open>Constants\<close>

definition OrderSideBuy :: string where "OrderSideBuy = ''BUY''"
definition OrderSideSell :: string where "OrderSideSell = ''SELL''"
definition OrderTypeLimit :: string where "OrderTypeLimit = ''LIMIT''"
definition OrderStatusPending :: string where "OrderStatusPending = ''PENDING''"
definition OrderStatusPartiallyFilled :: string where "OrderStatusPartiallyFilled = ''PARTIALLY_FILLED''"
definition OrderStatusFilled :: string where "OrderStatusFilled = ''FILLED''"
definition OrderStatusCancelled :: string where "OrderStatusCancelled = ''CANCELLED''"
definition TxTypeDeposit :: string where "TxTypeDeposit = ''DEPOSIT''"
definition TxTypeWithdrawal :: string where "TxTypeWithdrawal = ''WITHDRAWAL''"
definition TxStatusCompleted :: string where "TxStatusCompleted = ''COMPLETED''"
definition TxStatusFailed :: string where "TxStatusFailed = ''FAILED''"
definition AssetStatusActive :: string where "AssetStatusActive = ''ACTIVE''"
definition AssetStatusDisabled :: string where "AssetStatusDisabled = ''DISABLED''"
definition RoleAdmin :: string where "RoleAdmin = ''admin''"
definition RoleBroker :: string where "RoleBroker = ''broker''"
definition RoleTrader :: string where "RoleTrader = ''trader''"
definition RoleSupport :: string where "RoleSupport = ''support''"
definition UserStatusActive :: string where "UserStatusActive = ''ACTIVE''"
definition UserStatusSuspended :: string where "UserStatusSuspended = ''SUSPENDED''"

lemmas const_defs = OrderSideBuy_def OrderSideSell_def OrderTypeLimit_def OrderStatusPending_def
  OrderStatusPartiallyFilled_def OrderStatusFilled_def OrderStatusCancelled_def TxTypeDeposit_def
  TxTypeWithdrawal_def TxStatusCompleted_def TxStatusFailed_def AssetStatusActive_def
  AssetStatusDisabled_def RoleAdmin_def RoleBroker_def RoleTrader_def RoleSupport_def
  UserStatusActive_def UserStatusSuspended_def

lemma side_distinct [simp]: "OrderSideBuy \<noteq> OrderSideSell" "OrderSideSell \<noteq> OrderSideBuy"
  by (simp_all add: const_defs)

lemma status_distinct [simp]:
  "OrderStatusPending \<noteq> OrderStatusPartiallyFilled" "OrderStatusPartiallyFilled \<noteq> OrderStatusPending"
  "OrderStatusPending \<noteq> OrderStatusFilled" "OrderStatusFilled \<noteq> OrderStatusPending"
  "OrderStatusPending \<noteq> OrderStatusCancelled" "OrderStatusCancelled \<noteq> OrderStatusPending"
  "OrderStatusPartiallyFilled \<noteq> OrderStatusFilled" "OrderStatusFilled \<noteq> OrderStatusPartiallyFilled"
  "OrderStatusPartiallyFilled \<noteq> OrderStatusCancelled" "OrderStatusCancelled \<noteq> OrderStatusPartiallyFilled"
  "OrderStatusFilled \<noteq> OrderStatusCancelled" "OrderStatusCancelled \<noteq> OrderStatusFilled"
  by (simp_all add: const_defs)

lemma tx_type_distinct [simp]: "TxTypeDeposit \<noteq> TxTypeWithdrawal" "TxTypeWithdrawal \<noteq> TxTypeDeposit"
  by (simp_all add: const_defs)

section \<open>Structs and rows\<close>

text \<open>The zero \<^verbatim>\<open>time.Time\<close>, the first instant of year 1.\<close>

definition zero_time :: int where "zero_time = -62135596800000000"

record user =
  u_ID :: int
  u_Email :: string
  u_PasswordHash :: string
  u_Role :: string
  u_Status :: string
  u_CreatedAt :: int
  u_UpdatedAt :: int
  u_DeletedAt :: "int option"

record 'n wallet =
  w_ID :: int
  w_UserID :: int
  w_Balance :: 'n
  w_Currency :: string
  w_Version :: int
  w_CreatedAt :: int
  w_UpdatedAt :: int

record 'n wallet_transaction =
  x_ID :: int
  x_WalletID :: int
  x_Amount :: 'n
  x_TransactionType :: string
  x_Status :: string
  x_ReferenceID :: "string option"
  x_Description :: "string option"
  x_CreatedAt :: int

record 'n asset =
  a_ID :: int
  a_BrokerID :: int
  a_Symbol :: string
  a_Name :: string
  a_Description :: "string option"
  a_Price :: 'n
  a_Quantity :: 'n
  a_Status :: string
  a_CreatedAt :: int
  a_UpdatedAt :: int

record 'n order =
  o_ID :: int
  o_UserID :: int
  o_AssetID :: int
  o_Side :: string
  o_Type :: string
  o_Price :: 'n
  o_Quantity :: 'n
  o_FilledQuantity :: 'n
  o_RemainingQuantity :: 'n
  o_Status :: string
  o_IdempotencyKey :: "string option"
  o_CreatedAt :: int
  o_UpdatedAt :: int

record 'n trade =
  t_ID :: int
  t_BuyOrderID :: int
  t_SellOrderID :: int
  t_AssetID :: int
  t_Price :: 'n
  t_Quantity :: 'n
  t_BuyerID :: int
  t_SellerID :: int
  t_CreatedAt :: int

record 'n portfolio_holding =
  h_UserID :: int
  h_AssetID :: int
  h_Quantity :: 'n
  h_AverageBuyPrice :: 'n

record audit_log =
  l_ID :: int
  l_UserID :: "int option"
  l_Action :: string
  l_Details :: "string option"
  l_IPAddress :: "string option"
  l_CreatedAt :: int

section \<open>Events\<close>

record order_event =
  oe_OrderID :: int
  oe_UserID :: int
  oe_AssetID :: int
  oe_Side :: string
  oe_Type :: string
  oe_Price :: string
  oe_Quantity :: string
  oe_Status :: string
  oe_Timestamp :: int

record trade_event =
  te_TradeID :: int
  te_BuyOrderID :: int
  te_SellOrderID :: int
  te_AssetID :: int
  te_Price :: string
  te_Quantity :: string
  te_BuyerID :: int
  te_SellerID :: int
  te_Timestamp :: int

record wallet_event =
  we_WalletID :: int
  we_UserID :: int
  we_Balance :: string
  we_ChangeAmount :: string
  we_TransactionType :: string
  we_Timestamp :: int

datatype payload = OrderEventPayload order_event | TradeEventPayload trade_event | WalletEventPayload wallet_event

text \<open>Scanning a row into the struct: the decimal columns become text.\<close>

definition scan_wallet :: "numeric wallet \<Rightarrow> string wallet" where
  "scan_wallet r = \<lparr>w_ID = w_ID r, w_UserID = w_UserID r, w_Balance = numeric_out (w_Balance r),
     w_Currency = w_Currency r, w_Version = w_Version r, w_CreatedAt = w_CreatedAt r, w_UpdatedAt = w_UpdatedAt r\<rparr>"

definition scan_tx :: "numeric wallet_transaction \<Rightarrow> string wallet_transaction" where
  "scan_tx r = \<lparr>x_ID = x_ID r, x_WalletID = x_WalletID r, x_Amount = numeric_out (x_Amount r),
     x_TransactionType = x_TransactionType r, x_Status = x_Status r, x_ReferenceID = x_ReferenceID r,
     x_Description = x_Description r, x_CreatedAt = x_CreatedAt r\<rparr>"

text \<open>
  The price and the quantity of an asset are stored as the user wrote them, and \<^verbatim>\<open>NUMERIC\<close> takes
  \<^verbatim>\<open>NaN\<close>: \<open>None\<close>. All other amounts are printed by the program and are numbers.
\<close>

type_synonym price = "numeric option"

definition price_out :: "price \<Rightarrow> string" where
  "price_out p = (case p of None \<Rightarrow> ''NaN'' | Some n \<Rightarrow> numeric_out n)"

definition scan_asset :: "price asset \<Rightarrow> string asset" where
  "scan_asset r = \<lparr>a_ID = a_ID r, a_BrokerID = a_BrokerID r, a_Symbol = a_Symbol r, a_Name = a_Name r,
     a_Description = a_Description r, a_Price = price_out (a_Price r), a_Quantity = price_out (a_Quantity r),
     a_Status = a_Status r, a_CreatedAt = a_CreatedAt r, a_UpdatedAt = a_UpdatedAt r\<rparr>"

definition scan_order :: "numeric order \<Rightarrow> string order" where
  "scan_order r = \<lparr>o_ID = o_ID r, o_UserID = o_UserID r, o_AssetID = o_AssetID r, o_Side = o_Side r,
     o_Type = o_Type r, o_Price = numeric_out (o_Price r), o_Quantity = numeric_out (o_Quantity r),
     o_FilledQuantity = numeric_out (o_FilledQuantity r), o_RemainingQuantity = numeric_out (o_RemainingQuantity r),
     o_Status = o_Status r, o_IdempotencyKey = o_IdempotencyKey r, o_CreatedAt = o_CreatedAt r,
     o_UpdatedAt = o_UpdatedAt r\<rparr>"

definition scan_trade :: "numeric trade \<Rightarrow> string trade" where
  "scan_trade r = \<lparr>t_ID = t_ID r, t_BuyOrderID = t_BuyOrderID r, t_SellOrderID = t_SellOrderID r,
     t_AssetID = t_AssetID r, t_Price = numeric_out (t_Price r), t_Quantity = numeric_out (t_Quantity r),
     t_BuyerID = t_BuyerID r, t_SellerID = t_SellerID r, t_CreatedAt = t_CreatedAt r\<rparr>"

definition scan_holding :: "numeric portfolio_holding \<Rightarrow> string portfolio_holding" where
  "scan_holding r = \<lparr>h_UserID = h_UserID r, h_AssetID = h_AssetID r, h_Quantity = numeric_out (h_Quantity r),
     h_AverageBuyPrice = numeric_out (h_AverageBuyPrice r)\<rparr>"

lemma scan_wallet_simps [simp]:
  "w_ID (scan_wallet r) = w_ID r" "w_UserID (scan_wallet r) = w_UserID r"
  "w_Balance (scan_wallet r) = numeric_out (w_Balance r)" "w_Currency (scan_wallet r) = w_Currency r"
  "w_Version (scan_wallet r) = w_Version r"
  by (simp_all add: scan_wallet_def)

lemma scan_order_simps [simp]:
  "o_ID (scan_order r) = o_ID r" "o_UserID (scan_order r) = o_UserID r" "o_AssetID (scan_order r) = o_AssetID r"
  "o_Side (scan_order r) = o_Side r" "o_Type (scan_order r) = o_Type r" "o_Price (scan_order r) = numeric_out (o_Price r)"
  "o_Quantity (scan_order r) = numeric_out (o_Quantity r)"
  "o_FilledQuantity (scan_order r) = numeric_out (o_FilledQuantity r)"
  "o_RemainingQuantity (scan_order r) = numeric_out (o_RemainingQuantity r)"
  "o_Status (scan_order r) = o_Status r" "o_IdempotencyKey (scan_order r) = o_IdempotencyKey r"
  "o_CreatedAt (scan_order r) = o_CreatedAt r" "o_UpdatedAt (scan_order r) = o_UpdatedAt r"
  by (simp_all add: scan_order_def)

lemma scan_asset_simps [simp]:
  "a_ID (scan_asset r) = a_ID r" "a_Status (scan_asset r) = a_Status r" "a_BrokerID (scan_asset r) = a_BrokerID r"
  by (simp_all add: scan_asset_def)

lemma scan_holding_simps [simp]:
  "h_UserID (scan_holding r) = h_UserID r" "h_AssetID (scan_holding r) = h_AssetID r"
  "h_Quantity (scan_holding r) = numeric_out (h_Quantity r)"
  by (simp_all add: scan_holding_def)

section \<open>Errors\<close>

text \<open>
  The sentinel errors of the packages; \<open>DBError\<close> is an error of the database driver with its
  message, \<open>ErrorString\<close> one made with \<^verbatim>\<open>errors.New\<close> or \<^verbatim>\<open>fmt.Errorf\<close> on the spot, \<open>Wrapf\<close> one wrapped
  by \<^verbatim>\<open>fmt.Errorf\<close> with \<^verbatim>\<open>%w\<close> after a text, \<open>WrapAfter\<close> one before a text. \<open>Panic\<close> is a Go panic.
  Two packages have an \<^verbatim>\<open>ErrTokenInvalid\<close> of their own: that of pkg/jwt and \<open>ErrAuthTokenInvalid\<close>, that of
  internal/auth/service.
\<close>

datatype error =
    ErrInvalidAmount | ErrWalletNotFound | ErrInsufficientBalance
  | ErrOrderNotFound | ErrDuplicateIdempotencyKey
  | ErrOrderInsufficientFunds | ErrOrderInsufficientHolding | ErrOrderNotOwned
  | ErrOrderNotCancellable | ErrOrderAssetNotActive
  | ErrAssetNotFound | ErrNotAssetOwner | ErrDuplicateSymbol | ErrInvalidAssetData
  | ErrPortfolioNotFound | ErrUserNotFound
  | ErrInvalidRole | ErrEmailAlreadyExists | ErrInvalidCredentials | ErrAccountSuspended
  | ErrTokenInvalid | ErrTokenExpired | ErrAuthTokenInvalid | ErrInvalidStatus
  | DBError string | ErrorString string | Wrapf string error | WrapAfter error string | Panic string

text \<open>\<^verbatim>\<open>errors.Is\<close>: through the wrapping.\<close>

fun errors_Is :: "error \<Rightarrow> error \<Rightarrow> bool" where
  "errors_Is (Wrapf s e) target = (Wrapf s e = target \<or> errors_Is e target)"
| "errors_Is (WrapAfter e s) target = (WrapAfter e s = target \<or> errors_Is e target)"
| "errors_Is e target = (e = target)"

definition is_panic :: "error \<Rightarrow> bool" where
  "is_panic e = (case e of Panic s \<Rightarrow> True | _ \<Rightarrow> False)"

text \<open>\<^verbatim>\<open>err.Error()\<close>.\<close>

fun error_text :: "error \<Rightarrow> string" where
  "error_text ErrInvalidAmount = ''amount must be greater than zero''"
| "error_text ErrWalletNotFound = ''wallet not found''"
| "error_text ErrInsufficientBalance = ''insufficient wallet balance''"
| "error_text ErrOrderNotFound = ''order not found''"
| "error_text ErrDuplicateIdempotencyKey = ''duplicate idempotency key: order already exists''"
| "error_text ErrOrderInsufficientFunds = ''insufficient wallet balance to place buy order''"
| "error_text ErrOrderInsufficientHolding = ''insufficient asset holding to place sell order''"
| "error_text ErrOrderNotOwned = ''order does not belong to this user''"
| "error_text ErrOrderNotCancellable = ''only PENDING or PARTIALLY_FILLED orders can be cancelled''"
| "error_text ErrOrderAssetNotActive = ''asset is not active''"
| "error_text ErrAssetNotFound = ''asset not found''"
| "error_text ErrNotAssetOwner = ''you do not own this asset''"
| "error_text ErrDuplicateSymbol = ''an asset with this symbol already exists''"
| "error_text ErrInvalidAssetData = ''invalid asset data''"
| "error_text ErrPortfolioNotFound = ''portfolio holding not found''"
| "error_text ErrUserNotFound = ''user not found''"
| "error_text ErrInvalidRole = ''invalid role''"
| "error_text ErrEmailAlreadyExists = ''email already registered''"
| "error_text ErrInvalidCredentials = ''invalid email or password''"
| "error_text ErrAccountSuspended = ''account is suspended''"
| "error_text ErrTokenInvalid = ''token is invalid''"
| "error_text ErrAuthTokenInvalid = ''token is invalid''"
| "error_text ErrTokenExpired = ''token has expired''"
| "error_text ErrInvalidStatus = ''status must be ACTIVE or SUSPENDED''"
| "error_text (DBError s) = s"
| "error_text (ErrorString s) = s"
| "error_text (Wrapf s e) = s @ '': '' @ error_text e"
| "error_text (WrapAfter e s) = error_text e @ '': '' @ s"
| "error_text (Panic s) = s"

end
