(* ===== verification/Database.thy ===== *)
theory Database
  imports Model
begin

text \<open>
  The state the program works on and the effects its code has: the tables (schema of the
  migrations 000001, 000002_assets_broker_id, 000003 and 000004_admin_phase10), the sequences
  behind \<^verbatim>\<open>BIGSERIAL\<close>, the clock, the queue of the matching engine and the calls issued to Kafka and
  Redis. Every SQL statement may fail: \<open>faults\<close> says which of the coming statements do, and with
  which message. A computation takes a world and returns a result or an error, with the new world.
  Transactions: \<^verbatim>\<open>BeginTxx\<close>, \<^verbatim>\<open>Commit\<close>, \<^verbatim>\<open>Rollback\<close> and database/transaction.go; the locale
  \<open>tx_runner\<close> is the contract of every function that runs a body in a transaction.
\<close>

section \<open>State\<close>

record tables =
  users :: "user list"
  wallets :: "numeric wallet list"
  wallet_transactions :: "numeric wallet_transaction list"
  assets :: "price asset list"
  orders :: "numeric order list"
  trades :: "numeric trade list"
  portfolios :: "numeric portfolio_holding list"
  audit_logs :: "audit_log list"

text \<open>What is sent out: events to Kafka, prices and messages to Redis.\<close>

datatype effect =
    PublishEvent string string payload
  | SetPrice int string
  | InvalidatePrice int
  | PublishPrice string int string string int

record world =
  db :: tables
  seqs :: "string \<Rightarrow> int"
  now :: int
  faults :: "string option list"
  out :: "effect list"
  queue :: "string order list"
  queueCap :: nat
  kafkaProducer :: bool
  cacheClient :: bool

type_synonym 'a io = "world \<Rightarrow> (error + 'a) \<times> world"

section \<open>Computations\<close>

definition ret :: "'a \<Rightarrow> 'a io" where
  "ret x = (\<lambda>w. (Inr x, w))"

definition raise :: "error \<Rightarrow> 'a io" where
  "raise e = (\<lambda>w. (Inl e, w))"

definition bindE :: "'a io \<Rightarrow> ('a \<Rightarrow> 'b io) \<Rightarrow> 'b io" where
  "bindE m f = (\<lambda>w. case m w of (Inl e, w1) \<Rightarrow> (Inl e, w1) | (Inr x, w1) \<Rightarrow> f x w1)"

text \<open>The error of a call as a value, to be looked at; a panic goes on.\<close>

definition attempt :: "'a io \<Rightarrow> (error + 'a) io" where
  "attempt m = (\<lambda>w. case m w of
     (Inl e, w1) \<Rightarrow> if is_panic e then (Inl e, w1) else (Inr (Inl e), w1)
   | (Inr x, w1) \<Rightarrow> (Inr (Inr x), w1))"

text \<open>\<^verbatim>\<open>if err != nil { return fmt.Errorf("ctx: %w", err) }\<close>.\<close>

definition wrapE :: "string \<Rightarrow> 'a io \<Rightarrow> 'a io" where
  "wrapE ctx m = (\<lambda>w. case m w of
     (Inl e, w1) \<Rightarrow> (Inl (if is_panic e then e else Wrapf ctx e), w1)
   | (Inr x, w1) \<Rightarrow> (Inr x, w1))"

text \<open>An error replaced by another one; a panic goes on.\<close>

definition mapE :: "(error \<Rightarrow> error) \<Rightarrow> 'a io \<Rightarrow> 'a io" where
  "mapE f m = (\<lambda>w. case m w of
     (Inl e, w1) \<Rightarrow> (Inl (if is_panic e then e else f e), w1)
   | (Inr x, w1) \<Rightarrow> (Inr x, w1))"

definition check :: "bool \<Rightarrow> error \<Rightarrow> unit io" where
  "check b e = (if b then ret () else raise e)"

text \<open>Using a pointer that may be nil, or an arithmetic operation that may panic.\<close>

definition orPanic :: "string \<Rightarrow> 'a option \<Rightarrow> 'a io" where
  "orPanic msg x = (case x of None \<Rightarrow> raise (Panic msg) | Some y \<Rightarrow> ret y)"

text \<open>One SQL statement: it may fail before it does anything.\<close>

definition sql :: "'a io \<Rightarrow> 'a io" where
  "sql q = (\<lambda>w. case faults w of
     [] \<Rightarrow> q w
   | None # fs \<Rightarrow> q (w\<lparr>faults := fs\<rparr>)
   | Some msg # fs \<Rightarrow> (Inl (DBError msg), w\<lparr>faults := fs\<rparr>))"

definition emit :: "effect \<Rightarrow> unit io" where
  "emit e = (\<lambda>w. (Inr (), w\<lparr>out := out w @ [e]\<rparr>))"

definition nextval :: "string \<Rightarrow> int io" where
  "nextval t = (\<lambda>w. (Inr (seqs w t), w\<lparr>seqs := (seqs w)(t := seqs w t + 1)\<rparr>))"

definition get_db :: "tables io" where
  "get_db = (\<lambda>w. (Inr (db w), w))"

definition put_db :: "tables \<Rightarrow> unit io" where
  "put_db d = (\<lambda>w. (Inr (), w\<lparr>db := d\<rparr>))"

definition time_now :: "int io" where
  "time_now = (\<lambda>w. (Inr (now w), w))"

text \<open>A value on its way into a \<^verbatim>\<open>NUMERIC(20,8)\<close> column.\<close>

definition to_numeric :: "string \<Rightarrow> numeric io" where
  "to_numeric s = (case numeric_in s of
     None \<Rightarrow> raise (DBError ''pq: numeric field overflow'') | Some n \<Rightarrow> ret n)"

definition unique_violation :: "string \<Rightarrow> error" where
  "unique_violation c = DBError (''pq: duplicate key value violates unique constraint '' @ [CHR 0x22] @ c @ [CHR 0x22])"

text \<open>
  \<^verbatim>\<open>VARCHAR(n)\<close> counts characters: the bytes of a string in UTF-8 that do not continue a character.
\<close>

primrec char_length :: "string \<Rightarrow> nat" where
  "char_length [] = 0"
| "char_length (c # s) = (if digit7 c \<and> \<not> digit6 c then char_length s else Suc (char_length s))"

lemma char_length_le: "char_length s \<le> length s"
  by (induction s) auto

lemma char_length_bound [intro]: "length s \<le> n \<Longrightarrow> char_length s \<le> n"
  using char_length_le [of s] by simp

definition check_violation :: "string \<Rightarrow> error" where
  "check_violation c = DBError (''pq: new row violates check constraint '' @ [CHR 0x22] @ c @ [CHR 0x22])"

definition fk_violation :: "string \<Rightarrow> error" where
  "fk_violation c = DBError (''pq: insert violates foreign key constraint '' @ [CHR 0x22] @ c @ [CHR 0x22])"

declare ret_def [monad_defs] raise_def [monad_defs] bindE_def [monad_defs] attempt_def [monad_defs]
  wrapE_def [monad_defs] mapE_def [monad_defs] check_def [monad_defs] orPanic_def [monad_defs] emit_def [monad_defs]
  nextval_def [monad_defs] get_db_def [monad_defs] put_db_def [monad_defs] time_now_def [monad_defs]
  to_numeric_def [monad_defs]

subsection \<open>Inversion: what a successful computation did\<close>

lemma ret_Inr [simp]: "ret x w = (Inr y, w') \<longleftrightarrow> y = x \<and> w' = w"
  and ret_Inl [simp]: "ret x w \<noteq> (Inl e, w')"
  and raise_Inr [simp]: "raise e w \<noteq> (Inr y, w')"
  and raise_Inl [simp]: "raise e w = (Inl e', w') \<longleftrightarrow> e' = e \<and> w' = w"
  by (auto simp: ret_def raise_def)

lemma bindE_Inr:
  "bindE m f w = (Inr y, w') \<longleftrightarrow> (\<exists>x w1. m w = (Inr x, w1) \<and> f x w1 = (Inr y, w'))"
  by (auto simp: bindE_def split: prod.splits sum.splits)

lemma bindE_Inl:
  "bindE m f w = (Inl e, w') \<longleftrightarrow>
     m w = (Inl e, w') \<or> (\<exists>x w1. m w = (Inr x, w1) \<and> f x w1 = (Inl e, w'))"
  by (auto simp: bindE_def split: prod.splits sum.splits)

lemma wrapE_Inr [simp]: "wrapE c m w = (Inr y, w') \<longleftrightarrow> m w = (Inr y, w')"
  by (auto simp: wrapE_def split: prod.splits sum.splits)

lemma mapE_Inr [simp]: "mapE f m w = (Inr y, w') \<longleftrightarrow> m w = (Inr y, w')"
  by (auto simp: mapE_def split: prod.splits sum.splits)

lemma wrapE_Inl: "wrapE c m w = (Inl e, w') \<Longrightarrow> \<exists>e0. m w = (Inl e0, w')"
  by (auto simp: wrapE_def split: prod.splits sum.splits)

lemma attempt_Inr_Inr [simp]: "attempt m w = (Inr (Inr y), w') \<longleftrightarrow> m w = (Inr y, w')"
  by (auto simp: attempt_def split: prod.splits sum.splits if_splits)

lemma attempt_Inr_Inl [simp]: "attempt m w = (Inr (Inl e), w') \<longleftrightarrow> m w = (Inl e, w') \<and> \<not> is_panic e"
  by (auto simp: attempt_def split: prod.splits sum.splits if_splits)

lemma check_Inr [simp]: "check b e w = (Inr y, w') \<longleftrightarrow> b \<and> w' = w"
  by (auto simp: check_def)

lemma orPanic_Inr [simp]: "orPanic msg x w = (Inr y, w') \<longleftrightarrow> x = Some y \<and> w' = w"
  by (auto simp: orPanic_def split: option.splits)

lemma emit_Inr [simp]: "emit e w = (Inr y, w') \<longleftrightarrow> w' = w\<lparr>out := out w @ [e]\<rparr>"
  by (auto simp: emit_def)

lemma get_db_Inr [simp]: "get_db w = (Inr d, w') \<longleftrightarrow> d = db w \<and> w' = w"
  by (auto simp: get_db_def)

lemma put_db_Inr [simp]: "put_db d w = (Inr y, w') \<longleftrightarrow> w' = w\<lparr>db := d\<rparr>"
  by (auto simp: put_db_def)

lemma time_now_Inr [simp]: "time_now w = (Inr t, w') \<longleftrightarrow> t = now w \<and> w' = w"
  by (auto simp: time_now_def)

lemma nextval_Inr [simp]:
  "nextval t w = (Inr i, w') \<longleftrightarrow> i = seqs w t \<and> w' = w\<lparr>seqs := (seqs w)(t := seqs w t + 1)\<rparr>"
  by (auto simp: nextval_def)

lemma to_numeric_Inr [simp]: "to_numeric s w = (Inr n, w') \<longleftrightarrow> numeric_in s = Some n \<and> w' = w"
  by (auto simp: to_numeric_def split: option.splits)

lemma sql_Inr: "sql q w = (Inr y, w') \<Longrightarrow> \<exists>fs. q (w\<lparr>faults := fs\<rparr>) = (Inr y, w')"
proof (cases "faults w")
  case Nil
  assume "sql q w = (Inr y, w')"
  with Nil have "q w = (Inr y, w')" by (simp add: sql_def)
  moreover have "w\<lparr>faults := []\<rparr> = w" using Nil by (cases w) simp
  ultimately show ?thesis by (metis (full_types))
next
  case (Cons a fs)
  assume "sql q w = (Inr y, w')"
  with Cons show ?thesis by (auto simp: sql_def split: option.splits)
qed

lemma sql_no_fault [simp]: "faults w = [] \<Longrightarrow> sql q w = q w"
  by (simp add: sql_def)

lemmas inv_simps = bindE_Inr

text \<open>A read: one statement, then a look at its answer.\<close>

lemma query_Inr:
  assumes "bindE (wrapE c (sql (bindE get_db (\<lambda>d. ret (f d))))) k w = (Inr y, w')"
  shows "\<exists>fs. k (f (db w)) (w\<lparr>faults := fs\<rparr>) = (Inr y, w')"
proof -
  from assms obtain v w1 where q: "sql (bindE get_db (\<lambda>d. ret (f d))) w = (Inr v, w1)" and k: "k v w1 = (Inr y, w')"
    by (auto simp: bindE_Inr)
  from sql_Inr [OF q] obtain fs where "f (db w) = v" "w1 = w\<lparr>faults := fs\<rparr>"
    by (auto simp: bindE_def get_db_def ret_def)
  with k show ?thesis by blast
qed

lemma query_Inl:
  assumes "bindE (wrapE c (sql (bindE get_db (\<lambda>d. ret (f d))))) k w = (Inl e, w')"
  shows "(\<exists>m. e = Wrapf c (DBError m)) \<or> (\<exists>fs. k (f (db w)) (w\<lparr>faults := fs\<rparr>) = (Inl e, w'))"
proof (cases "sql (bindE get_db (\<lambda>d. ret (f d))) w")
  case (Pair q w1)
  show ?thesis
  proof (cases q)
    case (Inl x)
    with Pair assms show ?thesis
      by (auto simp: bindE_def wrapE_def sql_def get_db_def ret_def is_panic_def split: list.splits option.splits if_splits)
  next
    case (Inr v)
    with Pair assms have "k v w1 = (Inl e, w')" by (simp add: bindE_def wrapE_def)
    moreover from sql_Inr Pair Inr obtain fs where "f (db w) = v" "w1 = w\<lparr>faults := fs\<rparr>"
      by (fastforce simp: bindE_def get_db_def ret_def)
    ultimately show ?thesis by blast
  qed
qed

lemma query_eval:
  "faults w = [] \<Longrightarrow> bindE (wrapE c (sql (bindE get_db (\<lambda>d. ret (f d))))) k w = k (f (db w)) w"
  by (simp add: bindE_def wrapE_def get_db_def ret_def)

subsection \<open>Evaluation without faults\<close>

lemma ret_eval [simp]: "bindE (ret x) f = f x"
  by (simp add: bindE_def ret_def)

lemma raise_eval [simp]: "bindE (raise e) f = raise e"
  by (simp add: bindE_def raise_def fun_eq_iff)

lemma bindE_cong_Inr: "m w = (Inr x, w1) \<Longrightarrow> bindE m f w = f x w1"
  by (simp add: bindE_def)

lemma bindE_cong_Inl: "m w = (Inl e, w1) \<Longrightarrow> bindE m f w = (Inl e, w1)"
  by (simp add: bindE_def)

section \<open>Faults do not change results\<close>

text \<open>
  A computation is oblivious to faults when a run that succeeds in spite of them does what the run
  without faults does. All straight-line code is; code that looks at an error (\<open>attempt\<close>) has to be
  checked.
\<close>

definition oblivious :: "'a io \<Rightarrow> bool" where
  "oblivious m \<longleftrightarrow> (\<forall>w x w'. m w = (Inr x, w') \<longrightarrow> m (w\<lparr>faults := []\<rparr>) = (Inr x, w'\<lparr>faults := []\<rparr>))"

lemma obliviousD: "oblivious m \<Longrightarrow> m w = (Inr x, w') \<Longrightarrow> m (w\<lparr>faults := []\<rparr>) = (Inr x, w'\<lparr>faults := []\<rparr>)"
  by (simp add: oblivious_def)

lemma oblivious_ret [intro, simp]: "oblivious (ret x)"
  and oblivious_raise [intro, simp]: "oblivious (raise e)"
  and oblivious_check [intro, simp]: "oblivious (check b e)"
  and oblivious_get_db [intro, simp]: "oblivious get_db"
  and oblivious_put_db [intro, simp]: "oblivious (put_db d)"
  and oblivious_time_now [intro, simp]: "oblivious time_now"
  and oblivious_emit [intro, simp]: "oblivious (emit ev)"
  and oblivious_nextval [intro, simp]: "oblivious (nextval t)"
  by (auto simp: oblivious_def monad_defs)

lemma oblivious_orPanic [intro, simp]: "oblivious (orPanic msg x)"
  and oblivious_to_numeric [intro, simp]: "oblivious (to_numeric s)"
  by (auto simp: orPanic_def to_numeric_def split: option.splits)

lemma oblivious_bindE [intro]: "oblivious m \<Longrightarrow> (\<And>x. oblivious (f x)) \<Longrightarrow> oblivious (bindE m f)"
  unfolding oblivious_def by (fastforce simp: bindE_Inr)

lemma oblivious_wrapE [intro]: "oblivious m \<Longrightarrow> oblivious (wrapE c m)"
  and oblivious_mapE [intro]: "oblivious m \<Longrightarrow> oblivious (mapE g m)"
  by (simp_all add: oblivious_def)

lemma oblivious_if [intro]: "oblivious a \<Longrightarrow> oblivious b \<Longrightarrow> oblivious (if c then a else b)"
  by simp

lemma oblivious_world_if [intro]:
  "oblivious a \<Longrightarrow> oblivious b \<Longrightarrow> (\<And>w fs. c (w\<lparr>faults := fs\<rparr>) = c w) \<Longrightarrow>
     oblivious (\<lambda>w. if c w then a w else b w)"
  by (simp add: oblivious_def)

lemma oblivious_cases [intro]:
  "(\<And>a b. oblivious (f a b)) \<Longrightarrow> oblivious (case p of (a, b) \<Rightarrow> f a b)"
  "oblivious n \<Longrightarrow> (\<And>a. oblivious (g a)) \<Longrightarrow> oblivious (case q of None \<Rightarrow> n | Some a \<Rightarrow> g a)"
  "(\<And>e. oblivious (h e)) \<Longrightarrow> (\<And>a. oblivious (k a)) \<Longrightarrow> oblivious (case r of Inl e \<Rightarrow> h e | Inr a \<Rightarrow> k a)"
  by (auto split: prod.split option.split sum.split)

lemma oblivious_Let [intro]: "(\<And>x. oblivious (f x)) \<Longrightarrow> oblivious (Let t f)"
  by (simp add: Let_def)

lemma oblivious_sql [intro]: "oblivious q \<Longrightarrow> oblivious (sql q)"
  unfolding oblivious_def by (fastforce dest: sql_Inr)

section \<open>Computations on the tables only\<close>

text \<open>Nothing but the tables, the sequences and the coming faults changes: nothing is sent, nothing queued.\<close>

definition db_only :: "'a io \<Rightarrow> bool" where
  "db_only m \<longleftrightarrow> (\<forall>w r w'. m w = (r, w') \<longrightarrow>
     out w' = out w \<and> queue w' = queue w \<and> now w' = now w \<and> queueCap w' = queueCap w
     \<and> kafkaProducer w' = kafkaProducer w \<and> cacheClient w' = cacheClient w)"

lemma db_onlyD: "db_only m \<Longrightarrow> m w = (r, w') \<Longrightarrow>
    out w' = out w \<and> queue w' = queue w \<and> now w' = now w \<and> queueCap w' = queueCap w
     \<and> kafkaProducer w' = kafkaProducer w \<and> cacheClient w' = cacheClient w"
  by (simp add: db_only_def)

lemma db_only_ret [intro, simp]: "db_only (ret x)"
  and db_only_raise [intro, simp]: "db_only (raise e)"
  and db_only_check [intro, simp]: "db_only (check b e)"
  and db_only_get_db [intro, simp]: "db_only get_db"
  and db_only_put_db [intro, simp]: "db_only (put_db d)"
  and db_only_time_now [intro, simp]: "db_only time_now"
  and db_only_nextval [intro, simp]: "db_only (nextval t)"
  by (auto simp: db_only_def monad_defs)

lemma db_only_orPanic [intro, simp]: "db_only (orPanic msg x)"
  and db_only_to_numeric [intro, simp]: "db_only (to_numeric s)"
  by (auto simp: orPanic_def to_numeric_def split: option.splits)

lemma db_only_bindE [intro]: "db_only m \<Longrightarrow> (\<And>x. db_only (f x)) \<Longrightarrow> db_only (bindE m f)"
  unfolding db_only_def bindE_def by (fastforce split: prod.splits sum.splits)

lemma db_only_wrapE [intro]: "db_only m \<Longrightarrow> db_only (wrapE c m)"
  and db_only_attempt [intro]: "db_only m \<Longrightarrow> db_only (attempt m)"
  and db_only_mapE [intro]: "db_only m \<Longrightarrow> db_only (mapE g m)"
  unfolding db_only_def wrapE_def attempt_def mapE_def by (auto split: prod.splits sum.splits if_splits)

lemma db_only_if [intro]: "db_only a \<Longrightarrow> db_only b \<Longrightarrow> db_only (if c then a else b)"
  by simp

lemma db_only_cases [intro]:
  "(\<And>a b. db_only (f a b)) \<Longrightarrow> db_only (case p of (a, b) \<Rightarrow> f a b)"
  "db_only n \<Longrightarrow> (\<And>a. db_only (g a)) \<Longrightarrow> db_only (case q of None \<Rightarrow> n | Some a \<Rightarrow> g a)"
  "(\<And>e. db_only (h e)) \<Longrightarrow> (\<And>a. db_only (k a)) \<Longrightarrow> db_only (case r of Inl e \<Rightarrow> h e | Inr a \<Rightarrow> k a)"
  by (auto split: prod.split option.split sum.split)

lemma db_only_Let [intro]: "(\<And>x. db_only (f x)) \<Longrightarrow> db_only (Let t f)"
  by (simp add: Let_def)

lemma db_only_sql [intro]: "db_only q \<Longrightarrow> db_only (sql q)"
  unfolding db_only_def sql_def by (fastforce split: list.splits option.splits)

lemmas oblivious_rules = oblivious_bindE oblivious_wrapE oblivious_mapE oblivious_sql oblivious_cases oblivious_if oblivious_Let
  oblivious_get_db oblivious_put_db oblivious_ret oblivious_raise oblivious_time_now oblivious_nextval
  oblivious_to_numeric oblivious_check oblivious_orPanic

lemmas db_only_rules = db_only_bindE db_only_wrapE db_only_mapE db_only_sql db_only_cases db_only_if db_only_Let db_only_attempt
  db_only_get_db db_only_put_db db_only_ret db_only_raise db_only_time_now db_only_nextval
  db_only_to_numeric db_only_check db_only_orPanic

section \<open>Transactions\<close>

text \<open>\<^verbatim>\<open>db.BeginTxx\<close> gives the tables to go back to; \<^verbatim>\<open>Commit\<close> may fail, and then nothing is kept.\<close>

definition BeginTxx :: "tables io" where
  "BeginTxx = sql get_db"

definition Rollback :: "tables \<Rightarrow> world \<Rightarrow> world" where
  "Rollback snap w = w\<lparr>db := snap\<rparr>"

definition Commit :: "tables \<Rightarrow> unit io" where
  "Commit snap w = (case sql (ret ()) w of (Inl e, w1) \<Rightarrow> (Inl e, Rollback snap w1) | (Inr x, w1) \<Rightarrow> (Inr x, w1))"

text \<open>The body of a transaction that has begun: rolled back on an error, committed otherwise.\<close>

definition inTx :: "tables \<Rightarrow> 'a io \<Rightarrow> (tables \<Rightarrow> unit io) \<Rightarrow> 'a io" where
  "inTx snap fn commit w = (case fn w of
     (Inl e, w1) \<Rightarrow> (Inl e, Rollback snap w1)
   | (Inr x, w1) \<Rightarrow> bindE (commit snap) (\<lambda>_. ret x) w1)"

text \<open>database/transaction.go. A panic of the body is rolled back and raised again.\<close>

definition WithTransaction :: "'a io \<Rightarrow> 'a io" where
  "WithTransaction fn = bindE (wrapE ''begin transaction'' BeginTxx)
     (\<lambda>snap. inTx snap fn (\<lambda>s. wrapE ''commit transaction'' (Commit s)))"

lemma BeginTxx_Inr: "BeginTxx w = (Inr snap, w1) \<Longrightarrow> snap = db w \<and> (\<exists>fs. w1 = w\<lparr>faults := fs\<rparr>)"
  by (auto simp: BeginTxx_def dest!: sql_Inr)

lemma BeginTxx_Inl: "BeginTxx w = (Inl e, w1) \<Longrightarrow> \<exists>fs. w1 = w\<lparr>faults := fs\<rparr>"
  by (auto simp: BeginTxx_def sql_def get_db_def split: list.splits option.splits)

lemma BeginTxx_no_fault [simp]: "faults w = [] \<Longrightarrow> BeginTxx w = (Inr (db w), w)"
  by (simp add: BeginTxx_def get_db_def)

lemma Commit_Inr: "Commit snap w = (Inr x, w1) \<Longrightarrow> \<exists>fs. w1 = w\<lparr>faults := fs\<rparr>"
  by (auto simp: Commit_def split: prod.splits sum.splits dest!: sql_Inr)

lemma Commit_Inl: "Commit snap w = (Inl e, w1) \<Longrightarrow> db w1 = snap"
  by (auto simp: Commit_def Rollback_def split: prod.splits sum.splits)

lemma Commit_no_fault [simp]: "faults w = [] \<Longrightarrow> Commit snap w = (Inr (), w)"
  by (simp add: Commit_def ret_def)

lemma inTx_Inr:
  assumes "inTx snap fn c w = (Inr x, w')"
  shows "\<exists>w1. fn w = (Inr x, w1) \<and> c snap w1 = (Inr (), w')"
  using assms by (auto simp: inTx_def bindE_Inr split: prod.splits sum.splits)

lemma inTx_Inl:
  assumes "inTx snap fn c w = (Inl e, w')"
  shows "(\<exists>w1. w' = Rollback snap w1) \<or> (\<exists>w1. c snap w1 = (Inl e, w'))"
proof (cases "fn w")
  case (Pair r w1)
  with assms show ?thesis by (cases r) (auto simp: inTx_def bindE_Inl)
qed

lemma db_only_Commit: "db_only (Commit s)"
  by (auto simp: db_only_def Commit_def Rollback_def sql_def ret_def split: list.splits option.splits)

lemma db_only_BeginTxx: "db_only BeginTxx"
  unfolding BeginTxx_def by (intro db_only_rules)

lemma db_only_inTx:
  assumes "db_only fn" and "\<And>s. db_only (c s)"
  shows "db_only (inTx s fn c)"
proof -
  have "db_only (bindE (c s) (\<lambda>_. ret x))" for x :: 'a using assms(2) by (intro db_only_rules)
  with assms(1) show ?thesis
    unfolding db_only_def inTx_def Rollback_def by (fastforce split: prod.splits sum.splits)
qed

text \<open>
  The contract of a transaction runner: an error leaves the tables as they were; a success is a
  success of the body, whose tables are kept; without faults it is what the body is.
\<close>

locale tx_runner =
  fixes run :: "'a io \<Rightarrow> 'a io"
  assumes run_error: "run fn w = (Inl e, w') \<Longrightarrow> db w' = db w"
    and run_ok: "run fn w = (Inr x, w') \<Longrightarrow>
      \<exists>fs fs' w1. fn (w\<lparr>faults := fs\<rparr>) = (Inr x, w1) \<and> w' = w1\<lparr>faults := fs'\<rparr>"
    and run_no_fault: "faults w = [] \<Longrightarrow> fn w = (Inr x, w1) \<Longrightarrow> faults w1 = [] \<Longrightarrow> run fn w = (Inr x, w1)"
    and run_no_fault_error: "faults w = [] \<Longrightarrow> fn w = (Inl e, w1) \<Longrightarrow> run fn w = (Inl e, w1\<lparr>db := db w\<rparr>)"
begin

text \<open>What the body keeps of the tables on success, the transaction keeps in every case.\<close>

lemma run_keeps:
  assumes body: "\<And>v x v'. fn v = (Inr x, v') \<Longrightarrow> db v = db w \<Longrightarrow> P (db v')"
    and start: "P (db w)" and run: "run fn w = (r, w')"
  shows "P (db w')"
proof (cases r)
  case (Inl e)
  then show ?thesis using run run_error [of fn w e w'] start by simp
next
  case (Inr x)
  with run run_ok [of fn w x w'] obtain fs fs' w1 where
    w1: "fn (w\<lparr>faults := fs\<rparr>) = (Inr x, w1)" "w' = w1\<lparr>faults := fs'\<rparr>" by blast
  with body [OF w1(1)] show ?thesis by simp
qed

lemma run_oblivious: "oblivious fn \<Longrightarrow> oblivious (run fn)"
  unfolding oblivious_def using run_ok run_no_fault by fastforce

text \<open>Whatever fails, a transaction does nothing to the tables or all that the run without faults does.\<close>

lemma run_all_or_nothing:
  assumes "oblivious fn" and "run fn w = (r, w')"
  shows "(\<exists>e. r = Inl e) \<and> db w' = db w
       \<or> (\<exists>x. r = Inr x) \<and> run fn (w\<lparr>faults := []\<rparr>) = (r, w'\<lparr>faults := []\<rparr>)"
proof (cases r)
  case (Inl e)
  with assms(2) show ?thesis using run_error [of fn w e w'] by simp
next
  case (Inr x)
  with assms(2) show ?thesis using obliviousD [OF run_oblivious [OF assms(1)], of w x w'] by simp
qed

end

text \<open>The shape all three runners of the program share meets the contract.\<close>

lemma tx_runner_shape:
  assumes c_ok: "\<And>s w x w1. c s w = (Inr x, w1) \<Longrightarrow> \<exists>fs. w1 = w\<lparr>faults := fs\<rparr>"
    and c_err: "\<And>s w e w1. c s w = (Inl e, w1) \<Longrightarrow> db w1 = s"
    and c_nf: "\<And>s w. faults w = [] \<Longrightarrow> c s w = (Inr (), w)"
  shows "tx_runner (\<lambda>fn. bindE (wrapE ctx BeginTxx) (\<lambda>snap. inTx snap fn c))"
proof (unfold_locales, goal_cases)
  case (1 fn w e w')
  then consider "wrapE ctx BeginTxx w = (Inl e, w')"
    | snap w1 where "BeginTxx w = (Inr snap, w1)" "inTx snap fn c w1 = (Inl e, w')"
    by (auto simp: bindE_Inl)
  then show ?case
  proof cases
    case 1
    then show ?thesis by (auto dest!: wrapE_Inl BeginTxx_Inl)
  next
    case 2
    then show ?thesis by (auto simp: Rollback_def dest!: inTx_Inl BeginTxx_Inr c_err)
  qed
next
  case (2 fn w x w')
  then obtain snap w1 where b: "BeginTxx w = (Inr snap, w1)" and t: "inTx snap fn c w1 = (Inr x, w')"
    by (auto simp: bindE_Inr)
  from inTx_Inr [OF t] obtain w2 where f: "fn w1 = (Inr x, w2)" and c: "c snap w2 = (Inr (), w')" by blast
  from BeginTxx_Inr [OF b] obtain fs where "w1 = w\<lparr>faults := fs\<rparr>" by blast
  moreover from c_ok [OF c] obtain fs' where "w' = w2\<lparr>faults := fs'\<rparr>" by blast
  ultimately show ?case using f by blast
next
  case (3 w fn x w1)
  then show ?case by (simp add: bindE_def wrapE_def inTx_def c_nf ret_def)
next
  case (4 w fn e w1)
  then show ?case by (simp add: bindE_def wrapE_def inTx_def Rollback_def)
qed

interpretation with_transaction: tx_runner WithTransaction
proof -
  have "tx_runner (\<lambda>fn :: 'a io. bindE (wrapE ''begin transaction'' BeginTxx)
      (\<lambda>snap. inTx snap fn (\<lambda>s. wrapE ''commit transaction'' (Commit s))))"
    by (rule tx_runner_shape)
      (auto simp: wrapE_def split: prod.splits sum.splits dest: Commit_Inr Commit_Inl)
  then show "tx_runner (WithTransaction :: 'a io \<Rightarrow> 'a io)"
    unfolding WithTransaction_def .
qed

end
