(* ===== verification/Pagination.thy ===== *)
theory Pagination
  imports Database
begin

text \<open>
  Pages of a listing. The services clamp the page number and size they are given and compute an
  offset and a page count from them in 64-bit arithmetic (pkg/pagination/pagination.go, and the
  same lines in every \<^verbatim>\<open>List...\<close> of the services); internal/shared/utils/pagination.go has its own
  defaults. The repositories pass limit and offset on to SQL, which rejects negative ones.
\<close>

section \<open>pkg/pagination\<close>

record Params =
  Page :: int
  PageSize :: int

definition clampPage :: "int \<Rightarrow> int" where
  "clampPage page = (if page < 1 then 1 else page)"

definition clampPageSize :: "int \<Rightarrow> int" where
  "clampPageSize pageSize = (if pageSize < 1 \<or> pageSize > 100 then 20 else pageSize)"

definition pageOffset :: "int \<Rightarrow> int \<Rightarrow> int" where
  "pageOffset page pageSize = wrap64 (wrap64 (page - 1) * pageSize)"

text \<open>The method also writes the clamped values back to its receiver.\<close>

definition GetOffset :: "Params \<Rightarrow> int \<times> Params" where
  "GetOffset p = (let p' = \<lparr>Page = clampPage (Page p), PageSize = clampPageSize (PageSize p)\<rparr>
     in (pageOffset (Page p') (PageSize p'), p'))"

record Metadata =
  m_Total :: int
  m_Page :: int
  m_PageSize :: int
  m_TotalPages :: int

definition totalPages :: "int \<Rightarrow> int \<Rightarrow> int" where
  "totalPages count pageSize = (let n = go_div (wrap64 (wrap64 (count + pageSize) - 1)) pageSize in
     if n = 0 then 1 else n)"

definition NewMetadata :: "int \<Rightarrow> int \<Rightarrow> int \<Rightarrow> Metadata" where
  "NewMetadata count page pageSize = (let ps = (if pageSize < 1 then 20 else pageSize) in
     \<lparr>m_Total = count, m_Page = page, m_PageSize = ps, m_TotalPages = totalPages count ps\<rparr>)"

section \<open>internal/shared/utils\<close>

definition DefaultPage :: int where "DefaultPage = 1"
definition DefaultPageSize :: int where "DefaultPageSize = 10"
definition MaxPageSize :: int where "MaxPageSize = 100"

definition SetDefaults :: "Params \<Rightarrow> Params" where
  "SetDefaults p = (let pg = (if Page p = 0 then DefaultPage else Page p);
       ps = (if PageSize p = 0 then DefaultPageSize else PageSize p)
     in \<lparr>Page = pg, PageSize = (if ps > MaxPageSize then MaxPageSize else ps)\<rparr>)"

definition utils_GetOffset :: "Params \<Rightarrow> int" where
  "utils_GetOffset p = wrap64 (wrap64 (Page p - 1) * PageSize p)"

definition GetLimit :: "Params \<Rightarrow> int" where
  "GetLimit p = PageSize p"

section \<open>LIMIT and OFFSET\<close>

definition limit_offset :: "int \<Rightarrow> int \<Rightarrow> 'r list \<Rightarrow> 'r list io" where
  "limit_offset lmt off rs =
     (if lmt < 0 then raise (DBError ''pq: LIMIT must not be negative'')
      else if off < 0 then raise (DBError ''pq: OFFSET must not be negative'')
      else ret (take (nat lmt) (drop (nat off) rs)))"

section \<open>Properties\<close>

lemma clampPageSize_bounds: "1 \<le> clampPageSize s \<and> clampPageSize s \<le> 100"
  by (simp add: clampPageSize_def)

lemma clampPage_pos: "1 \<le> clampPage p"
  by (simp add: clampPage_def)

lemma pageOffset_exact:
  assumes "1 \<le> page" and "1 \<le> ps" and "(page - 1) * ps < 2 ^ 63"
  shows "pageOffset page ps = (page - 1) * ps"
proof -
  have "page - 1 \<le> (page - 1) * ps" using assms(1,2) by (simp add: mult_le_cancel_left1)
  moreover have "0 \<le> (page - 1) * ps" using assms(1,2) by (intro mult_nonneg_nonneg) auto
  ultimately have "int64_range (page - 1)" "int64_range ((page - 1) * ps)"
    using assms by (auto simp: int64_range_def)
  then show ?thesis by (simp add: pageOffset_def)
qed

lemma totalPages_ceiling:
  assumes "0 < count" and "1 \<le> ps" and "ps \<le> 100" and "count < 2 ^ 62"
  shows "(totalPages count ps - 1) * ps < count" and "count \<le> totalPages count ps * ps"
    and "0 < totalPages count ps"
proof -
  have "int64_range (count + ps)" "int64_range (count + ps - 1)"
    using assms by (auto simp: int64_range_def)
  then have "go_div (wrap64 (wrap64 (count + ps) - 1)) ps = (count + ps - 1) div ps"
    using assms by (simp add: go_div_nonneg)
  moreover have "1 \<le> (count + ps - 1) div ps"
    using assms zdiv_mono1 [of ps "count + ps - 1" ps] by simp
  ultimately have t: "totalPages count ps = (count + ps - 1) div ps" by (simp add: totalPages_def)
  have d: "(count + ps - 1) div ps * ps + (count + ps - 1) mod ps = count + ps - 1" by simp
  have m: "0 \<le> (count + ps - 1) mod ps" "(count + ps - 1) mod ps < ps" using assms by auto
  show "(totalPages count ps - 1) * ps < count"
    unfolding t left_diff_distrib using d m by linarith
  show "count \<le> totalPages count ps * ps"
    unfolding t using d m by linarith
  show "0 < totalPages count ps"
    using t \<open>1 \<le> (count + ps - 1) div ps\<close> by simp
qed

text \<open>Taking the pages of a list in turn gives the list.\<close>

lemma pages_concat:
  "concat (map (\<lambda>k. take s (drop (k * s) xs)) [0..<n]) = take (n * s) xs"
proof (induction n)
  case (Suc n)
  have "take (n * s) xs @ take s (drop (n * s) xs) = take (n * s + s) xs"
    by (rule take_add [symmetric])
  with Suc show ?case by (simp add: add.commute)
qed simp

end
