(* ===== verification/Schema.thy ===== *)
theory Schema
  imports Database
begin

text \<open>
  What the schema of the migrations promises of the tables: primary keys, unique constraints, the
  foreign keys of all tables, portfolios and audit log included, \<^verbatim>\<open>CHECK\<close>s, the generated column
  \<^verbatim>\<open>remaining_quantity\<close> and the range of \<^verbatim>\<open>NUMERIC(20,8)\<close>, and that every key is below the sequence it
  was drawn from (\<open>schema_ok\<close>). The number of a row of portfolios, which nothing uses, is no field. The locale \<open>table_inv\<close>
  says what makes a predicate on the tables an invariant worth preserving, whatever fails on the
  way: the rules of \<open>preserves\<close> for the computations of theory Database, transactions included,
  are proved in it once.
\<close>

section \<open>Constraints\<close>

definition users_ok :: "tables \<Rightarrow> (string \<Rightarrow> int) \<Rightarrow> bool" where
  "users_ok d s \<longleftrightarrow> distinct (map u_ID (users d)) \<and> distinct (map u_Email (users d))
     \<and> (\<forall>u \<in> set (users d). u_ID u < s ''users'')"

definition wallets_ok :: "tables \<Rightarrow> (string \<Rightarrow> int) \<Rightarrow> bool" where
  "wallets_ok d s \<longleftrightarrow> distinct (map w_ID (wallets d)) \<and> distinct (map w_UserID (wallets d))
     \<and> (\<forall>r \<in> set (wallets d). w_ID r < s ''wallets'' \<and> w_UserID r \<in> u_ID ` set (users d)
          \<and> 0 \<le> w_Balance r \<and> numeric_fits (w_Balance r))"

definition transactions_ok :: "tables \<Rightarrow> (string \<Rightarrow> int) \<Rightarrow> bool" where
  "transactions_ok d s \<longleftrightarrow> distinct (map x_ID (wallet_transactions d))
     \<and> (\<forall>r \<in> set (wallet_transactions d). x_ID r < s ''wallet_transactions''
          \<and> x_WalletID r \<in> w_ID ` set (wallets d) \<and> numeric_fits (x_Amount r))"

text \<open>\<^verbatim>\<open>CHECK (price >= 0)\<close>: \<^verbatim>\<open>NaN\<close> is greater than every number.\<close>

definition price_ok :: "price \<Rightarrow> bool" where
  "price_ok p \<longleftrightarrow> (case p of None \<Rightarrow> True | Some n \<Rightarrow> 0 \<le> n \<and> numeric_fits n)"

definition assets_ok :: "tables \<Rightarrow> (string \<Rightarrow> int) \<Rightarrow> bool" where
  "assets_ok d s \<longleftrightarrow> distinct (map a_ID (assets d)) \<and> distinct (map a_Symbol (assets d))
     \<and> (\<forall>r \<in> set (assets d). a_ID r < s ''assets'' \<and> price_ok (a_Price r) \<and> price_ok (a_Quantity r)
          \<and> a_BrokerID r \<in> u_ID ` set (users d))"

definition order_row_ok :: "numeric order \<Rightarrow> bool" where
  "order_row_ok r \<longleftrightarrow> 0 < o_Price r \<and> numeric_fits (o_Price r) \<and> 0 < o_Quantity r \<and> numeric_fits (o_Quantity r)
     \<and> o_FilledQuantity r \<le> o_Quantity r \<and> numeric_fits (o_FilledQuantity r)
     \<and> o_RemainingQuantity r = o_Quantity r - o_FilledQuantity r"

text \<open>The partial unique index \<^verbatim>\<open>idx_orders_idempotency_key\<close>.\<close>

definition idempotency_keys :: "numeric order list \<Rightarrow> (int \<times> string option) list" where
  "idempotency_keys rs = map (\<lambda>r. (o_UserID r, o_IdempotencyKey r)) (filter (\<lambda>r. o_IdempotencyKey r \<noteq> None) rs)"

definition orders_ok :: "tables \<Rightarrow> (string \<Rightarrow> int) \<Rightarrow> bool" where
  "orders_ok d s \<longleftrightarrow> distinct (map o_ID (orders d)) \<and> distinct (idempotency_keys (orders d))
     \<and> (\<forall>r \<in> set (orders d). o_ID r < s ''orders'' \<and> o_UserID r \<in> u_ID ` set (users d)
          \<and> o_AssetID r \<in> a_ID ` set (assets d) \<and> order_row_ok r)"

definition trades_ok :: "tables \<Rightarrow> (string \<Rightarrow> int) \<Rightarrow> bool" where
  "trades_ok d s \<longleftrightarrow> distinct (map t_ID (trades d))
     \<and> (\<forall>r \<in> set (trades d). t_ID r < s ''trades'' \<and> t_BuyOrderID r \<in> o_ID ` set (orders d)
          \<and> t_SellOrderID r \<in> o_ID ` set (orders d) \<and> t_AssetID r \<in> a_ID ` set (assets d)
          \<and> t_BuyerID r \<in> u_ID ` set (users d) \<and> t_SellerID r \<in> u_ID ` set (users d)
          \<and> 0 < t_Price r \<and> numeric_fits (t_Price r) \<and> 0 < t_Quantity r \<and> numeric_fits (t_Quantity r))"

definition portfolios_ok :: "tables \<Rightarrow> bool" where
  "portfolios_ok d \<longleftrightarrow> distinct (map (\<lambda>h. (h_UserID h, h_AssetID h)) (portfolios d))
     \<and> (\<forall>h \<in> set (portfolios d). 0 \<le> h_Quantity h \<and> numeric_fits (h_Quantity h)
          \<and> 0 \<le> h_AverageBuyPrice h \<and> numeric_fits (h_AverageBuyPrice h))"

definition portfolio_refs :: "tables \<Rightarrow> bool" where
  "portfolio_refs d \<longleftrightarrow> (\<forall>h \<in> set (portfolios d). h_UserID h \<in> u_ID ` set (users d) \<and> h_AssetID h \<in> a_ID ` set (assets d))"

definition audit_ok :: "tables \<Rightarrow> (string \<Rightarrow> int) \<Rightarrow> bool" where
  "audit_ok d s \<longleftrightarrow> distinct (map l_ID (audit_logs d))
     \<and> (\<forall>l \<in> set (audit_logs d). l_ID l < s ''audit_logs''
          \<and> set_option (l_UserID l) \<subseteq> u_ID ` set (users d))"

definition schema_ok :: "tables \<Rightarrow> (string \<Rightarrow> int) \<Rightarrow> bool" where
  "schema_ok d s \<longleftrightarrow> users_ok d s \<and> wallets_ok d s \<and> transactions_ok d s \<and> assets_ok d s \<and> orders_ok d s
     \<and> trades_ok d s \<and> portfolios_ok d \<and> portfolio_refs d \<and> audit_ok d s"

lemmas schema_defs = schema_ok_def users_ok_def wallets_ok_def transactions_ok_def assets_ok_def orders_ok_def
  trades_ok_def portfolios_ok_def portfolio_refs_def audit_ok_def price_ok_def

section \<open>Preserving an invariant of the tables\<close>

definition seqs_le :: "(string \<Rightarrow> int) \<Rightarrow> (string \<Rightarrow> int) \<Rightarrow> bool" where
  "seqs_le s s' \<longleftrightarrow> (\<forall>t. s t \<le> s' t)"

definition preserves :: "(tables \<Rightarrow> (string \<Rightarrow> int) \<Rightarrow> bool) \<Rightarrow> 'a io \<Rightarrow> bool" where
  "preserves I m \<longleftrightarrow> (\<forall>w r w'. m w = (r, w') \<longrightarrow>
     seqs_le (seqs w) (seqs w') \<and> (I (db w) (seqs w) \<longrightarrow> I (db w') (seqs w')))"

lemma seqs_le_refl [simp]: "seqs_le s s"
  by (simp add: seqs_le_def)

lemma seqs_le_trans: "seqs_le s t \<Longrightarrow> seqs_le t u \<Longrightarrow> seqs_le s u"
  unfolding seqs_le_def by (meson order_trans)

lemma seqs_le_next [simp]: "seqs_le s (s(t := s t + 1))"
  by (simp add: seqs_le_def)

lemma preservesD:
  "preserves I m \<Longrightarrow> m w = (r, w') \<Longrightarrow> I (db w) (seqs w) \<Longrightarrow> I (db w') (seqs w')"
  by (simp add: preserves_def)

lemma preserves_seqs: "preserves I m \<Longrightarrow> m w = (r, w') \<Longrightarrow> seqs_le (seqs w) (seqs w')"
  by (simp add: preserves_def)

lemma preserves_ret [intro, simp]: "preserves I (ret x)"
  and preserves_raise [intro, simp]: "preserves I (raise e)"
  and preserves_check [intro, simp]: "preserves I (check b e)"
  and preserves_get_db [intro, simp]: "preserves I get_db"
  and preserves_time_now [intro, simp]: "preserves I time_now"
  and preserves_emit [intro, simp]: "preserves I (emit ev)"
  by (auto simp: preserves_def monad_defs)

lemma preserves_orPanic [intro, simp]: "preserves I (orPanic msg x)"
  and preserves_to_numeric [intro, simp]: "preserves I (to_numeric s)"
  by (auto simp: orPanic_def to_numeric_def split: option.splits)

lemma preserves_bindE [intro]:
  assumes m: "preserves I m" and f: "\<And>x. preserves I (f x)"
  shows "preserves I (bindE m f)"
  unfolding preserves_def
proof (intro allI impI)
  fix w r w'
  assume run: "bindE m f w = (r, w')"
  obtain q w1 where q: "m w = (q, w1)" by fastforce
  show "seqs_le (seqs w) (seqs w') \<and> (I (db w) (seqs w) \<longrightarrow> I (db w') (seqs w'))"
  proof (cases q)
    case (Inl e)
    with run q have "w' = w1" by (simp add: bindE_def)
    with m q show ?thesis by (simp add: preserves_def)
  next
    case (Inr x)
    with run q have "f x w1 = (r, w')" by (simp add: bindE_def)
    with f [of x] m q show ?thesis unfolding preserves_def by (meson seqs_le_trans)
  qed
qed

lemma preserves_wrapE [intro]: "preserves I m \<Longrightarrow> preserves I (wrapE c m)"
  and preserves_mapE [intro]: "preserves I m \<Longrightarrow> preserves I (mapE g m)"
  and preserves_attempt [intro]: "preserves I m \<Longrightarrow> preserves I (attempt m)"
  unfolding preserves_def wrapE_def attempt_def mapE_def
  by (auto split: prod.splits sum.splits if_splits)

lemma preserves_if [intro]: "preserves I a \<Longrightarrow> preserves I b \<Longrightarrow> preserves I (if c then a else b)"
  by simp

lemma preserves_world_if [intro]:
  "preserves I a \<Longrightarrow> preserves I b \<Longrightarrow> preserves I (\<lambda>w. if c w then a w else b w)"
  by (simp add: preserves_def)

lemma preserves_sql [intro]: "preserves I q \<Longrightarrow> preserves I (sql q)"
  unfolding preserves_def sql_def by (fastforce split: list.splits option.splits)

lemma preserves_cases [intro]:
  "(\<And>a b. preserves I (f a b)) \<Longrightarrow> preserves I (case p of (a, b) \<Rightarrow> f a b)"
  "preserves I n \<Longrightarrow> (\<And>a. preserves I (g a)) \<Longrightarrow> preserves I (case q of None \<Rightarrow> n | Some a \<Rightarrow> g a)"
  "(\<And>e. preserves I (h e)) \<Longrightarrow> (\<And>a. preserves I (k a)) \<Longrightarrow> preserves I (case r of Inl e \<Rightarrow> h e | Inr a \<Rightarrow> k a)"
  by (auto split: prod.split option.split sum.split)

lemma preserves_Let [intro]: "(\<And>x. preserves I (f x)) \<Longrightarrow> preserves I (Let t f)"
  by (simp add: Let_def)

lemmas preserves_rules = preserves_bindE preserves_wrapE preserves_mapE preserves_sql preserves_cases preserves_if
  preserves_world_if preserves_Let preserves_attempt preserves_get_db preserves_ret preserves_raise preserves_time_now
  preserves_to_numeric preserves_check preserves_orPanic preserves_emit

text \<open>
  An invariant: a predicate on the tables and the sequences that does not mind keys being drawn
  and not used. Then a transaction preserves it as soon as its body does, committed or not.
\<close>

locale table_inv =
  fixes I :: "tables \<Rightarrow> (string \<Rightarrow> int) \<Rightarrow> bool"
  assumes mono: "I d s \<Longrightarrow> seqs_le s s' \<Longrightarrow> I d s'"
begin

lemma preserves_nextval: "preserves I (nextval t)"
  by (auto simp: preserves_def nextval_def intro: mono)

lemma preserves_BeginTxx: "preserves I BeginTxx"
  by (auto simp: BeginTxx_def)

lemma preserves_inTx:
  assumes body: "preserves I fn"
    and commit: "\<And>s v r v'. c s v = (r, v') \<Longrightarrow> seqs v' = seqs v \<and> (db v' = db v \<or> db v' = s)"
    and run: "inTx (db w) fn c w = (r, w')"
  shows "seqs_le (seqs w) (seqs w') \<and> (I (db w) (seqs w) \<longrightarrow> I (db w') (seqs w'))"
proof -
  obtain q w1 where q: "fn w = (q, w1)" by fastforce
  have le: "seqs_le (seqs w) (seqs w1)" using preserves_seqs [OF body q] .
  have i: "I (db w) (seqs w) \<Longrightarrow> I (db w1) (seqs w1)" using preservesD [OF body q] .
  show ?thesis
  proof (cases q)
    case (Inl e)
    with run q have "w' = Rollback (db w) w1" by (simp add: inTx_def)
    then show ?thesis using le by (auto simp: Rollback_def intro: mono)
  next
    case (Inr x)
    obtain cr w2 where c: "c (db w) w1 = (cr, w2)" by fastforce
    with run q Inr have "w' = w2"
      by (cases cr) (auto simp: inTx_def bindE_def ret_def)
    with commit [OF c] show ?thesis using le i by (auto intro: mono)
  qed
qed

text \<open>The shape of the program's transaction runners.\<close>

lemma preserves_runner:
  assumes body: "preserves I fn"
    and commit: "\<And>s v r v'. c s v = (r, v') \<Longrightarrow> seqs v' = seqs v \<and> (db v' = db v \<or> db v' = s)"
  shows "preserves I (bindE (wrapE ctx BeginTxx) (\<lambda>snap. inTx snap fn c))"
  unfolding preserves_def
proof (intro allI impI)
  fix w r w'
  assume run: "bindE (wrapE ctx BeginTxx) (\<lambda>snap. inTx snap fn c) w = (r, w')"
  show "seqs_le (seqs w) (seqs w') \<and> (I (db w) (seqs w) \<longrightarrow> I (db w') (seqs w'))"
  proof (cases "BeginTxx w")
    case (Pair q w1)
    show ?thesis
    proof (cases q)
      case (Inl e)
      with run Pair have "w1 = w'" by (auto simp: bindE_def wrapE_def split: if_splits)
      with BeginTxx_Inl [of w e w1] Pair Inl show ?thesis by auto
    next
      case (Inr snap)
      with BeginTxx_Inr [of w snap w1] Pair obtain fs where w1: "snap = db w1" "w1 = w\<lparr>faults := fs\<rparr>" by auto
      with run Pair Inr have "inTx (db w1) fn c w1 = (r, w')" by (simp add: bindE_def wrapE_def)
      from preserves_inTx [OF body commit this] show ?thesis using w1(2) by simp
    qed
  qed
qed

end

lemma Commit_frame: "Commit s v = (r, v') \<Longrightarrow> seqs v' = seqs v \<and> (db v' = db v \<or> db v' = s)"
  by (auto simp: Commit_def sql_def ret_def Rollback_def split: list.splits option.splits)

lemma seqs_le_less: "seqs_le s s' \<Longrightarrow> i < s t \<Longrightarrow> i < s' t"
  unfolding seqs_le_def by (meson order_less_le_trans)

lemma schema_mono:
  assumes "seqs_le s s'"
  shows "users_ok d s \<Longrightarrow> users_ok d s'" "wallets_ok d s \<Longrightarrow> wallets_ok d s'"
    "transactions_ok d s \<Longrightarrow> transactions_ok d s'" "assets_ok d s \<Longrightarrow> assets_ok d s'"
    "orders_ok d s \<Longrightarrow> orders_ok d s'" "trades_ok d s \<Longrightarrow> trades_ok d s'" "audit_ok d s \<Longrightarrow> audit_ok d s'"
  by (simp_all add: schema_defs seqs_le_less [OF assms])

interpretation schema: table_inv schema_ok
  by unfold_locales (simp add: schema_ok_def schema_mono)

end
