(* ===== verification/Example.thy ===== *)
theory Example
  imports Schema
begin

text \<open>
  A small market, on which the theorems of the development are instantiated: two traders, one with
  1000 USD and one who holds 5 pieces of the only asset; an open sell order of 5 at 10 and an open
  buy order of 3 at 12.
\<close>

definition unit8 :: numeric where "unit8 = 100000000"

definition ex_user :: "int \<Rightarrow> user" where
  "ex_user i = \<lparr>u_ID = i, u_Email = show_int i @ ''@x'', u_PasswordHash = ''h'', u_Role = ''trader'',
     u_Status = ''ACTIVE'', u_CreatedAt = 0, u_UpdatedAt = 0, u_DeletedAt = None\<rparr>"

definition ex_wallet :: "int \<Rightarrow> numeric \<Rightarrow> numeric wallet" where
  "ex_wallet i b = \<lparr>w_ID = i, w_UserID = i, w_Balance = b, w_Currency = ''USD'', w_Version = 1,
     w_CreatedAt = 0, w_UpdatedAt = 0\<rparr>"

definition ex_order :: "int \<Rightarrow> int \<Rightarrow> string \<Rightarrow> numeric \<Rightarrow> numeric \<Rightarrow> numeric order" where
  "ex_order i u side price qty = \<lparr>o_ID = i, o_UserID = u, o_AssetID = 1, o_Side = side, o_Type = ''LIMIT'',
     o_Price = price, o_Quantity = qty, o_FilledQuantity = 0, o_RemainingQuantity = qty, o_Status = ''PENDING'',
     o_IdempotencyKey = None, o_CreatedAt = i, o_UpdatedAt = i\<rparr>"

definition ex_tables :: tables where
  "ex_tables = \<lparr>users = [ex_user 1, ex_user 2], wallets = [ex_wallet 1 (1000 * unit8), ex_wallet 2 0],
     wallet_transactions = [\<lparr>x_ID = 1, x_WalletID = 1, x_Amount = 1000 * unit8, x_TransactionType = ''DEPOSIT'',
       x_Status = ''COMPLETED'', x_ReferenceID = None, x_Description = None, x_CreatedAt = 0\<rparr>],
     assets = [\<lparr>a_ID = 1, a_BrokerID = 2, a_Symbol = ''ACME'', a_Name = ''Acme'', a_Description = None,
       a_Price = Some (10 * unit8), a_Quantity = Some (5 * unit8), a_Status = ''ACTIVE'', a_CreatedAt = 0, a_UpdatedAt = 0\<rparr>],
     orders = [ex_order 1 2 ''SELL'' (10 * unit8) (5 * unit8), ex_order 2 1 ''BUY'' (12 * unit8) (3 * unit8)],
     trades = [],
     portfolios = [\<lparr>h_UserID = 2, h_AssetID = 1, h_Quantity = 5 * unit8, h_AverageBuyPrice = 0\<rparr>],
     audit_logs = []\<rparr>"

definition ex_seqs :: "string \<Rightarrow> int" where
  "ex_seqs t = 3"

definition ex_world :: world where
  "ex_world = \<lparr>db = ex_tables, seqs = ex_seqs, now = 10, faults = [], out = [], queue = [], queueCap = 10,
     kafkaProducer = True, cacheClient = True\<rparr>"

lemmas ex_defs = ex_user_def ex_wallet_def ex_order_def ex_tables_def ex_seqs_def ex_world_def unit8_def

lemma ex_world_ok [simp]: "schema_ok (db ex_world) (seqs ex_world)"
  by (simp add: schema_defs ex_defs order_row_ok_def idempotency_keys_def numeric_fits_def show_int_def show_nat.simps digit_char_def)

lemma ex_world_quiet [simp]: "faults ex_world = []"
  by (simp add: ex_world_def)

end
