(* ===== verification/Wallet.thy ===== *)
theory Wallet
  imports Pagination Example
begin

text \<open>
  internal/wallet: the repository (wallet_repository.go) and the service (wallet_service.go).
  The repository reads and writes the tables \<^verbatim>\<open>wallets\<close> and \<^verbatim>\<open>wallet_transactions\<close>; the service
  deposits and withdraws in a transaction, with 64-bit floats, and lists the transactions. The
  locale \<open>wallet_store\<close> is what the service and the matching engine rely on: reading a wallet and
  writing its balance back, guarded by its version.
\<close>

section \<open>Repository\<close>

definition CreateWallet :: "int \<Rightarrow> string wallet io" where
  "CreateWallet userID = wrapE ''create wallet'' (sql
     (bindE (nextval ''wallets'') (\<lambda>i.
      bindE get_db (\<lambda>d.
      bindE time_now (\<lambda>t.
        if list_ex (\<lambda>r. w_UserID r = userID) (wallets d) then raise (unique_violation ''wallets_user_id_key'')
        else if \<not> list_ex (\<lambda>u. u_ID u = userID) (users d) then raise (fk_violation ''wallets_user_id_fkey'')
        else let r = \<lparr>w_ID = i, w_UserID = userID, w_Balance = 0, w_Currency = ''USD'', w_Version = 1,
                      w_CreatedAt = t, w_UpdatedAt = t\<rparr>
          in bindE (put_db (d\<lparr>wallets := wallets d @ [r]\<rparr>)) (\<lambda>_. ret (scan_wallet r)))))))"

definition GetByUserID :: "int \<Rightarrow> string wallet io" where
  "GetByUserID userID =
     bindE (wrapE ''get wallet'' (sql (bindE get_db (\<lambda>d. ret (find (\<lambda>r. w_UserID r = userID) (wallets d))))))
       (\<lambda>r. case r of None \<Rightarrow> raise ErrWalletNotFound | Some r \<Rightarrow> ret (scan_wallet r))"

definition GetByUserIDForUpdate :: "int \<Rightarrow> string wallet io" where
  "GetByUserIDForUpdate userID =
     bindE (wrapE ''get wallet for update'' (sql (bindE get_db (\<lambda>d. ret (find (\<lambda>r. w_UserID r = userID) (wallets d))))))
       (\<lambda>r. case r of None \<Rightarrow> raise ErrWalletNotFound | Some r \<Rightarrow> ret (scan_wallet r))"

text \<open>The row that \<^verbatim>\<open>UPDATE wallets SET ... WHERE id = $2 AND version = $3\<close> leaves.\<close>

definition set_balance :: "int \<Rightarrow> int \<Rightarrow> numeric \<Rightarrow> int \<Rightarrow> tables \<Rightarrow> tables" where
  "set_balance i v n t d = d\<lparr>wallets := upd_where (\<lambda>r. w_ID r = i \<and> w_Version r = v)
     (\<lambda>r. r\<lparr>w_Balance := n, w_Version := w_Version r + 1, w_UpdatedAt := t\<rparr>) (wallets d)\<rparr>"

definition UpdateBalance :: "int \<Rightarrow> string \<Rightarrow> int \<Rightarrow> unit io" where
  "UpdateBalance walletID newBalance currentVersion =
     bindE (wrapE ''update balance'' (sql
       (bindE get_db (\<lambda>d.
        bindE time_now (\<lambda>t.
          if \<not> list_ex (\<lambda>r. w_ID r = walletID \<and> w_Version r = currentVersion) (wallets d) then ret 0
          else bindE (to_numeric newBalance) (\<lambda>n.
               if n < 0 then raise (check_violation ''wallets_balance_check'')
               else bindE (put_db (set_balance walletID currentVersion n t d)) (\<lambda>_.
                    ret (length (filter (\<lambda>r. w_ID r = walletID \<and> w_Version r = currentVersion) (wallets d))))))))))
       (\<lambda>rows. check (rows \<noteq> 0) (ErrorString ''update balance: no rows affected, possible version conflict''))"

definition InsertTransaction :: "string wallet_transaction \<Rightarrow> string wallet_transaction io" where
  "InsertTransaction wt = wrapE ''insert wallet transaction'' (sql
     (bindE (nextval ''wallet_transactions'') (\<lambda>i.
      bindE get_db (\<lambda>d.
      bindE time_now (\<lambda>t.
      bindE (to_numeric (x_Amount wt)) (\<lambda>n.
        if \<not> list_ex (\<lambda>r. w_ID r = x_WalletID wt) (wallets d)
        then raise (fk_violation ''wallet_transactions_wallet_id_fkey'')
        else let r = \<lparr>x_ID = i, x_WalletID = x_WalletID wt, x_Amount = n,
               x_TransactionType = x_TransactionType wt, x_Status = x_Status wt,
               x_ReferenceID = x_ReferenceID wt, x_Description = x_Description wt, x_CreatedAt = t\<rparr>
          in bindE (put_db (d\<lparr>wallet_transactions := wallet_transactions d @ [r]\<rparr>)) (\<lambda>_. ret (scan_tx r))))))))"

text \<open>Rows of equal time come in table order here; the query leaves their order open.\<close>

definition wallet_repo_ListTransactions :: "int \<Rightarrow> int \<Rightarrow> int \<Rightarrow> string wallet_transaction list io" where
  "wallet_repo_ListTransactions walletID lmt off = wrapE ''list transactions'' (sql
     (bindE get_db (\<lambda>d.
      bindE (limit_offset lmt off (sort_key (\<lambda>r. - x_CreatedAt r)
               (filter (\<lambda>r. x_WalletID r = walletID) (wallet_transactions d)))) (\<lambda>rs.
      ret (map scan_tx rs)))))"

definition CountTransactions :: "int \<Rightarrow> int io" where
  "CountTransactions walletID = wrapE ''count transactions'' (sql
     (bindE get_db (\<lambda>d. ret (int (length (filter (\<lambda>r. x_WalletID r = walletID) (wallet_transactions d)))))))"

section \<open>Service\<close>

record AmountInput =
  Amount :: string
  Description :: "string option"

definition wallet_runTx :: "'a io \<Rightarrow> 'a io" where
  "wallet_runTx fn = bindE (wrapE ''begin transaction'' BeginTxx) (\<lambda>snap. inTx snap fn Commit)"

definition parsePositiveAmount :: "string \<Rightarrow> error + big_float" where
  "parsePositiveAmount s = (case SetString 64 s of
     None \<Rightarrow> Inl ErrInvalidAmount
   | Some f \<Rightarrow> if Cmp f (new_float 53) \<le> 0 then Inl ErrInvalidAmount else Inr f)"

definition wallet_mustParseBig :: "string \<Rightarrow> big_float option" where
  "wallet_mustParseBig s = SetString 64 s"

definition formatAmount :: "big_float \<Rightarrow> string" where
  "formatAmount f = fmt8f f"

definition CreateWalletForUser :: "int \<Rightarrow> unit io" where
  "CreateWalletForUser userID = bindE (CreateWallet userID) (\<lambda>_. ret ())"

definition GetWallet :: "int \<Rightarrow> string wallet io" where
  "GetWallet userID = bindE (attempt (GetByUserID userID)) (\<lambda>r. case r of
     Inl e \<Rightarrow> if errors_Is e ErrWalletNotFound then raise ErrWalletNotFound else raise e
   | Inr w \<Rightarrow> ret w)"

text \<open>The event after a change of balance, if there is a producer; its failure is ignored.\<close>

definition publish_wallet :: "string wallet \<Rightarrow> string \<Rightarrow> string \<Rightarrow> unit io" where
  "publish_wallet u change kind = (\<lambda>w. if kafkaProducer w then
     emit (PublishEvent ''wallet-events'' ''wallet.updated'' (WalletEventPayload
       \<lparr>we_WalletID = w_ID u, we_UserID = w_UserID u, we_Balance = w_Balance u, we_ChangeAmount = change,
        we_TransactionType = kind, we_Timestamp = now w\<rparr>)) w else ret () w)"

text \<open>What \<^verbatim>\<open>Deposit\<close> and \<^verbatim>\<open>Withdraw\<close> do in their transaction, once the new balance is computed.\<close>

definition store_balance ::
  "string wallet \<Rightarrow> big_float \<Rightarrow> big_float \<Rightarrow> string \<Rightarrow> string option \<Rightarrow> (string wallet \<times> string wallet_transaction) io" where
  "store_balance w newBal amount kind descr =
     (let newBalStr = formatAmount newBal in
      bindE (UpdateBalance (w_ID w) newBalStr (w_Version w)) (\<lambda>_.
      bindE (InsertTransaction \<lparr>x_ID = 0, x_WalletID = w_ID w, x_Amount = formatAmount amount,
               x_TransactionType = kind, x_Status = TxStatusCompleted, x_ReferenceID = None,
               x_Description = descr, x_CreatedAt = zero_time\<rparr>) (\<lambda>txRecord.
      ret (\<lparr>w_ID = w_ID w, w_UserID = w_UserID w, w_Balance = newBalStr, w_Currency = w_Currency w,
            w_Version = w_Version w + 1, w_CreatedAt = zero_time, w_UpdatedAt = zero_time\<rparr>, txRecord))))"

text \<open>The bodies of the two transactions.\<close>

definition Deposit_tx :: "int \<Rightarrow> big_float \<Rightarrow> string option \<Rightarrow> (string wallet \<times> string wallet_transaction) io" where
  "Deposit_tx userID amount descr =
     bindE (GetByUserIDForUpdate userID) (\<lambda>w.
     bindE (orPanic ''nil pointer dereference'' (wallet_mustParseBig (w_Balance w))) (\<lambda>current.
     bindE (orPanic ''big.ErrNaN'' (Add 0 current amount)) (\<lambda>newBal.
     store_balance w newBal amount TxTypeDeposit descr)))"

definition Withdraw_tx :: "int \<Rightarrow> big_float \<Rightarrow> string option \<Rightarrow> (string wallet \<times> string wallet_transaction) io" where
  "Withdraw_tx userID amount descr =
     bindE (GetByUserIDForUpdate userID) (\<lambda>w.
     bindE (orPanic ''nil pointer dereference'' (wallet_mustParseBig (w_Balance w))) (\<lambda>current.
     bindE (check (\<not> Cmp current amount < 0) ErrInsufficientBalance) (\<lambda>_.
     bindE (orPanic ''big.ErrNaN'' (Sub 0 current amount)) (\<lambda>newBal.
     store_balance w newBal amount TxTypeWithdrawal descr))))"

definition Deposit :: "int \<Rightarrow> AmountInput \<Rightarrow> (string wallet \<times> string wallet_transaction) io" where
  "Deposit userID input = (case parsePositiveAmount (Amount input) of
     Inl e \<Rightarrow> raise e
   | Inr amount \<Rightarrow>
       bindE (wallet_runTx (Deposit_tx userID amount (Description input)))
       (\<lambda>(updatedWallet, txRecord).
          bindE (publish_wallet updatedWallet (formatAmount amount) ''deposit'') (\<lambda>_.
          ret (updatedWallet, txRecord))))"

definition Withdraw :: "int \<Rightarrow> AmountInput \<Rightarrow> (string wallet \<times> string wallet_transaction) io" where
  "Withdraw userID input = (case parsePositiveAmount (Amount input) of
     Inl e \<Rightarrow> raise e
   | Inr amount \<Rightarrow>
       bindE (wallet_runTx (Withdraw_tx userID amount (Description input)))
       (\<lambda>(updatedWallet, txRecord).
          bindE (publish_wallet updatedWallet (formatAmount amount) ''withdrawal'') (\<lambda>_.
          ret (updatedWallet, txRecord))))"

record 'r page =
  p_Data :: "'r list"
  p_Total :: int
  p_Page :: int
  p_PageSize :: int
  p_TotalPages :: int

definition ListTransactions :: "int \<Rightarrow> int \<Rightarrow> int \<Rightarrow> string wallet_transaction page io" where
  "ListTransactions userID page0 pageSize0 =
     bindE (GetByUserID userID) (\<lambda>w.
     let page = clampPage page0; pageSize = clampPageSize pageSize0; offset = pageOffset page pageSize in
     bindE (wallet_repo_ListTransactions (w_ID w) pageSize offset) (\<lambda>txs.
     bindE (CountTransactions (w_ID w)) (\<lambda>count.
     ret \<lparr>p_Data = txs, p_Total = count, p_Page = page, p_PageSize = pageSize,
          p_TotalPages = totalPages count pageSize\<rparr>)))"

section \<open>The transaction runner of the service\<close>

interpretation wallet_tx: tx_runner wallet_runTx
proof -
  have "tx_runner (\<lambda>fn :: 'a io. bindE (wrapE ''begin transaction'' BeginTxx) (\<lambda>snap. inTx snap fn Commit))"
    by (rule tx_runner_shape) (auto dest: Commit_Inr Commit_Inl)
  then show "tx_runner (wallet_runTx :: 'a io \<Rightarrow> 'a io)" unfolding wallet_runTx_def .
qed

section \<open>The repository keeps the constraints\<close>

lemma wallet_ids_set_balance [simp]:
  "map w_ID (wallets (set_balance i v n t d)) = map w_ID (wallets d)"
  "map w_UserID (wallets (set_balance i v n t d)) = map w_UserID (wallets d)"
  by (simp_all add: set_balance_def map_upd_where_same)

lemma set_balance_frame [simp]:
  "users (set_balance i v n t d) = users d"
  "wallet_transactions (set_balance i v n t d) = wallet_transactions d"
  "assets (set_balance i v n t d) = assets d" "orders (set_balance i v n t d) = orders d"
  "trades (set_balance i v n t d) = trades d" "portfolios (set_balance i v n t d) = portfolios d"
  "audit_logs (set_balance i v n t d) = audit_logs d"
  by (simp_all add: set_balance_def)

lemma wallet_id_set_set_balance [simp]: "w_ID ` set (wallets (set_balance i v n t d)) = w_ID ` set (wallets d)"
  by (metis list.set_map wallet_ids_set_balance(1))

lemma wallet_exists_set_balance [simp]:
  "list_ex (\<lambda>x. w_ID x = j) (wallets (set_balance i v n t d)) = list_ex (\<lambda>x. w_ID x = j) (wallets d)"
proof -
  have "list_ex (\<lambda>x. w_ID x = j) xs \<longleftrightarrow> j \<in> w_ID ` set xs" for xs :: "numeric wallet list"
    by (auto simp: list_ex_iff)
  then show ?thesis by simp
qed

lemma set_balance_ok:
  assumes "schema_ok d s" and "0 \<le> n" and "numeric_fits n"
  shows "schema_ok (set_balance i v n t d) s"
proof -
  have "\<forall>r \<in> set (wallets (set_balance i v n t d)). w_ID r < s ''wallets'' \<and> w_UserID r \<in> u_ID ` set (users d)
          \<and> 0 \<le> w_Balance r \<and> numeric_fits (w_Balance r)"
    using assms by (auto simp: schema_ok_def wallets_ok_def set_balance_def set_upd_where)
  with assms show ?thesis by (simp add: schema_defs)
qed

lemma new_wallet_ok:
  assumes "schema_ok d s" and "w_ID r = s ''wallets''" and "list_ex (\<lambda>u. u_ID u = w_UserID r) (users d)"
    and "\<not> list_ex (\<lambda>x. w_UserID x = w_UserID r) (wallets d)" and "w_Balance r = 0"
  shows "schema_ok (d\<lparr>wallets := wallets d @ [r]\<rparr>) (s(''wallets'' := s ''wallets'' + 1))"
proof -
  have lt: "\<And>x. x \<in> set (wallets d) \<Longrightarrow> w_ID x < w_ID r"
    using assms(1,2) by (simp add: schema_ok_def wallets_ok_def)
  then have "w_ID r \<notin> w_ID ` set (wallets d)" by fastforce
  moreover have "w_UserID r \<notin> w_UserID ` set (wallets d)" "w_UserID r \<in> u_ID ` set (users d)"
    using assms(3,4) by (force simp: list_ex_iff)+
  ultimately have "wallets_ok (d\<lparr>wallets := wallets d @ [r]\<rparr>) (s(''wallets'' := s ''wallets'' + 1))"
    using assms(1,2,5) by (auto simp: schema_ok_def wallets_ok_def numeric_fits_0)
  then show ?thesis using assms(1) by (simp add: schema_defs)
qed

lemma new_transaction_ok:
  assumes "schema_ok d s" and "x_ID r = s ''wallet_transactions''"
    and "list_ex (\<lambda>x. w_ID x = x_WalletID r) (wallets d)" and "numeric_fits (x_Amount r)"
  shows "schema_ok (d\<lparr>wallet_transactions := wallet_transactions d @ [r]\<rparr>)
    (s(''wallet_transactions'' := s ''wallet_transactions'' + 1))"
proof -
  have lt: "\<And>x. x \<in> set (wallet_transactions d) \<Longrightarrow> x_ID x < s ''wallet_transactions''"
    using assms(1) by (simp add: schema_ok_def transactions_ok_def)
  then have "x_ID r \<notin> x_ID ` set (wallet_transactions d)" using assms(2) by fastforce
  moreover have "x_WalletID r \<in> w_ID ` set (wallets d)"
    using assms(3) by (force simp: list_ex_iff)
  ultimately have "transactions_ok (d\<lparr>wallet_transactions := wallet_transactions d @ [r]\<rparr>)
      (s(''wallet_transactions'' := s ''wallet_transactions'' + 1))"
    using assms(1,2,4) by (auto simp: schema_ok_def transactions_ok_def)
  then show ?thesis using assms(1) by (simp add: schema_defs)
qed

lemma UpdateBalance_preserves: "preserves schema_ok (UpdateBalance i s v)"
  unfolding UpdateBalance_def
  by (intro preserves_bindE [OF preserves_wrapE [OF preserves_sql]] preserves_check)
    (auto simp: preserves_def monad_defs split: option.splits if_splits intro: set_balance_ok numeric_in_fits)

lemma CreateWallet_preserves: "preserves schema_ok (CreateWallet u)"
  unfolding CreateWallet_def
  by (intro preserves_wrapE preserves_sql)
    (auto simp: preserves_def monad_defs Let_def split: if_splits intro!: new_wallet_ok intro: schema.mono)

lemma InsertTransaction_preserves: "preserves schema_ok (InsertTransaction wt)"
  unfolding InsertTransaction_def
  by (intro preserves_wrapE preserves_sql)
    (auto simp: preserves_def monad_defs Let_def split: if_splits option.splits
      intro!: new_transaction_ok intro: schema.mono numeric_in_fits)


lemma GetByUserID_preserves: "preserves I (GetByUserID u)"
  and GetByUserIDForUpdate_preserves: "preserves I (GetByUserIDForUpdate u)"
  and publish_wallet_preserves: "preserves I (publish_wallet uw c k)"
  unfolding GetByUserID_def GetByUserIDForUpdate_def publish_wallet_def
  by (intro preserves_bindE preserves_wrapE preserves_sql preserves_cases preserves_get_db preserves_ret
      preserves_raise | auto simp: preserves_def emit_def ret_def)+

lemma wallet_runTx_preserves: "preserves schema_ok fn \<Longrightarrow> preserves schema_ok (wallet_runTx fn)"
  unfolding wallet_runTx_def by (rule schema.preserves_runner) (auto dest: Commit_frame)

lemma store_balance_preserves: "preserves schema_ok (store_balance w nb a k descr)"
  unfolding store_balance_def
  by (intro preserves_Let preserves_bindE UpdateBalance_preserves InsertTransaction_preserves preserves_ret)

lemma Deposit_preserves: "preserves schema_ok (Deposit u inp)"
  unfolding Deposit_def Deposit_tx_def
  by (intro preserves_cases preserves_bindE preserves_raise preserves_ret wallet_runTx_preserves
      GetByUserIDForUpdate_preserves preserves_orPanic store_balance_preserves publish_wallet_preserves)

lemma Withdraw_preserves: "preserves schema_ok (Withdraw u inp)"
  unfolding Withdraw_def Withdraw_tx_def
  by (intro preserves_cases preserves_bindE preserves_raise preserves_ret wallet_runTx_preserves preserves_check
      GetByUserIDForUpdate_preserves preserves_orPanic store_balance_preserves publish_wallet_preserves)

section \<open>Faults\<close>

lemma wallet_repo_oblivious:
  "oblivious (GetByUserID u)" "oblivious (GetByUserIDForUpdate u)" "oblivious (UpdateBalance i s v)"
  "oblivious (InsertTransaction wt)"
  unfolding GetByUserID_def GetByUserIDForUpdate_def UpdateBalance_def InsertTransaction_def
  by (intro oblivious_rules)+

lemma wallet_repo_db_only:
  "db_only (GetByUserID u)" "db_only (GetByUserIDForUpdate u)" "db_only (UpdateBalance i s v)"
  "db_only (InsertTransaction wt)" "db_only (CreateWallet u)"
  unfolding GetByUserID_def GetByUserIDForUpdate_def UpdateBalance_def InsertTransaction_def CreateWallet_def
  by (intro db_only_rules)+

lemma wallet_runTx_db_only: "db_only fn \<Longrightarrow> db_only (wallet_runTx fn)"
  unfolding wallet_runTx_def by (intro db_only_bindE db_only_wrapE db_only_BeginTxx db_only_inTx db_only_Commit)

lemma store_balance_oblivious: "oblivious (store_balance w nb a k descr)"
  unfolding store_balance_def by (intro oblivious_Let oblivious_bindE wallet_repo_oblivious oblivious_ret)

lemma store_balance_db_only: "db_only (store_balance w nb a k descr)"
  unfolding store_balance_def by (intro db_only_rules wallet_repo_db_only)

lemma publish_wallet_db: "publish_wallet u c k w = (r, w') \<Longrightarrow> r = Inr () \<and> (\<exists>evs. w' = w\<lparr>out := out w @ evs\<rparr>)"
proof -
  assume "publish_wallet u c k w = (r, w')"
  moreover have "w = w\<lparr>out := out w @ []\<rparr>" by simp
  ultimately show ?thesis unfolding publish_wallet_def emit_def ret_def by (metis Pair_inject)
qed

lemma publish_wallet_oblivious: "oblivious (publish_wallet u c k)"
  by (auto simp: publish_wallet_def oblivious_def emit_def ret_def)

section \<open>Reading a wallet and writing it back\<close>

text \<open>What the program sees of the wallets: the balance of a user.\<close>

definition balance_of :: "tables \<Rightarrow> int \<Rightarrow> numeric option" where
  "balance_of d u = map_option w_Balance (find (\<lambda>r. w_UserID r = u) (wallets d))"

lemma GetByUserIDForUpdate_eval:
  "faults w = [] \<Longrightarrow> GetByUserIDForUpdate u w =
     (case find (\<lambda>r. w_UserID r = u) (wallets (db w)) of None \<Rightarrow> Inl ErrWalletNotFound | Some r \<Rightarrow> Inr (scan_wallet r), w)"
  by (simp add: GetByUserIDForUpdate_def monad_defs split: option.splits)

lemma GetByUserID_eval:
  "faults w = [] \<Longrightarrow> GetByUserID u w =
     (case find (\<lambda>r. w_UserID r = u) (wallets (db w)) of None \<Rightarrow> Inl ErrWalletNotFound | Some r \<Rightarrow> Inr (scan_wallet r), w)"
  by (simp add: GetByUserID_def monad_defs split: option.splits)

lemma UpdateBalance_eval:
  assumes "faults w = []" and "r \<in> set (wallets (db w))" and "numeric_in s = Some n" and "0 \<le> n"
  shows "UpdateBalance (w_ID r) s (w_Version r) w =
    (Inr (), w\<lparr>db := set_balance (w_ID r) (w_Version r) n (now w) (db w)\<rparr>)"
proof -
  have "list_ex (\<lambda>x. w_ID x = w_ID r \<and> w_Version x = w_Version r) (wallets (db w))"
    using assms(2) by (auto simp: list_ex_iff)
  moreover have "filter (\<lambda>x. w_ID x = w_ID r \<and> w_Version x = w_Version r) (wallets (db w)) \<noteq> []"
    using assms(2) by (auto simp: filter_empty_conv)
  ultimately show ?thesis using assms(1,3,4) by (simp add: UpdateBalance_def monad_defs)
qed

lemma UpdateBalance_stale:
  assumes "faults w = []" and "\<And>r. r \<in> set (wallets (db w)) \<Longrightarrow> w_ID r = i \<Longrightarrow> w_Version r \<noteq> v"
  shows "UpdateBalance i s v w = (Inl (ErrorString ''update balance: no rows affected, possible version conflict''), w)"
proof -
  have "\<not> list_ex (\<lambda>x. w_ID x = i \<and> w_Version x = v) (wallets (db w))"
    using assms(2) by (auto simp: list_ex_iff)
  then show ?thesis using assms(1) by (simp add: UpdateBalance_def monad_defs)
qed

text \<open>
  The interface the wallet service and the matching engine use: read a wallet, write its balance
  back with the version that was read. The laws give that the write is seen by the next reader,
  and by the reader of no other wallet, and that of two writers that have read the same version
  the second one fails.
\<close>

locale versioned_store =
  fixes get :: "int \<Rightarrow> string wallet io" and put :: "int \<Rightarrow> string \<Rightarrow> int \<Rightarrow> unit io"
  assumes get_law: "faults w = [] \<Longrightarrow> get u w =
      (case find (\<lambda>r. w_UserID r = u) (wallets (db w)) of None \<Rightarrow> Inl ErrWalletNotFound | Some r \<Rightarrow> Inr (scan_wallet r), w)"
    and put_law: "faults w = [] \<Longrightarrow> r \<in> set (wallets (db w)) \<Longrightarrow> numeric_in s = Some n \<Longrightarrow> 0 \<le> n \<Longrightarrow>
      put (w_ID r) s (w_Version r) w = (Inr (), w\<lparr>db := set_balance (w_ID r) (w_Version r) n (now w) (db w)\<rparr>)"
    and put_stale: "faults w = [] \<Longrightarrow> (\<And>r. r \<in> set (wallets (db w)) \<Longrightarrow> w_ID r = i \<Longrightarrow> w_Version r \<noteq> v) \<Longrightarrow>
      \<exists>e. put i s v w = (Inl e, w)"
begin

lemma get_found: "faults w = [] \<Longrightarrow> get u w = (Inr x, w') \<Longrightarrow>
    \<exists>r. find (\<lambda>r. w_UserID r = u) (wallets (db w)) = Some r \<and> x = scan_wallet r \<and> w' = w"
  by (auto simp: get_law split: option.splits)

lemma second_writer_fails:
  assumes "faults w = []" and "distinct (map w_ID (wallets (db w)))" and "get u w = (Inr x, w)"
    and "numeric_in s = Some n" and "0 \<le> n"
    and "put (w_ID x) s (w_Version x) w = (Inr (), w1)"
  shows "\<exists>e. put (w_ID x) s' (w_Version x) w1 = (Inl e, w1)"
proof -
  obtain r where f: "find (\<lambda>r. w_UserID r = u) (wallets (db w)) = Some r" and x: "x = scan_wallet r"
    using get_found [OF assms(1,3)] by blast
  then have r: "r \<in> set (wallets (db w))" by (auto dest: find_SomeD)
  from assms(6) have w1: "w1 = w\<lparr>db := set_balance (w_ID r) (w_Version r) n (now w) (db w)\<rparr>"
    unfolding x by (simp add: put_law [OF assms(1) r assms(4,5)])
  have "w_Version q \<noteq> w_Version r" if "q \<in> set (wallets (db w1))" "w_ID q = w_ID r" for q
    using that by (auto simp: w1 set_balance_def set_upd_where)
  then show ?thesis unfolding x using assms(1) by (intro put_stale) (auto simp: w1)
qed

lemma write_then_read:
  assumes "faults w = []" and "distinct (map w_ID (wallets (db w)))" and "get u w = (Inr x, w)"
    and "numeric_in s = Some n" and "0 \<le> n"
    and "put (w_ID x) s (w_Version x) w = (Inr (), w1)"
  shows "\<exists>y. get u w1 = (Inr y, w1) \<and> w_Balance y = numeric_out n \<and> w_Version y = w_Version x + 1"
proof -
  obtain r where f: "find (\<lambda>r. w_UserID r = u) (wallets (db w)) = Some r" and x: "x = scan_wallet r"
    using get_found [OF assms(1,3)] by blast
  then have r: "r \<in> set (wallets (db w))" by (auto dest: find_SomeD)
  from assms(6) have w1: "w1 = w\<lparr>db := set_balance (w_ID r) (w_Version r) n (now w) (db w)\<rparr>"
    unfolding x by (simp add: put_law [OF assms(1) r assms(4,5)])
  have "find (\<lambda>r. w_UserID r = u) (wallets (db w1)) =
      Some (r\<lparr>w_Balance := n, w_Version := w_Version r + 1, w_UpdatedAt := now w\<rparr>)"
    by (simp add: w1 set_balance_def find_upd_where f)
  moreover have "faults w1 = []" by (simp add: w1 assms(1))
  ultimately show ?thesis by (simp add: get_law x)
qed

end

interpretation wallet_store: versioned_store GetByUserIDForUpdate UpdateBalance
  by unfold_locales (auto simp: GetByUserIDForUpdate_eval UpdateBalance_eval UpdateBalance_stale)

interpretation wallet_reader: versioned_store GetByUserID UpdateBalance
  by unfold_locales (auto simp: GetByUserID_eval UpdateBalance_eval UpdateBalance_stale)

section \<open>Booking: a balance and its transaction\<close>

text \<open>
  The two writes that go together in the service and in the engine: the new balance \<open>b\<close> of the
  wallet \<open>r\<close> and a transaction of \<open>n\<close> units.
\<close>

definition tx_row :: "numeric wallet \<Rightarrow> numeric \<Rightarrow> string \<Rightarrow> string option \<Rightarrow> world \<Rightarrow> numeric wallet_transaction" where
  "tx_row r n kind descr w = \<lparr>x_ID = seqs w ''wallet_transactions'', x_WalletID = w_ID r, x_Amount = n,
     x_TransactionType = kind, x_Status = TxStatusCompleted, x_ReferenceID = None, x_Description = descr,
     x_CreatedAt = now w\<rparr>"

definition booked :: "numeric wallet \<Rightarrow> numeric \<Rightarrow> numeric \<Rightarrow> string \<Rightarrow> string option \<Rightarrow> world \<Rightarrow> world" where
  "booked r b n kind descr w = w\<lparr>
     db := (set_balance (w_ID r) (w_Version r) b (now w) (db w))
             \<lparr>wallet_transactions := wallet_transactions (db w) @ [tx_row r n kind descr w]\<rparr>,
     seqs := (seqs w)(''wallet_transactions'' := seqs w ''wallet_transactions'' + 1)\<rparr>"

text \<open>The sum of the completed transactions of a wallet, as \<^verbatim>\<open>ReconcileWallets\<close> asks for it.\<close>

definition signed_amount :: "string \<Rightarrow> numeric \<Rightarrow> numeric" where
  "signed_amount kind n = (if kind = ''DEPOSIT'' then n else if kind = ''WITHDRAWAL'' then - n else 0)"

definition ledger :: "tables \<Rightarrow> int \<Rightarrow> numeric" where
  "ledger d i = sum_list (map (\<lambda>x. signed_amount (x_TransactionType x) (x_Amount x))
     (filter (\<lambda>x. x_WalletID x = i \<and> x_Status x = ''COMPLETED'') (wallet_transactions d)))"

definition books_balance :: "tables \<Rightarrow> bool" where
  "books_balance d \<longleftrightarrow> (\<forall>r \<in> set (wallets d). w_Balance r = ledger d (w_ID r))"

definition total_money :: "tables \<Rightarrow> numeric" where
  "total_money d = sum_list (map w_Balance (wallets d))"

lemma signed_amount_simps [simp]: "signed_amount TxTypeDeposit n = n" "signed_amount TxTypeWithdrawal n = - n"
  by (simp_all add: signed_amount_def const_defs)

lemma ledger_append:
  "ledger (d\<lparr>wallet_transactions := wallet_transactions d0 @ [x]\<rparr>) i =
     ledger (d\<lparr>wallet_transactions := wallet_transactions d0\<rparr>) i
     + (if x_WalletID x = i \<and> x_Status x = ''COMPLETED'' then signed_amount (x_TransactionType x) (x_Amount x) else 0)"
  by (simp add: ledger_def)

lemma ledger_cong: "wallet_transactions d = wallet_transactions d' \<Longrightarrow> ledger d = ledger d'"
  by (simp add: ledger_def fun_eq_iff)

lemma wallet_by_id:
  assumes "schema_ok d s" and "r \<in> set (wallets d)" and "q \<in> set (wallets d)" and "w_ID q = w_ID r"
  shows "q = r"
proof -
  have "inj_on w_ID (set (wallets d))"
    using assms(1) by (simp add: schema_ok_def wallets_ok_def distinct_map)
  then show ?thesis using inj_onD [of w_ID "set (wallets d)" q r] assms(2-4) by simp
qed

lemma set_balance_rows:
  assumes "schema_ok d s" and "r \<in> set (wallets d)"
  shows "wallets (set_balance (w_ID r) (w_Version r) b t d) = upd_where (\<lambda>x. w_ID x = w_ID r)
    (\<lambda>x. x\<lparr>w_Balance := b, w_Version := w_Version x + 1, w_UpdatedAt := t\<rparr>) (wallets d)"
  using wallet_by_id [OF assms] by (auto simp: set_balance_def upd_where_def)

lemma find_wallet:
  assumes "schema_ok d s" and "r \<in> set (wallets d)"
  shows "find (\<lambda>x. w_UserID x = w_UserID r) (wallets d) = Some r" "find (\<lambda>x. w_ID x = w_ID r) (wallets d) = Some r"
  using assms by (auto intro!: find_key simp: schema_ok_def wallets_ok_def)

lemma balance_of_set_balance:
  assumes "schema_ok d s" and "r \<in> set (wallets d)"
  shows "balance_of (set_balance (w_ID r) (w_Version r) b t d) = (balance_of d)(w_UserID r \<mapsto> b)"
proof
  fix u
  have f: "find (\<lambda>x. w_UserID x = u) (wallets (set_balance (w_ID r) (w_Version r) b t d)) =
      map_option (\<lambda>x. if w_ID x = w_ID r then x\<lparr>w_Balance := b, w_Version := w_Version x + 1, w_UpdatedAt := t\<rparr> else x)
        (find (\<lambda>x. w_UserID x = u) (wallets d))"
    unfolding set_balance_rows [OF assms] by (rule find_upd_where) simp
  show "balance_of (set_balance (w_ID r) (w_Version r) b t d) u = ((balance_of d)(w_UserID r \<mapsto> b)) u"
  proof (cases "u = w_UserID r")
    case True
    with f find_wallet(1) [OF assms] show ?thesis unfolding balance_of_def by simp
  next
    case False
    then have "w_ID x \<noteq> w_ID r" if "find (\<lambda>x. w_UserID x = u) (wallets d) = Some x" for x
      using that wallet_by_id [OF assms] by (auto dest!: find_SomeD)
    then show ?thesis using False
      by (cases "find (\<lambda>x. w_UserID x = u) (wallets d)") (auto simp: balance_of_def f)
  qed
qed

lemma total_money_set_balance:
  assumes "schema_ok d s" and "r \<in> set (wallets d)"
  shows "total_money (set_balance (w_ID r) (w_Version r) b t d) = total_money d + b - w_Balance r"
  unfolding total_money_def set_balance_rows [OF assms]
  using sum_list_upd_key [of w_ID "wallets d" "w_ID r" r w_Balance] find_wallet(2) [OF assms] assms(1)
  by (simp add: schema_ok_def wallets_ok_def)

lemma booked_frame [simp]:
  "faults (booked r b n k descr w) = faults w" "now (booked r b n k descr w) = now w"
  "out (booked r b n k descr w) = out w" "kafkaProducer (booked r b n k descr w) = kafkaProducer w"
  "orders (db (booked r b n k descr w)) = orders (db w)" "trades (db (booked r b n k descr w)) = trades (db w)"
  "portfolios (db (booked r b n k descr w)) = portfolios (db w)" "users (db (booked r b n k descr w)) = users (db w)"
  "assets (db (booked r b n k descr w)) = assets (db w)" "cacheClient (booked r b n k descr w) = cacheClient w"
  "queue (booked r b n k descr w) = queue w" "queueCap (booked r b n k descr w) = queueCap w"
  "audit_logs (db (booked r b n k descr w)) = audit_logs (db w)"
  "wallet_transactions (db (booked r b n k descr w)) = wallet_transactions (db w) @ [tx_row r n k descr w]"
  by (simp_all add: booked_def)

lemma booked_wallets: "wallets (db (booked r b n k descr w)) = wallets (set_balance (w_ID r) (w_Version r) b (now w) (db w))"
  by (simp add: booked_def)

lemma balance_of_booked:
  "schema_ok (db w) (seqs w) \<Longrightarrow> r \<in> set (wallets (db w)) \<Longrightarrow>
     balance_of (db (booked r b n k descr w)) = (balance_of (db w))(w_UserID r \<mapsto> b)"
  using balance_of_set_balance [of "db w" "seqs w" r b "now w"]
  by (simp add: balance_of_def fun_eq_iff booked_wallets)

lemma total_money_booked:
  "schema_ok (db w) (seqs w) \<Longrightarrow> r \<in> set (wallets (db w)) \<Longrightarrow>
     total_money (db (booked r b n k descr w)) = total_money (db w) + b - w_Balance r"
  using total_money_set_balance [of "db w" "seqs w" r b "now w"] by (simp add: total_money_def booked_wallets)

lemma booked_ok:
  assumes "schema_ok (db w) (seqs w)" and "r \<in> set (wallets (db w))" and "0 \<le> b" "numeric_fits b" "numeric_fits n"
  shows "schema_ok (db (booked r b n k descr w)) (seqs (booked r b n k descr w))"
proof -
  let ?d = "set_balance (w_ID r) (w_Version r) b (now w) (db w)"
  have "list_ex (\<lambda>x. w_ID x = w_ID r) (wallets ?d)"
    using assms(2) unfolding wallet_exists_set_balance by (auto simp: list_ex_iff)
  with set_balance_ok [OF assms(1,3,4)] assms(5)
  have "schema_ok (?d\<lparr>wallet_transactions := wallet_transactions ?d @ [tx_row r n k descr w]\<rparr>)
      ((seqs w)(''wallet_transactions'' := seqs w ''wallet_transactions'' + 1))"
    by (intro new_transaction_ok) (simp_all add: tx_row_def)
  then show ?thesis by (simp add: booked_def)
qed

text \<open>The books stay balanced when the balance changes by the amount of the transaction.\<close>

lemma books_booked:
  assumes "schema_ok (db w) (seqs w)" and "r \<in> set (wallets (db w))" and "books_balance (db w)"
    and "b = w_Balance r + signed_amount k n"
  shows "books_balance (db (booked r b n k descr w))"
proof -
  have l: "ledger (db (booked r b n k descr w)) i =
      ledger (db w) i + (if w_ID r = i then signed_amount k n else 0)" for i
    by (simp add: ledger_def tx_row_def TxStatusCompleted_def)
  have "w_Balance q = ledger (db w) (w_ID q) + (if w_ID r = w_ID q then signed_amount k n else 0)"
    if "q \<in> set (wallets (db (booked r b n k descr w)))" for q
    using that assms(2-4) wallet_by_id [OF assms(1,2)]
    by (auto simp: booked_wallets set_balance_rows [OF assms(1,2)] set_upd_where books_balance_def)
  then show ?thesis by (simp add: books_balance_def l)
qed

lemma InsertTransaction_eval:
  assumes "faults w = []" and "r \<in> set (wallets (db w))" and "numeric_in a = Some n"
  shows "InsertTransaction \<lparr>x_ID = i, x_WalletID = w_ID r, x_Amount = a, x_TransactionType = k,
      x_Status = TxStatusCompleted, x_ReferenceID = None, x_Description = descr, x_CreatedAt = t\<rparr>
      (w\<lparr>db := set_balance (w_ID r) (w_Version r) b (now w) (db w)\<rparr>) =
    (Inr (scan_tx (tx_row r n k descr w)), booked r b n k descr w)"
proof -
  let ?d = "set_balance (w_ID r) (w_Version r) b (now w) (db w)"
  have "list_ex (\<lambda>x. w_ID x = w_ID r) (wallets ?d)"
    using assms(2) unfolding wallet_exists_set_balance by (auto simp: list_ex_iff)
  then show ?thesis using assms by (simp add: InsertTransaction_def monad_defs booked_def tx_row_def Let_def)
qed

lemma store_balance_eval:
  assumes "faults w = []" and "r \<in> set (wallets (db w))" and "numeric_in (fmt8f nb) = Some b" and "0 \<le> b"
    and "numeric_in (fmt8f a) = Some n"
  shows "store_balance (scan_wallet r) nb a k descr w =
    (Inr (\<lparr>w_ID = w_ID r, w_UserID = w_UserID r, w_Balance = fmt8f nb, w_Currency = w_Currency r,
           w_Version = w_Version r + 1, w_CreatedAt = zero_time, w_UpdatedAt = zero_time\<rparr>,
          scan_tx (tx_row r n k descr w)), booked r b n k descr w)"
  using UpdateBalance_eval [OF assms(1-4)] InsertTransaction_eval [OF assms(1,2,5)]
  by (simp add: store_balance_def formatAmount_def bindE_def ret_def Let_def)

section \<open>Deposits and withdrawals\<close>

definition decimal_amount :: "string \<Rightarrow> numeric \<Rightarrow> bool" where
  "decimal_amount s n \<longleftrightarrow> parse_exact s = Some (False, of_int n / 10 ^ 8)"

lemma parsePositiveAmount_amount:
  "decimal_amount s n \<Longrightarrow> 0 < n \<Longrightarrow> parsePositiveAmount s = Inr (Fin 64 False (load 64 n))"
  by (simp add: decimal_amount_def parsePositiveAmount_def SetString_amount new_float_def not_le load_pos_iff)

lemma wallet_mustParseBig_numeric: "wallet_mustParseBig (numeric_out b) = Some (Fin 64 False (load 64 b))"
  by (simp add: wallet_mustParseBig_def SetString_load)

lemma wallet_tx_oblivious: "oblivious (Deposit_tx u amount descr)" "oblivious (Withdraw_tx u amount descr)"
  unfolding Deposit_tx_def Withdraw_tx_def
  by (intro oblivious_rules wallet_repo_oblivious store_balance_oblivious)+

lemma wallet_tx_db_only: "db_only (Deposit_tx u amount descr)" "db_only (Withdraw_tx u amount descr)"
  unfolding Deposit_tx_def Withdraw_tx_def
  by (intro db_only_rules wallet_repo_db_only store_balance_db_only)+

lemma fits_18: "0 \<le> n \<Longrightarrow> n \<le> 10 ^ 18 \<Longrightarrow> numeric_fits n"
  by (simp add: numeric_fits_def)

lemma Deposit_tx_eval:
  assumes "faults w = []" and "find (\<lambda>x. w_UserID x = u) (wallets (db w)) = Some r"
    and "0 \<le> w_Balance r" "0 < n" "w_Balance r + n \<le> 10 ^ 18"
  shows "Deposit_tx u (Fin 64 False (load 64 n)) descr w =
    (Inr (\<lparr>w_ID = w_ID r, w_UserID = w_UserID r, w_Balance = numeric_out (w_Balance r + n), w_Currency = w_Currency r,
           w_Version = w_Version r + 1, w_CreatedAt = zero_time, w_UpdatedAt = zero_time\<rparr>,
          scan_tx (tx_row r n TxTypeDeposit descr w)), booked r (w_Balance r + n) n TxTypeDeposit descr w)"
proof -
  define nb where nb: "nb = rnd 64 (load 64 (w_Balance r) + load 64 n)"
  have r: "r \<in> set (wallets (db w))" using assms(2) by (auto dest: find_SomeD)
  have l: "0 \<le> load 64 n" "0 \<le> nb" unfolding nb using assms(3,4) by (auto intro!: rnd_nonneg add_nonneg_nonneg load_nonneg)
  have u: "units nb = w_Balance r + n" unfolding nb using assms(3-5) by (intro f64.units_add) auto
  have un: "units (load 64 n) = n" using assms(3-5) by (intro f64.units_load) auto
  have f: "numeric_fits (w_Balance r + n)" "numeric_fits n" using assms(3-5) by (auto intro!: fits_18)
  have b: "numeric_in (fmt8f (Fin 64 False nb)) = Some (w_Balance r + n)"
    "numeric_in (fmt8f (Fin 64 False (load 64 n))) = Some n" by (simp_all add: numeric_in_units u un f)
  have s: "fmt8f (Fin 64 False nb) = numeric_out (w_Balance r + n)" using l(2) by (simp add: fmt8f_units u)
  have nn: "0 \<le> w_Balance r + n" using assms(3,4) by simp
  show ?thesis
    using store_balance_eval [OF assms(1) r b(1) nn b(2)]
    by (simp add: Deposit_tx_def bindE_def GetByUserIDForUpdate_eval [OF assms(1)] assms(2)
        wallet_mustParseBig_numeric orPanic_def ret_def Add_Fin nb [symmetric] s del: Add.simps)
qed

lemma Withdraw_tx_eval:
  assumes "faults w = []" and "find (\<lambda>x. w_UserID x = u) (wallets (db w)) = Some r"
    and "0 < n" "n \<le> w_Balance r" "w_Balance r \<le> 10 ^ 18"
  shows "Withdraw_tx u (Fin 64 False (load 64 n)) descr w =
    (Inr (\<lparr>w_ID = w_ID r, w_UserID = w_UserID r, w_Balance = numeric_out (w_Balance r - n), w_Currency = w_Currency r,
           w_Version = w_Version r + 1, w_CreatedAt = zero_time, w_UpdatedAt = zero_time\<rparr>,
          scan_tx (tx_row r n TxTypeWithdrawal descr w)), booked r (w_Balance r - n) n TxTypeWithdrawal descr w)"
proof -
  define nb where nb: "nb = rnd 64 (load 64 (w_Balance r) - load 64 n)"
  have r: "r \<in> set (wallets (db w))" using assms(2) by (auto dest: find_SomeD)
  have le: "load 64 n \<le> load 64 (w_Balance r)" using assms(3-5) by (simp add: f64.load_le_iff)
  then have l: "0 \<le> nb" unfolding nb by (intro rnd_nonneg) auto
  have u: "units nb = w_Balance r - n" unfolding nb using assms(3-5) by (intro f64.units_sub) auto
  have un: "units (load 64 n) = n" using assms(3-5) by (intro f64.units_load) auto
  have f: "numeric_fits (w_Balance r - n)" "numeric_fits n" using assms(3-5) by (auto intro!: fits_18)
  have b: "numeric_in (fmt8f (Fin 64 False nb)) = Some (w_Balance r - n)"
    "numeric_in (fmt8f (Fin 64 False (load 64 n))) = Some n" by (simp_all add: numeric_in_units u un f)
  have s: "fmt8f (Fin 64 False nb) = numeric_out (w_Balance r - n)" using l by (simp add: fmt8f_units u)
  have nn: "0 \<le> w_Balance r - n" using assms(4) by simp
  show ?thesis
    using store_balance_eval [OF assms(1) r b(1) nn b(2)] le
    by (simp add: Withdraw_tx_def bindE_def GetByUserIDForUpdate_eval [OF assms(1)] assms(2)
        wallet_mustParseBig_numeric orPanic_def check_def ret_def Sub_Fin nb [symmetric] s)
qed

lemma Withdraw_tx_short:
  assumes "faults w = []" and "find (\<lambda>x. w_UserID x = u) (wallets (db w)) = Some r"
    and "0 \<le> w_Balance r" "w_Balance r < n" "n \<le> 10 ^ 18"
  shows "Withdraw_tx u (Fin 64 False (load 64 n)) descr w = (Inl ErrInsufficientBalance, w)"
proof -
  have "load 64 (w_Balance r) < load 64 n" using assms(3-5) by (simp add: f64.load_less_iff)
  then show ?thesis
    by (simp add: Withdraw_tx_def bindE_def GetByUserIDForUpdate_eval [OF assms(1)] assms(2)
        wallet_mustParseBig_numeric orPanic_def check_def ret_def raise_def)
qed

text \<open>The shape of both operations: parse, run a transaction, tell Kafka.\<close>

definition wallet_op ::
  "(big_float \<Rightarrow> (string wallet \<times> string wallet_transaction) io) \<Rightarrow> string \<Rightarrow> string \<Rightarrow> (string wallet \<times> string wallet_transaction) io" where
  "wallet_op body kind s = (case parsePositiveAmount s of
     Inl e \<Rightarrow> raise e
   | Inr amount \<Rightarrow> bindE (wallet_runTx (body amount)) (\<lambda>(x, t).
       bindE (publish_wallet x (formatAmount amount) kind) (\<lambda>_. ret (x, t))))"

lemma Deposit_op: "Deposit u inp = wallet_op (\<lambda>a. Deposit_tx u a (Description inp)) ''deposit'' (Amount inp)"
  and Withdraw_op: "Withdraw u inp = wallet_op (\<lambda>a. Withdraw_tx u a (Description inp)) ''withdrawal'' (Amount inp)"
  by (simp_all add: Deposit_def Withdraw_def wallet_op_def)

lemma wallet_op_error:
  assumes "\<And>a. db_only (body a)" and "wallet_op body k s w = (Inl e, w')"
  shows "db w' = db w \<and> out w' = out w"
proof (cases "parsePositiveAmount s")
  case (Inl e1)
  with assms(2) show ?thesis by (simp add: wallet_op_def)
next
  case (Inr a)
  have nopub: "publish_wallet x c k v \<noteq> (Inl e2, v')" for x c v e2 v' by (auto dest: publish_wallet_db)
  from Inr assms(2) have "wallet_runTx (body a) w = (Inl e, w')"
    by (auto simp: wallet_op_def bindE_Inl nopub)
  then show ?thesis
    using wallet_tx.run_error [of "body a" w e w'] db_onlyD [OF wallet_runTx_db_only [OF assms(1)]] by blast
qed

lemma wallet_op_oblivious: "(\<And>a. oblivious (body a)) \<Longrightarrow> oblivious (wallet_op body k s)"
  unfolding wallet_op_def
  by (intro oblivious_rules wallet_tx.run_oblivious publish_wallet_oblivious)

lemma wallet_op_eval:
  assumes "faults w = []" and "parsePositiveAmount s = Inr a" and "body a w = (Inr (x, t), w1)" and "faults w1 = []"
  shows "\<exists>w'. wallet_op body k s w = (Inr (x, t), w') \<and> db w' = db w1 \<and> seqs w' = seqs w1"
proof -
  have "wallet_runTx (body a) w = (Inr (x, t), w1)"
    using assms(1,3,4) by (rule wallet_tx.run_no_fault)
  moreover obtain w' evs where "publish_wallet x (formatAmount a) k w1 = (Inr (), w')" "w' = w1\<lparr>out := out w1 @ evs\<rparr>"
    using publish_wallet_db by (metis surj_pair)
  ultimately show ?thesis using assms(2) by (simp add: wallet_op_def bindE_def ret_def)
qed

lemma wallet_op_eval_error:
  assumes "faults w = []" and "parsePositiveAmount s = Inr a" and "body a w = (Inl e, w)"
  shows "wallet_op body k s w = (Inl e, w)"
  using wallet_tx.run_no_fault_error [OF assms(1), of "body a" e w] assms(2,3)
  by (simp add: wallet_op_def bindE_def)

lemma balance_row:
  assumes "schema_ok (db w) (seqs w)" and "balance_of (db w) u = Some b"
  obtains r where "find (\<lambda>x. w_UserID x = u) (wallets (db w)) = Some r" "r \<in> set (wallets (db w))"
    "w_UserID r = u" "w_Balance r = b" "0 \<le> b"
proof -
  obtain r where "find (\<lambda>x. w_UserID x = u) (wallets (db w)) = Some r" "w_Balance r = b"
    using assms(2) by (auto simp: balance_of_def)
  moreover from this have "r \<in> set (wallets (db w))" "w_UserID r = u" by (auto dest: find_SomeD)
  ultimately show thesis using that assms(1) by (auto simp: schema_ok_def wallets_ok_def)
qed

lemma balance_row_ex: "balance_of (db ex_world) 1 = Some 100000000000"
  by (simp add: balance_of_def ex_defs)

text \<open>
  Property C8. A deposit of a decimal amount of \<open>n\<close> units (at most 8 decimals) to a wallet with \<open>b\<close>
  units succeeds when no statement fails, and adds exactly \<open>n\<close> to that balance and to no other, as
  long as the new balance is at most \<open>10 ^ 10\<close> USD; it answers with the new balance, records a
  transaction of \<open>n\<close>, and leaves books that were balanced (balance = sum of transactions) balanced.
\<close>

theorem Deposit_exact:
  assumes "schema_ok (db w) (seqs w)" and "faults w = []" and "balance_of (db w) u = Some b"
    and "decimal_amount (Amount inp) n" and "0 < n" and "b + n \<le> 10 ^ 18"
  shows "\<exists>uw tx w'. Deposit u inp w = (Inr (uw, tx), w') \<and> balance_of (db w') = (balance_of (db w))(u \<mapsto> b + n)
    \<and> w_Balance uw = numeric_out (b + n) \<and> x_Amount tx = numeric_out n \<and> x_TransactionType tx = TxTypeDeposit
    \<and> total_money (db w') = total_money (db w) + n \<and> (books_balance (db w) \<longrightarrow> books_balance (db w'))"
proof -
  obtain r where r: "find (\<lambda>x. w_UserID x = u) (wallets (db w)) = Some r" "r \<in> set (wallets (db w))"
    "w_UserID r = u" "w_Balance r = b" "0 \<le> b" by (rule balance_row [OF assms(1,3)])
  let ?w1 = "booked r (b + n) n TxTypeDeposit (Description inp) w"
  have "\<exists>w'. Deposit u inp w = (Inr (\<lparr>w_ID = w_ID r, w_UserID = u, w_Balance = numeric_out (b + n), w_Currency = w_Currency r,
      w_Version = w_Version r + 1, w_CreatedAt = zero_time, w_UpdatedAt = zero_time\<rparr>,
      scan_tx (tx_row r n TxTypeDeposit (Description inp) w)), w') \<and> db w' = db ?w1 \<and> seqs w' = seqs ?w1"
    unfolding Deposit_op using assms(2,5,6) r
    by (intro wallet_op_eval [OF _ parsePositiveAmount_amount [OF assms(4,5)]]) (simp_all add: Deposit_tx_eval)
  then show ?thesis
    using balance_of_booked [OF assms(1) r(2)] total_money_booked [OF assms(1) r(2)]
      books_booked [OF assms(1) r(2), of "b + n" TxTypeDeposit n] r
    by (auto simp: scan_tx_def tx_row_def)
qed

theorem Deposit_exact_witness:
  "\<exists>uw tx w'. Deposit 1 \<lparr>Amount = ''0.1'', Description = None\<rparr> ex_world = (Inr (uw, tx), w')
     \<and> balance_of (db w') 1 = Some 100010000000"
proof -
  have "decimal_amount (Amount \<lparr>Amount = ''0.1'', Description = None\<rparr>) 10000000"
    unfolding decimal_amount_def by (simp, code_simp)
  from Deposit_exact [OF ex_world_ok ex_world_quiet balance_row_ex this] show ?thesis by auto
qed

lemma Withdraw_eval:
  assumes "schema_ok (db w) (seqs w)" and "faults w = []" and "balance_of (db w) u = Some b"
    and "decimal_amount (Amount inp) n" and "0 < n" and "b \<le> 10 ^ 18" and "n \<le> 10 ^ 18"
  shows "if n \<le> b then \<exists>uw tx w'. Withdraw u inp w = (Inr (uw, tx), w') \<and> balance_of (db w') = (balance_of (db w))(u \<mapsto> b - n)
      \<and> w_Balance uw = numeric_out (b - n) \<and> x_Amount tx = numeric_out n \<and> x_TransactionType tx = TxTypeWithdrawal
      \<and> total_money (db w') = total_money (db w) - n \<and> (books_balance (db w) \<longrightarrow> books_balance (db w'))
    else Withdraw u inp w = (Inl ErrInsufficientBalance, w)"
proof -
  obtain r where r: "find (\<lambda>x. w_UserID x = u) (wallets (db w)) = Some r" "r \<in> set (wallets (db w))"
    "w_UserID r = u" "w_Balance r = b" "0 \<le> b" by (rule balance_row [OF assms(1,3)])
  show ?thesis
  proof (cases "n \<le> b")
    case True
    let ?w1 = "booked r (b - n) n TxTypeWithdrawal (Description inp) w"
    have "\<exists>w'. Withdraw u inp w = (Inr (\<lparr>w_ID = w_ID r, w_UserID = u, w_Balance = numeric_out (b - n), w_Currency = w_Currency r,
        w_Version = w_Version r + 1, w_CreatedAt = zero_time, w_UpdatedAt = zero_time\<rparr>,
        scan_tx (tx_row r n TxTypeWithdrawal (Description inp) w)), w') \<and> db w' = db ?w1 \<and> seqs w' = seqs ?w1"
      unfolding Withdraw_op using assms(2,5,6) r True
      by (intro wallet_op_eval [OF _ parsePositiveAmount_amount [OF assms(4,5)]]) (simp_all add: Withdraw_tx_eval)
    then show ?thesis
      using balance_of_booked [OF assms(1) r(2)] total_money_booked [OF assms(1) r(2)]
        books_booked [OF assms(1) r(2), of "b - n" TxTypeWithdrawal n] r True
      by (auto simp: scan_tx_def tx_row_def)
  next
    case False
    then have "Withdraw u inp w = (Inl ErrInsufficientBalance, w)"
      unfolding Withdraw_op using assms(2,7) r
      by (intro wallet_op_eval_error [OF _ parsePositiveAmount_amount [OF assms(4,5)]]) (simp_all add: Withdraw_tx_short)
    with False show ?thesis by simp
  qed
qed

text \<open>
  Property C7. A withdrawal of \<open>n\<close> units from a wallet with \<open>b \<ge> n\<close> units takes exactly \<open>n\<close> from that
  balance and from no other; it records a transaction of \<open>n\<close> and keeps the books balanced. With
  \<open>b < n\<close> it fails with \<^verbatim>\<open>ErrInsufficientBalance\<close> and changes nothing.
\<close>

theorem Withdraw_exact:
  assumes "schema_ok (db w) (seqs w)" and "faults w = []" and "balance_of (db w) u = Some b"
    and "decimal_amount (Amount inp) n" and "0 < n" and "b \<le> 10 ^ 18" and "n \<le> 10 ^ 18"
  shows "if n \<le> b then \<exists>uw tx w'. Withdraw u inp w = (Inr (uw, tx), w') \<and> balance_of (db w') = (balance_of (db w))(u \<mapsto> b - n)
      \<and> w_Balance uw = numeric_out (b - n) \<and> x_Amount tx = numeric_out n \<and> x_TransactionType tx = TxTypeWithdrawal
      \<and> total_money (db w') = total_money (db w) - n \<and> (books_balance (db w) \<longrightarrow> books_balance (db w'))
    else Withdraw u inp w = (Inl ErrInsufficientBalance, w)"
  using assms by (rule Withdraw_eval)

theorem Withdraw_exact_witness:
  "\<exists>uw tx w'. Withdraw 1 \<lparr>Amount = ''1e3'', Description = None\<rparr> ex_world = (Inr (uw, tx), w')
     \<and> balance_of (db w') 1 = Some 0"
proof -
  have "decimal_amount (Amount \<lparr>Amount = ''1e3'', Description = None\<rparr>) 100000000000"
    unfolding decimal_amount_def by (simp, code_simp)
  from Withdraw_exact [OF ex_world_ok ex_world_quiet balance_row_ex this] show ?thesis by auto
qed

text \<open>
  Property C25. Whatever statement fails on the way, a deposit or withdrawal either reports an error,
  with the tables as they were and no event sent, or does exactly what it does when nothing fails.
\<close>

theorem wallet_all_or_nothing:
  assumes "operation = Deposit \<or> operation = Withdraw" and "operation u inp w = (r, w')"
  shows "(\<exists>e. r = Inl e) \<and> db w' = db w \<and> out w' = out w
       \<or> (\<exists>x. r = Inr x) \<and> operation u inp (w\<lparr>faults := []\<rparr>) = (r, w'\<lparr>faults := []\<rparr>)"
proof -
  obtain body k where b: "operation u inp = wallet_op body k (Amount inp)"
    and p: "\<And>a. oblivious (body a)" "\<And>a. db_only (body a)"
    using assms(1) Deposit_op [of u inp] Withdraw_op [of u inp] wallet_tx_oblivious wallet_tx_db_only by auto
  show ?thesis
  proof (cases r)
    case (Inl e)
    with assms(2) show ?thesis using wallet_op_error [OF p(2)] by (auto simp: b)
  next
    case (Inr x)
    with assms(2) show ?thesis using obliviousD [OF wallet_op_oblivious [OF p(1)]] by (auto simp: b)
  qed
qed

theorem wallet_all_or_nothing_witness:
  "db (snd (Deposit 1 \<lparr>Amount = ''5'', Description = None\<rparr> (ex_world\<lparr>faults := [None, None, Some ''lost'']\<rparr>))) = db ex_world"
proof -
  let ?w = "ex_world\<lparr>faults := [None, None, Some ''lost'']\<rparr>"
  obtain r w' where r: "Deposit 1 \<lparr>Amount = ''5'', Description = None\<rparr> ?w = (r, w')" by fastforce
  have "decimal_amount ''5'' 500000000" unfolding decimal_amount_def by code_simp
  then have "parsePositiveAmount ''5'' = Inr (Fin 64 False (load 64 500000000))"
    by (rule parsePositiveAmount_amount) simp
  then have "\<exists>e. fst (Deposit 1 \<lparr>Amount = ''5'', Description = None\<rparr> ?w) = Inl e"
    by (simp add: Deposit_def Deposit_tx_def wallet_runTx_def BeginTxx_def inTx_def sql_def monad_defs is_panic_def
        GetByUserIDForUpdate_def store_balance_def UpdateBalance_def ex_defs wallet_mustParseBig_numeric Add_Fin Let_def
        del: Add.simps)
  with r have "\<exists>e. r = Inl e" by simp
  with wallet_all_or_nothing [OF disjI1 [OF refl] r] show ?thesis using r by auto
qed

definition rich_world :: world where
  "rich_world = ex_world\<lparr>db := ex_tables\<lparr>wallets := [ex_wallet 1 90000000000000000002, ex_wallet 2 0]\<rparr>\<rparr>"

lemma load_rich: "load 64 90000000000000000002 = 900000000000"
proof -
  have "rnd 64 (of_int 90000000000000000002 / 10 ^ 8 :: rat) = of_int 15099494400000000000 * 2 powi (40 - int 64)"
    by (rule rnd_eqI) (simp_all add: power_int_def power_one_over)
  then show ?thesis by (simp add: load_def power_int_def power_one_over)
qed

lemma load_one_unit: "load 64 1 = 12379400392853802749 / 2 ^ 90"
proof -
  have "rnd 64 (of_int 1 / 10 ^ 8 :: rat) = of_int 12379400392853802749 * 2 powi (- 26 - int 64)"
    by (rule rnd_eqI) (simp_all add: power_int_def power_one_over)
  then show ?thesis by (simp add: load_def power_int_def field_simps)
qed

lemma rnd_rich_sum: "rnd 64 (load 64 90000000000000000002 + load 64 1) = 900000000000"
proof -
  have "rnd 64 (load 64 90000000000000000002 + load 64 1) = of_int 15099494400000000000 * 2 powi (40 - int 64)"
    by (rule rnd_eqI) (simp_all add: power_int_def power_one_over load_rich load_one_unit)
  then show ?thesis by (simp add: power_int_def power_one_over)
qed

text \<open>
  The 64-bit floats of the service do not carry the 20 digits of the column: a deposit of
  0.00000001 to a wallet of 900000000000.00000002 succeeds, records a transaction of 0.00000001, and
  lowers the balance to 900000000000.00000000.
\<close>

theorem Deposit_loses_money:
  "\<exists>uw tx w'. Deposit 1 \<lparr>Amount = ''0.00000001'', Description = None\<rparr> rich_world = (Inr (uw, tx), w')
     \<and> balance_of (db rich_world) 1 = Some 90000000000000000002 \<and> balance_of (db w') 1 = Some 90000000000000000000
     \<and> x_Amount tx = ''0.00000001''"
proof -
  let ?r = "ex_wallet 1 90000000000000000002"
  let ?a = "Fin 64 False (load 64 1)" and ?nb = "Fin 64 False 900000000000"
  have ok: "schema_ok (db rich_world) (seqs rich_world)"
    using ex_world_ok by (simp add: rich_world_def schema_defs ex_defs numeric_fits_def)
  have q: "faults rich_world = []" by (simp add: rich_world_def ex_defs)
  have r: "find (\<lambda>x. w_UserID x = 1) (wallets (db rich_world)) = Some ?r" "?r \<in> set (wallets (db rich_world))"
    by (simp_all add: rich_world_def ex_defs)
  have "decimal_amount ''0.00000001'' 1" unfolding decimal_amount_def by code_simp
  then have p: "parsePositiveAmount ''0.00000001'' = Inr ?a" by (rule parsePositiveAmount_amount) simp
  have nb: "numeric_in (fmt8f ?nb) = Some 90000000000000000000" and a: "numeric_in (fmt8f ?a) = Some 1"
    using f64.units_load [of 1] round_even_of_int [of 90000000000000000000]
    by (simp_all add: numeric_in_units units_def numeric_fits_def)
  have "Deposit_tx 1 ?a None rich_world = store_balance (scan_wallet ?r) ?nb ?a TxTypeDeposit None rich_world"
    by (simp add: Deposit_tx_def bindE_def GetByUserIDForUpdate_eval [OF q] r ret_def orPanic_def ex_wallet_def
        wallet_mustParseBig_numeric Add_Fin rnd_rich_sum del: Add.simps)
  also note store_balance_eval [OF q r(2) nb _ a]
  finally obtain x where x: "Deposit_tx 1 ?a None rich_world = (Inr (x, scan_tx (tx_row ?r 1 TxTypeDeposit None rich_world)),
      booked ?r 90000000000000000000 1 TxTypeDeposit None rich_world)" by simp
  have "\<exists>w'. Deposit 1 \<lparr>Amount = ''0.00000001'', Description = None\<rparr> rich_world =
      (Inr (x, scan_tx (tx_row ?r 1 TxTypeDeposit None rich_world)), w')
      \<and> db w' = db (booked ?r 90000000000000000000 1 TxTypeDeposit None rich_world)
      \<and> seqs w' = seqs (booked ?r 90000000000000000000 1 TxTypeDeposit None rich_world)"
    unfolding Deposit_op using q p x by (intro wallet_op_eval) simp_all
  moreover have "numeric_out 1 = ''0.00000001''" by code_simp
  moreover have "balance_of (db rich_world) 1 = Some 90000000000000000002"
    using r(1) by (simp add: balance_of_def ex_wallet_def)
  moreover have "w_UserID ?r = 1" by (simp add: ex_wallet_def)
  ultimately show ?thesis
    using balance_of_booked [OF ok r(2)] by (auto simp: scan_tx_def tx_row_def)
qed

text \<open>
  Of two writers that have read the same version of a wallet, at most one changes it:
  once the first one has written a balance, the second one is refused and nothing is written.
\<close>

theorem UpdateBalance_no_lost_update:
  assumes "schema_ok (db w) (seqs w)" and "faults w = []" and "GetByUserIDForUpdate u w = (Inr x, w)"
    and "numeric_in s = Some n" and "0 \<le> n" and "UpdateBalance (w_ID x) s (w_Version x) w = (Inr (), w1)"
  shows "\<exists>e. UpdateBalance (w_ID x) s' (w_Version x) w1 = (Inl e, w1)"
  by (rule wallet_store.second_writer_fails [OF assms(2) _ assms(3-6)])
    (use assms(1) in \<open>simp add: schema_ok_def wallets_ok_def\<close>)

theorem UpdateBalance_no_lost_update_witness:
  "\<exists>w1 e. UpdateBalance 1 ''7.00000000'' 1 ex_world = (Inr (), w1) \<and> UpdateBalance 1 ''9.00000000'' 1 w1 = (Inl e, w1)"
proof -
  let ?r = "ex_wallet 1 (1000 * unit8)"
  have g: "GetByUserIDForUpdate 1 ex_world = (Inr (scan_wallet ?r), ex_world)"
    by (simp add: GetByUserIDForUpdate_eval ex_defs)
  have n: "numeric_in ''7.00000000'' = Some 700000000" by code_simp
  have "?r \<in> set (wallets (db ex_world))" by (simp add: ex_world_def ex_tables_def)
  from UpdateBalance_eval [OF ex_world_quiet this n]
  obtain w1 where "UpdateBalance (w_ID (scan_wallet ?r)) ''7.00000000'' (w_Version (scan_wallet ?r)) ex_world = (Inr (), w1)"
    by simp
  from UpdateBalance_no_lost_update [OF ex_world_ok ex_world_quiet g n _ this, of "''9.00000000''"] this
  show ?thesis by (auto simp: ex_wallet_def)
qed

end
