(* ===== verification/Portfolio.thy ===== *)
theory Portfolio
  imports Example
begin

text \<open>
  internal/portfolio: the holdings of the users (portfolio_repository.go, portfolio_service.go). A
  purchase adds to a holding and moves its average price, a sale reduces it; the average is computed
  by SQL, in the arithmetic of \<^verbatim>\<open>NUMERIC\<close>. Shown: a purchase adds exactly the quantity bought and the
  average stays between the old average and the price paid; a sale that is more than what is held
  is refused.
\<close>

section \<open>Repository\<close>

definition holding_key :: "int \<Rightarrow> int \<Rightarrow> 'n portfolio_holding \<Rightarrow> bool" where
  "holding_key u a h \<longleftrightarrow> h_UserID h = u \<and> h_AssetID h = a"

definition GetHolding :: "int \<Rightarrow> int \<Rightarrow> string portfolio_holding io" where
  "GetHolding userID assetID =
     bindE (wrapE ''get portfolio holding'' (sql (bindE get_db (\<lambda>d. ret (find (holding_key userID assetID) (portfolios d))))))
       (\<lambda>r. case r of None \<Rightarrow> raise ErrPortfolioNotFound | Some h \<Rightarrow> ret (scan_holding h))"

text \<open>
  Division of \<^verbatim>\<open>NUMERIC\<close>s, of \<open>n / 10 ^ 16\<close> by \<open>d / 10 ^ 8\<close>, both positive: the number of decimals of the
  quotient is chosen from the leading digits in base 10000, and is 16 or more; it is rounded there,
  half away from zero, and again to 8 decimals when it is stored.
\<close>

fun nbase_digits :: "nat \<Rightarrow> nat" where
  "nbase_digits n = (if n < 10000 then 1 else nbase_digits (n div 10000) + 1)"

declare nbase_digits.simps [simp del]

definition nbase_lead :: "nat \<Rightarrow> nat" where
  "nbase_lead n = n div 10000 ^ (nbase_digits n - 1)"

definition div_scale :: "nat \<Rightarrow> nat \<Rightarrow> nat" where
  "div_scale n d = (let w = (int (nbase_digits n) - 1 - 4) - (int (nbase_digits d) - 1 - 2);
       qweight = (if nbase_lead n \<le> nbase_lead d then w - 1 else w)
     in nat (max (16 - 4 * qweight) 16))"

definition round_half_up :: "nat \<Rightarrow> nat \<Rightarrow> nat" where
  "round_half_up n d = (2 * n + d) div (2 * d)"

definition numeric_div :: "nat \<Rightarrow> nat \<Rightarrow> nat" where
  "numeric_div n d = (let s = div_scale n d in
     round_half_up (round_half_up (n * 10 ^ (s - 8)) d) (10 ^ (s - 8)))"

definition average_price :: "numeric \<Rightarrow> numeric \<Rightarrow> numeric \<Rightarrow> numeric \<Rightarrow> numeric" where
  "average_price q0 a0 q p = int (numeric_div (nat (q0 * a0 + q * p)) (nat (q0 + q)))"

definition upsert_holding :: "int \<Rightarrow> int \<Rightarrow> numeric \<Rightarrow> numeric \<Rightarrow> tables \<Rightarrow> tables" where
  "upsert_holding u a q p d = d\<lparr>portfolios :=
     (if list_ex (holding_key u a) (portfolios d)
      then upd_where (holding_key u a) (\<lambda>h. h\<lparr>h_Quantity := h_Quantity h + q,
             h_AverageBuyPrice := average_price (h_Quantity h) (h_AverageBuyPrice h) q p\<rparr>) (portfolios d)
      else portfolios d @ [\<lparr>h_UserID = u, h_AssetID = a, h_Quantity = q, h_AverageBuyPrice = p\<rparr>])\<rparr>"

definition UpsertBuyerHolding :: "int \<Rightarrow> int \<Rightarrow> string \<Rightarrow> string \<Rightarrow> unit io" where
  "UpsertBuyerHolding userID assetID qty tradePrice = wrapE ''upsert buyer holding'' (sql
     (bindE get_db (\<lambda>d.
      bindE (to_numeric qty) (\<lambda>q.
      bindE (to_numeric tradePrice) (\<lambda>p.
        if q < 0 then raise (check_violation ''portfolios_quantity_check'')
        else if p < 0 then raise (check_violation ''portfolios_average_buy_price_check'')
        else case find (holding_key userID assetID) (portfolios d) of
          None \<Rightarrow>
            if \<not> list_ex (\<lambda>u. u_ID u = userID) (users d) then raise (fk_violation ''portfolios_user_id_fkey'')
            else if \<not> list_ex (\<lambda>a. a_ID a = assetID) (assets d) then raise (fk_violation ''portfolios_asset_id_fkey'')
            else put_db (upsert_holding userID assetID q p d)
        | Some h \<Rightarrow>
            if h_Quantity h + q = 0 then raise (DBError ''pq: division by zero'')
            else if \<not> numeric_fits (h_Quantity h + q) then raise (DBError ''pq: numeric field overflow'')
            else put_db (upsert_holding userID assetID q p d))))))"

definition reduce_holding :: "int \<Rightarrow> int \<Rightarrow> numeric \<Rightarrow> tables \<Rightarrow> tables" where
  "reduce_holding u a q d = d\<lparr>portfolios :=
     upd_where (holding_key u a) (\<lambda>h. h\<lparr>h_Quantity := h_Quantity h - q\<rparr>) (portfolios d)\<rparr>"

text \<open>The number of rows is not looked at: without a holding nothing happens.\<close>

definition ReduceSellerHolding :: "int \<Rightarrow> int \<Rightarrow> string \<Rightarrow> unit io" where
  "ReduceSellerHolding userID assetID qty = wrapE ''reduce seller holding'' (sql
     (bindE get_db (\<lambda>d.
      bindE (to_numeric qty) (\<lambda>q.
        case find (holding_key userID assetID) (portfolios d) of
          None \<Rightarrow> ret ()
        | Some h \<Rightarrow>
            if h_Quantity h - q < 0 then raise (check_violation ''portfolios_quantity_check'')
            else if \<not> numeric_fits (h_Quantity h - q) then raise (DBError ''pq: numeric field overflow'')
            else put_db (reduce_holding userID assetID q d)))))"

definition ListHoldings :: "int \<Rightarrow> string portfolio_holding list io" where
  "ListHoldings userID = wrapE ''list portfolio holdings'' (sql
     (bindE get_db (\<lambda>d. ret (map scan_holding (filter (\<lambda>h. h_UserID h = userID) (portfolios d))))))"

section \<open>Service\<close>

definition GetMyPortfolio :: "int \<Rightarrow> string portfolio_holding list io" where
  "GetMyPortfolio userID = ListHoldings userID"

section \<open>The average\<close>

lemma round_half_up_bounds:
  assumes "0 < d" and "lo * d \<le> n" and "n \<le> hi * d"
  shows "lo \<le> round_half_up n d \<and> round_half_up n d \<le> hi"
proof
  have "lo * (2 * d) \<le> 2 * n + d" using assms(2) by simp
  then show "lo \<le> round_half_up n d" unfolding round_half_up_def using assms(1) by (simp add: less_eq_div_iff_mult_less_eq)
  have "2 * n + d < (hi + 1) * (2 * d)" using assms(1,3) by simp
  then show "round_half_up n d \<le> hi"
    unfolding round_half_up_def using assms(1) by (metis Suc_eq_plus1 less_Suc_eq_le less_mult_imp_div_less)
qed

lemma numeric_div_bounds:
  assumes "0 < d" and "lo * d \<le> n" and "n \<le> hi * d"
  shows "lo \<le> numeric_div n d \<and> numeric_div n d \<le> hi"
proof -
  define t :: nat where "t = 10 ^ (div_scale n d - 8)"
  have t: "0 < t" by (simp add: t_def)
  have "lo * t * d \<le> n * t" "n * t \<le> hi * t * d" using assms(2,3) by (simp_all add: mult.commute mult.left_commute)
  from round_half_up_bounds [OF assms(1) this] round_half_up_bounds [OF t]
  show ?thesis unfolding numeric_div_def Let_def t_def [symmetric] by blast
qed

lemma average_price_between:
  assumes "0 \<le> q0" and "0 \<le> a0" and "0 \<le> q" and "0 \<le> p" and "0 < q0 + q"
  shows "min a0 p \<le> average_price q0 a0 q p \<and> average_price q0 a0 q p \<le> max a0 p"
proof -
  have nn: "0 \<le> q0 * a0 + q * p" using assms by simp
  have "min a0 p * q0 \<le> a0 * q0" "min a0 p * q \<le> p * q" "a0 * q0 \<le> max a0 p * q0" "p * q \<le> max a0 p * q"
    using assms by (auto intro: mult_right_mono)
  then have b: "min a0 p * (q0 + q) \<le> q0 * a0 + q * p" "q0 * a0 + q * p \<le> max a0 p * (q0 + q)"
    by (simp_all add: algebra_simps)
  have "nat (min a0 p) * nat (q0 + q) \<le> nat (q0 * a0 + q * p)" "nat (q0 * a0 + q * p) \<le> nat (max a0 p) * nat (q0 + q)"
    using b nn assms by (simp_all add: nat_le_iff flip: nat_mult_distrib)
  from numeric_div_bounds [OF _ this] assms show ?thesis by (simp add: average_price_def nat_le_iff le_nat_iff)
qed

section \<open>Holdings as a function\<close>

definition holding_of :: "tables \<Rightarrow> int \<Rightarrow> int \<Rightarrow> numeric" where
  "holding_of d u a = (case find (holding_key u a) (portfolios d) of None \<Rightarrow> 0 | Some h \<Rightarrow> h_Quantity h)"

definition total_holding :: "tables \<Rightarrow> int \<Rightarrow> numeric" where
  "total_holding d a = sum_list (map (\<lambda>h. if h_AssetID h = a then h_Quantity h else 0) (portfolios d))"

abbreviation hkey :: "'n portfolio_holding \<Rightarrow> int \<times> int" where
  "hkey h \<equiv> (h_UserID h, h_AssetID h)"

lemma holding_key_hkey: "holding_key u a = (\<lambda>h. hkey h = (u, a))"
  by (auto simp: holding_key_def fun_eq_iff)

lemma find_upd_holding:
  assumes "\<And>h. hkey (f h) = hkey h"
  shows "find (holding_key u' a') (upd_where (holding_key u a) f hs) =
     map_option (\<lambda>h. if u' = u \<and> a' = a then f h else h) (find (holding_key u' a') hs)"
  using assms by (induction hs) (auto simp: holding_key_def)

lemma find_list_ex: "list_ex p xs \<longleftrightarrow> (\<exists>x. find p xs = Some x)"
  by (induction xs) auto

lemma holding_of_upsert:
  "holding_of (upsert_holding u a q p d) u' a' = holding_of d u' a' + (if u' = u \<and> a' = a then q else 0)"
proof (cases "list_ex (holding_key u a) (portfolios d)")
  case True
  then show ?thesis
    by (auto simp: holding_of_def upsert_holding_def find_upd_holding find_list_ex split: option.split)
next
  case False
  have "find P (xs @ [x]) = (case find P xs of None \<Rightarrow> if P x then Some x else None | Some y \<Rightarrow> Some y)" for P :: "numeric portfolio_holding \<Rightarrow> bool" and xs x
    by (induction xs) auto
  with False show ?thesis
    by (auto simp: holding_of_def upsert_holding_def holding_key_def find_list_ex split: option.split)
qed

lemma holding_of_reduce:
  "list_ex (holding_key u a) (portfolios d) \<Longrightarrow>
   holding_of (reduce_holding u a q d) u' a' = holding_of d u' a' - (if u' = u \<and> a' = a then q else 0)"
  by (auto simp: holding_of_def reduce_holding_def find_upd_holding find_list_ex split: option.split)

lemma sum_upd_holding:
  assumes "distinct (map hkey hs)" and "find (holding_key u a) hs = Some h" and "g (f h) = g h + (k :: int)"
  shows "sum_list (map g (upd_where (holding_key u a) f hs)) = sum_list (map g hs) + k"
  using sum_list_upd_key [of hkey hs "(u, a)" h g f] assms unfolding holding_key_hkey by simp

lemma total_holding_upsert:
  assumes "portfolios_ok d"
  shows "total_holding (upsert_holding u a q p d) a' = total_holding d a' + (if a' = a then q else 0)"
proof (cases "find (holding_key u a) (portfolios d)")
  case None
  then show ?thesis by (simp add: total_holding_def upsert_holding_def find_list_ex)
next
  case (Some h)
  moreover from Some have "h_AssetID h = a" by (auto dest: find_SomeD simp: holding_key_def)
  ultimately show ?thesis using assms
    by (auto simp: total_holding_def upsert_holding_def find_list_ex portfolios_ok_def intro!: sum_upd_holding
        intro: sum_upd_holding [of _ _ _ _ _ _ 0, simplified])
qed

lemma total_holding_reduce:
  assumes "portfolios_ok d" and "list_ex (holding_key u a) (portfolios d)"
  shows "total_holding (reduce_holding u a q d) a' = total_holding d a' - (if a' = a then q else 0)"
proof -
  obtain h where h: "find (holding_key u a) (portfolios d) = Some h" using assms(2) by (auto simp: find_list_ex)
  then have "h_AssetID h = a" by (auto dest: find_SomeD simp: holding_key_def)
  with h assms(1) sum_upd_holding [of "portfolios d" u a h "\<lambda>h. if h_AssetID h = a' then h_Quantity h else 0"
      "\<lambda>h. h\<lparr>h_Quantity := h_Quantity h - q\<rparr>" "- (if a' = a then q else 0)"]
  show ?thesis by (simp add: total_holding_def reduce_holding_def portfolios_ok_def)
qed

section \<open>The repository keeps the constraints\<close>

lemma portfolio_frame [simp]:
  "users (upsert_holding u a q p d) = users d" "wallets (upsert_holding u a q p d) = wallets d"
  "wallet_transactions (upsert_holding u a q p d) = wallet_transactions d" "assets (upsert_holding u a q p d) = assets d"
  "orders (upsert_holding u a q p d) = orders d" "trades (upsert_holding u a q p d) = trades d"
  "audit_logs (upsert_holding u a q p d) = audit_logs d"
  "users (reduce_holding u a q d) = users d" "wallets (reduce_holding u a q d) = wallets d"
  "wallet_transactions (reduce_holding u a q d) = wallet_transactions d" "assets (reduce_holding u a q d) = assets d"
  "orders (reduce_holding u a q d) = orders d" "trades (reduce_holding u a q d) = trades d"
  "audit_logs (reduce_holding u a q d) = audit_logs d"
  by (simp_all add: upsert_holding_def reduce_holding_def)

lemma schema_ok_portfolios:
  assumes "schema_ok d s" and "portfolios_ok d'" and "portfolio_refs d'"
    and "users d' = users d" "wallets d' = wallets d" "wallet_transactions d' = wallet_transactions d"
      "assets d' = assets d" "orders d' = orders d" "trades d' = trades d" "audit_logs d' = audit_logs d"
  shows "schema_ok d' s"
  using assms by (simp add: schema_ok_def users_ok_def wallets_ok_def transactions_ok_def assets_ok_def orders_ok_def trades_ok_def audit_ok_def)

lemma portfolio_refs_upd:
  "portfolio_refs d \<Longrightarrow> (\<And>h. hkey (f h) = hkey h) \<Longrightarrow> portfolio_refs (d\<lparr>portfolios := upd_where P f (portfolios d)\<rparr>)"
  by (auto simp: portfolio_refs_def set_upd_where)

lemma portfolios_ok_upd:
  assumes "portfolios_ok d" and "\<And>h. hkey (f h) = hkey h" and "\<And>h. h \<in> set (portfolios d) \<Longrightarrow> P h \<Longrightarrow>
      0 \<le> h_Quantity (f h) \<and> numeric_fits (h_Quantity (f h)) \<and> 0 \<le> h_AverageBuyPrice (f h) \<and> numeric_fits (h_AverageBuyPrice (f h))"
  shows "portfolios_ok (d\<lparr>portfolios := upd_where P f (portfolios d)\<rparr>)"
proof -
  have "map hkey (upd_where P f (portfolios d)) = map hkey (portfolios d)"
    using assms(2) by (rule map_upd_where_same)
  with assms(1,3) show ?thesis by (auto simp: portfolios_ok_def set_upd_where)
qed

lemma upsert_holding_ok:
  assumes "schema_ok d s" and "0 \<le> q" "numeric_fits q" "0 \<le> p" "numeric_fits p"
    and "\<And>h. find (holding_key u a) (portfolios d) = Some h \<Longrightarrow> h_Quantity h + q \<noteq> 0 \<and> numeric_fits (h_Quantity h + q)"
    and "find (holding_key u a) (portfolios d) = None \<Longrightarrow> list_ex (\<lambda>r. u_ID r = u) (users d) \<and> list_ex (\<lambda>r. a_ID r = a) (assets d)"
  shows "schema_ok (upsert_holding u a q p d) s"
proof (rule schema_ok_portfolios [OF assms(1)])
  have ok: "portfolios_ok d" using assms(1) by (simp add: schema_ok_def)
  show "portfolios_ok (upsert_holding u a q p d)"
  proof (cases "find (holding_key u a) (portfolios d)")
    case None
    then have "(u, a) \<notin> hkey ` set (portfolios d)" by (auto simp: find_None_iff_set holding_key_def)
    with None ok assms(2-5) show ?thesis by (auto simp: portfolios_ok_def upsert_holding_def find_list_ex)
  next
    case (Some h)
    have "0 \<le> h_Quantity k + q \<and> numeric_fits (h_Quantity k + q)
        \<and> 0 \<le> average_price (h_Quantity k) (h_AverageBuyPrice k) q p
        \<and> numeric_fits (average_price (h_Quantity k) (h_AverageBuyPrice k) q p)"
      if k: "k \<in> set (portfolios d)" "holding_key u a k" for k
    proof -
      have "k = h" using find_key_unique [of hkey "portfolios d" k h] find_SomeD [OF Some] k ok
        by (auto simp: holding_key_def portfolios_ok_def)
      moreover have "0 \<le> h_Quantity k" "0 \<le> h_AverageBuyPrice k" "numeric_fits (h_AverageBuyPrice k)"
        using k(1) ok by (auto simp: portfolios_ok_def)
      ultimately show ?thesis using average_price_between [of "h_Quantity k" "h_AverageBuyPrice k" q p] assms(2-5) assms(6) [OF Some]
        by (auto simp: numeric_fits_def)
    qed
    with Some ok show ?thesis by (simp add: upsert_holding_def find_list_ex portfolios_ok_upd)
  qed
  have refs: "portfolio_refs d" using assms(1) by (simp add: schema_ok_def)
  show "portfolio_refs (upsert_holding u a q p d)"
  proof (cases "find (holding_key u a) (portfolios d)")
    case None
    from assms(7) [OF this] have "u \<in> u_ID ` set (users d)" "a \<in> a_ID ` set (assets d)" by (force simp: list_ex_iff)+
    with None refs show ?thesis by (auto simp: portfolio_refs_def upsert_holding_def find_list_ex)
  qed (use refs in \<open>simp add: upsert_holding_def find_list_ex portfolio_refs_upd\<close>)
qed simp_all

lemma reduce_holding_ok:
  assumes "schema_ok d s" and "\<And>h. find (holding_key u a) (portfolios d) = Some h \<Longrightarrow> 0 \<le> h_Quantity h - q \<and> numeric_fits (h_Quantity h - q)"
  shows "schema_ok (reduce_holding u a q d) s"
proof (rule schema_ok_portfolios [OF assms(1)])
  have ok: "portfolios_ok d" using assms(1) by (simp add: schema_ok_def)
  have "0 \<le> h_Quantity k - q \<and> numeric_fits (h_Quantity k - q) \<and> 0 \<le> h_AverageBuyPrice k \<and> numeric_fits (h_AverageBuyPrice k)"
    if "k \<in> set (portfolios d)" "holding_key u a k" for k
    using that assms(2) [of k] ok find_key [of hkey "portfolios d" k] by (auto simp: holding_key_hkey portfolios_ok_def)
  then show "portfolios_ok (reduce_holding u a q d)"
    unfolding reduce_holding_def by (intro portfolios_ok_upd ok) auto
  show "portfolio_refs (reduce_holding u a q d)"
    using assms(1) unfolding reduce_holding_def by (intro portfolio_refs_upd) (auto simp: schema_ok_def)
qed simp_all

lemma UpsertBuyerHolding_preserves: "preserves schema_ok (UpsertBuyerHolding u a q p)"
  unfolding UpsertBuyerHolding_def
  by (intro preserves_wrapE preserves_sql)
    (auto simp: preserves_def monad_defs split: option.splits if_splits intro!: upsert_holding_ok intro: numeric_in_fits)

lemma ReduceSellerHolding_preserves: "preserves schema_ok (ReduceSellerHolding u a q)"
  unfolding ReduceSellerHolding_def
  by (intro preserves_wrapE preserves_sql)
    (auto simp: preserves_def monad_defs split: option.splits if_splits intro!: reduce_holding_ok)

lemma GetHolding_preserves: "preserves I (GetHolding u a)"
  unfolding GetHolding_def
  by (intro preserves_bindE preserves_wrapE preserves_sql preserves_cases preserves_get_db preserves_ret preserves_raise)

lemma portfolio_repo_oblivious:
  "oblivious (GetHolding u a)" "oblivious (UpsertBuyerHolding u a q p)" "oblivious (ReduceSellerHolding u a q)"
  unfolding GetHolding_def UpsertBuyerHolding_def ReduceSellerHolding_def by (intro oblivious_rules)+

lemma portfolio_repo_db_only:
  "db_only (GetHolding u a)" "db_only (UpsertBuyerHolding u a q p)" "db_only (ReduceSellerHolding u a q)"
  unfolding GetHolding_def UpsertBuyerHolding_def ReduceSellerHolding_def by (intro db_only_rules)+

section \<open>Behaviour\<close>

lemma GetHolding_eval:
  "faults w = [] \<Longrightarrow> GetHolding u a w =
     (case find (holding_key u a) (portfolios (db w)) of None \<Rightarrow> Inl ErrPortfolioNotFound | Some h \<Rightarrow> Inr (scan_holding h), w)"
  by (simp add: GetHolding_def monad_defs split: option.splits)

lemma UpsertBuyerHolding_eval:
  assumes "faults w = []" and "numeric_in qs = Some q" and "numeric_in ps = Some p" and "0 < q" and "0 \<le> p"
    and "u \<in> u_ID ` set (users (db w))" and "a \<in> a_ID ` set (assets (db w))"
    and "schema_ok (db w) (seqs w)" and "numeric_fits (holding_of (db w) u a + q)"
  shows "UpsertBuyerHolding u a qs ps w = (Inr (), w\<lparr>db := upsert_holding u a q p (db w)\<rparr>)"
proof -
  have "list_ex (\<lambda>x. u_ID x = u) (users (db w))" "list_ex (\<lambda>x. a_ID x = a) (assets (db w))"
    using assms(6,7) by (auto simp: list_ex_iff)
  moreover have "h_Quantity h + q \<noteq> 0" if "find (holding_key u a) (portfolios (db w)) = Some h" for h
    using find_SomeD [OF that] assms(4,8) by (fastforce simp: schema_ok_def portfolios_ok_def)
  ultimately show ?thesis using assms
    by (auto simp: UpsertBuyerHolding_def monad_defs holding_of_def split: option.splits)
qed

lemma ReduceSellerHolding_eval:
  assumes "faults w = []" and "numeric_in qs = Some q" and "0 \<le> q" and "q \<le> holding_of (db w) u a"
    and "schema_ok (db w) (seqs w)" and "list_ex (holding_key u a) (portfolios (db w))"
  shows "ReduceSellerHolding u a qs w = (Inr (), w\<lparr>db := reduce_holding u a q (db w)\<rparr>)"
proof -
  obtain h where h: "find (holding_key u a) (portfolios (db w)) = Some h" using assms(6) by (auto simp: find_list_ex)
  then have "numeric_fits (h_Quantity h)" using assms(5) by (auto dest!: find_SomeD simp: schema_ok_def portfolios_ok_def)
  then have "numeric_fits (h_Quantity h - q)" using assms(3,4) h by (auto simp: numeric_fits_def holding_of_def)
  with h assms(1-4) show ?thesis
    by (simp add: ReduceSellerHolding_def monad_defs holding_of_def)
qed

lemma ReduceSellerHolding_short:
  assumes "faults w = []" and "numeric_in qs = Some q" and "find (holding_key u a) (portfolios (db w)) = Some h"
    and "h_Quantity h < q"
  shows "\<exists>e. ReduceSellerHolding u a qs w = (Inl e, w)"
  using assms by (simp add: ReduceSellerHolding_def monad_defs check_violation_def is_panic_def)

text \<open>
  Property C31. A purchase adds exactly the quantity bought to the holding of the buyer, and to no
  other; the average buy price stays between the old average and the price paid, whatever the
  rounding of the SQL division does.
\<close>

theorem UpsertBuyerHolding_correct:
  assumes "schema_ok (db w) (seqs w)" and "faults w = []" and "numeric_in qs = Some q" and "numeric_in ps = Some p"
    and "0 < q" and "0 \<le> p" and "find (holding_key u a) (portfolios (db w)) = Some h"
    and "numeric_fits (h_Quantity h + q)" and "u \<in> u_ID ` set (users (db w))" and "a \<in> a_ID ` set (assets (db w))"
  shows "\<exists>w' h'. UpsertBuyerHolding u a qs ps w = (Inr (), w')
    \<and> (\<forall>u' a'. holding_of (db w') u' a' = holding_of (db w) u' a' + (if u' = u \<and> a' = a then q else 0))
    \<and> find (holding_key u a) (portfolios (db w')) = Some h'
    \<and> min (h_AverageBuyPrice h) p \<le> h_AverageBuyPrice h' \<and> h_AverageBuyPrice h' \<le> max (h_AverageBuyPrice h) p"
proof -
  have "0 \<le> h_Quantity h" "0 \<le> h_AverageBuyPrice h"
    using assms(1,7) by (auto dest!: find_SomeD simp: schema_ok_def portfolios_ok_def)
  then have b: "min (h_AverageBuyPrice h) p \<le> average_price (h_Quantity h) (h_AverageBuyPrice h) q p
      \<and> average_price (h_Quantity h) (h_AverageBuyPrice h) q p \<le> max (h_AverageBuyPrice h) p"
    using assms(5,6) by (intro average_price_between) auto
  have "UpsertBuyerHolding u a qs ps w = (Inr (), w\<lparr>db := upsert_holding u a q p (db w)\<rparr>)"
    using assms by (intro UpsertBuyerHolding_eval) (auto simp: holding_of_def)
  moreover have "find (holding_key u a) (portfolios (upsert_holding u a q p (db w))) =
      Some (h\<lparr>h_Quantity := h_Quantity h + q,
              h_AverageBuyPrice := average_price (h_Quantity h) (h_AverageBuyPrice h) q p\<rparr>)"
    using assms(7) by (simp add: upsert_holding_def find_list_ex find_upd_holding)
  ultimately show ?thesis using b by (auto simp: holding_of_upsert)
qed

theorem UpsertBuyerHolding_correct_witness:
  "\<exists>w'. UpsertBuyerHolding 2 1 ''1.00000000'' ''7.00000000'' ex_world = (Inr (), w') \<and> holding_of (db w') 2 1 = 600000000"
proof -
  have "numeric_in ''1.00000000'' = Some 100000000" "numeric_in ''7.00000000'' = Some 700000000" by code_simp+
  moreover have "find (holding_key 2 1) (portfolios (db ex_world)) =
      Some \<lparr>h_UserID = 2, h_AssetID = 1, h_Quantity = 5 * unit8, h_AverageBuyPrice = 0\<rparr>"
    by (simp add: ex_defs holding_key_def)
  moreover have "holding_of (db ex_world) 2 1 = 500000000" by (simp add: holding_of_def ex_defs holding_key_def)
  moreover have "2 \<in> u_ID ` set (users (db ex_world))" "1 \<in> a_ID ` set (assets (db ex_world))" by (simp_all add: ex_defs)
  ultimately show ?thesis
    using UpsertBuyerHolding_correct [OF ex_world_ok ex_world_quiet, of "''1.00000000''" 100000000 "''7.00000000''" 700000000 2 1]
    by (auto simp: numeric_fits_def unit8_def)
qed

end
