(* ===== verification/Asset.thy ===== *)
theory Asset
  imports Example
begin

text \<open>
  internal/asset, as far as placing orders needs it: reading an asset (asset_repository.go).
\<close>

definition asset_GetByID :: "int \<Rightarrow> string asset io" where
  "asset_GetByID i =
     bindE (wrapE ''asset get by id'' (sql (bindE get_db (\<lambda>d. ret (find (\<lambda>r. a_ID r = i) (assets d))))))
       (\<lambda>r. case r of None \<Rightarrow> raise ErrAssetNotFound | Some r \<Rightarrow> ret (scan_asset r))"

lemma asset_GetByID_preserves: "preserves I (asset_GetByID i)"
  unfolding asset_GetByID_def by (intro preserves_rules)

lemma asset_GetByID_db_only: "db_only (asset_GetByID i)"
  unfolding asset_GetByID_def by (intro db_only_rules)

lemma asset_GetByID_oblivious: "oblivious (asset_GetByID i)"
  unfolding asset_GetByID_def by (intro oblivious_rules)

lemma asset_GetByID_eval:
  "faults w = [] \<Longrightarrow> asset_GetByID i w =
     (case find (\<lambda>r. a_ID r = i) (assets (db w)) of None \<Rightarrow> Inl ErrAssetNotFound | Some r \<Rightarrow> Inr (scan_asset r), w)"
  by (simp add: asset_GetByID_def monad_defs split: option.splits)

end
