(* ===== verification/Order.thy ===== *)
theory Order
  imports Wallet Portfolio Asset
begin

text \<open>
  internal/order: the orders (order_repository.go) and the service that places, cancels and lists
  them (order_service.go). Placing checks the asset and the funds or the holding, inserts the order
  and hands it to the queue of the matching engine; an idempotency key makes a repeated request
  return the order of the first one.
\<close>

section \<open>Repository\<close>

text \<open>The loop of \<^verbatim>\<open>containsStr\<close>: compare at every position.\<close>

definition containsStr :: "string \<Rightarrow> string \<Rightarrow> bool" where
  "containsStr s sub = (if length sub > length s then False
     else list_ex (\<lambda>i. take (length sub) (drop i s) = sub) [0 ..< length s - length sub + 1])"

definition isDuplicateKeyErr :: "error \<Rightarrow> bool" where
  "isDuplicateKeyErr err = (let msg = error_text err in
     containsStr msg ''23505'' \<or> containsStr msg ''idx_orders_idempotency_key'' \<or> containsStr msg ''unique constraint'')"

definition order_Create :: "string order \<Rightarrow> string order io" where
  "order_Create o1 = mapE (\<lambda>e. if isDuplicateKeyErr e then ErrDuplicateIdempotencyKey else Wrapf ''order create'' e) (sql
     (bindE (nextval ''orders'') (\<lambda>i.
      bindE get_db (\<lambda>d.
      bindE time_now (\<lambda>t.
      bindE (to_numeric (o_Price o1)) (\<lambda>p.
      bindE (to_numeric (o_Quantity o1)) (\<lambda>q.
        if (case o_IdempotencyKey o1 of None \<Rightarrow> False | Some k \<Rightarrow> char_length k > 255)
        then raise (DBError ''pq: value too long for type character varying(255)'')
        else if p \<le> 0 then raise (check_violation ''orders_price_check'')
        else if q \<le> 0 then raise (check_violation ''orders_quantity_check'')
        else if o_IdempotencyKey o1 \<noteq> None \<and>
                list_ex (\<lambda>r. o_UserID r = o_UserID o1 \<and> o_IdempotencyKey r = o_IdempotencyKey o1) (orders d)
        then raise (unique_violation ''idx_orders_idempotency_key'')
        else if \<not> list_ex (\<lambda>u. u_ID u = o_UserID o1) (users d) then raise (fk_violation ''orders_user_id_fkey'')
        else if \<not> list_ex (\<lambda>a. a_ID a = o_AssetID o1) (assets d) then raise (fk_violation ''orders_asset_id_fkey'')
        else let r = \<lparr>o_ID = i, o_UserID = o_UserID o1, o_AssetID = o_AssetID o1, o_Side = o_Side o1, o_Type = o_Type o1,
               o_Price = p, o_Quantity = q, o_FilledQuantity = 0, o_RemainingQuantity = q - 0, o_Status = o_Status o1,
               o_IdempotencyKey = o_IdempotencyKey o1, o_CreatedAt = t, o_UpdatedAt = t\<rparr>
          in bindE (put_db (d\<lparr>orders := orders d @ [r]\<rparr>)) (\<lambda>_. ret (scan_order r)))))))))"

definition order_GetByID :: "int \<Rightarrow> string order io" where
  "order_GetByID i =
     bindE (wrapE ''order get by id'' (sql (bindE get_db (\<lambda>d. ret (find (\<lambda>r. o_ID r = i) (orders d))))))
       (\<lambda>r. case r of None \<Rightarrow> raise ErrOrderNotFound | Some r \<Rightarrow> ret (scan_order r))"

definition GetByIDForUpdate :: "int \<Rightarrow> string order io" where
  "GetByIDForUpdate i =
     bindE (wrapE ''order get for update'' (sql (bindE get_db (\<lambda>d. ret (find (\<lambda>r. o_ID r = i) (orders d))))))
       (\<lambda>r. case r of None \<Rightarrow> raise ErrOrderNotFound | Some r \<Rightarrow> ret (scan_order r))"

definition set_status :: "int \<Rightarrow> string \<Rightarrow> int \<Rightarrow> tables \<Rightarrow> tables" where
  "set_status i st t d = d\<lparr>orders := upd_where (\<lambda>r. o_ID r = i) (\<lambda>r. r\<lparr>o_Status := st, o_UpdatedAt := t\<rparr>) (orders d)\<rparr>"

definition UpdateStatus :: "int \<Rightarrow> string \<Rightarrow> unit io" where
  "UpdateStatus i status = wrapE ''order update status'' (sql
     (bindE get_db (\<lambda>d. bindE time_now (\<lambda>t. put_db (set_status i status t d)))))"

text \<open>\<^verbatim>\<open>remaining_quantity\<close> is generated: it follows the new \<^verbatim>\<open>filled_quantity\<close>.\<close>

definition add_fill :: "int \<Rightarrow> numeric \<Rightarrow> string \<Rightarrow> int \<Rightarrow> tables \<Rightarrow> tables" where
  "add_fill i n st t d = d\<lparr>orders := upd_where (\<lambda>r. o_ID r = i) (\<lambda>r. r\<lparr>o_FilledQuantity := o_FilledQuantity r + n,
     o_RemainingQuantity := o_Quantity r - (o_FilledQuantity r + n), o_Status := st, o_UpdatedAt := t\<rparr>) (orders d)\<rparr>"

definition UpdateFill :: "int \<Rightarrow> string \<Rightarrow> string \<Rightarrow> unit io" where
  "UpdateFill i addFilled newStatus = wrapE ''order update fill'' (sql
     (bindE get_db (\<lambda>d.
      bindE time_now (\<lambda>t.
      bindE (to_numeric addFilled) (\<lambda>n.
        case find (\<lambda>r. o_ID r = i) (orders d) of
          None \<Rightarrow> ret ()
        | Some r \<Rightarrow>
            if \<not> numeric_fits (o_FilledQuantity r + n) then raise (DBError ''pq: numeric field overflow'')
            else if \<not> o_FilledQuantity r + n \<le> o_Quantity r then raise (check_violation ''orders_check'')
            else put_db (add_fill i n newStatus t d))))))"

text \<open>
  The open orders of one side of the book: by price, the best for the other side first, then by
  time; of equal price and time in table order here, which the query leaves open.
\<close>

definition open_orders :: "int \<Rightarrow> string \<Rightarrow> tables \<Rightarrow> numeric order list" where
  "open_orders assetID side d =
     (let rs = filter (\<lambda>r. o_AssetID r = assetID \<and> o_Side r = side
                          \<and> (o_Status r = ''PENDING'' \<or> o_Status r = ''PARTIALLY_FILLED'')) (orders d)
      in sort_key (\<lambda>r. if side = OrderSideBuy then - o_Price r else o_Price r) (sort_key o_CreatedAt rs))"

definition GetOpenOrdersForMatching :: "int \<Rightarrow> string \<Rightarrow> string order list io" where
  "GetOpenOrdersForMatching assetID side = wrapE ''get open orders for matching'' (sql
     (bindE get_db (\<lambda>d. ret (map scan_order (open_orders assetID side d)))))"

definition GetByIdempotencyKey :: "int \<Rightarrow> string \<Rightarrow> string order io" where
  "GetByIdempotencyKey userID key =
     bindE (wrapE ''order get by idempotency key'' (sql (bindE get_db (\<lambda>d.
         ret (find (\<lambda>r. o_UserID r = userID \<and> o_IdempotencyKey r = Some key) (orders d))))))
       (\<lambda>r. case r of None \<Rightarrow> raise ErrOrderNotFound | Some r \<Rightarrow> ret (scan_order r))"

definition ListByUser :: "int \<Rightarrow> int \<Rightarrow> int \<Rightarrow> string order list io" where
  "ListByUser userID lmt off = wrapE ''order list by user'' (sql
     (bindE get_db (\<lambda>d.
      bindE (limit_offset lmt off (sort_key (\<lambda>r. - o_CreatedAt r) (filter (\<lambda>r. o_UserID r = userID) (orders d)))) (\<lambda>rs.
      ret (map scan_order rs)))))"

definition CountByUser :: "int \<Rightarrow> int io" where
  "CountByUser userID = wrapE ''order count'' (sql
     (bindE get_db (\<lambda>d. ret (int (length (filter (\<lambda>r. o_UserID r = userID) (orders d)))))))"

section \<open>Service\<close>

record PlaceOrderInput =
  pi_AssetID :: int
  pi_Side :: string
  pi_Price :: string
  pi_Quantity :: string
  pi_IdempotencyKey :: "string option"

definition order_runTx :: "'a io \<Rightarrow> 'a io" where
  "order_runTx fn = bindE (wrapE ''begin tx'' BeginTxx) (\<lambda>snap. inTx snap fn Commit)"

definition parsePosDecimal :: "string \<Rightarrow> big_float option" where
  "parsePosDecimal s = (case SetString 64 s of
     None \<Rightarrow> None
   | Some f \<Rightarrow> if Cmp f (new_float 0) \<le> 0 then None else Some f)"

definition mustParseBigFloat :: "string \<Rightarrow> big_float option" where
  "mustParseBigFloat s = SetString 64 s"

definition fmtDecimal :: "big_float \<Rightarrow> string" where
  "fmtDecimal f = fmt8f f"

definition checkWalletBalance :: "int \<Rightarrow> big_float \<Rightarrow> unit io" where
  "checkWalletBalance userID required =
     bindE (mapE (\<lambda>e. if errors_Is e ErrWalletNotFound then ErrOrderInsufficientFunds else Wrapf ''check wallet'' e)
              (GetByUserID userID)) (\<lambda>w.
     bindE (orPanic ''nil pointer dereference'' (mustParseBigFloat (w_Balance w))) (\<lambda>balance.
     check (\<not> Cmp balance required < 0) ErrOrderInsufficientFunds))"

definition checkAssetHolding :: "int \<Rightarrow> int \<Rightarrow> big_float \<Rightarrow> unit io" where
  "checkAssetHolding userID assetID qty =
     bindE (mapE (\<lambda>e. if errors_Is e ErrPortfolioNotFound then ErrOrderInsufficientHolding else Wrapf ''check holding'' e)
              (GetHolding userID assetID)) (\<lambda>h.
     bindE (orPanic ''nil pointer dereference'' (mustParseBigFloat (h_Quantity h))) (\<lambda>held.
     check (\<not> Cmp held qty < 0) ErrOrderInsufficientHolding))"

text \<open>The non-blocking send to the matching engine: a full queue drops the order.\<close>

definition enqueue :: "string order \<Rightarrow> unit io" where
  "enqueue placed = (\<lambda>w. (Inr (), if length (queue w) < queueCap w then w\<lparr>queue := queue w @ [placed]\<rparr> else w))"

definition publish_order :: "string \<Rightarrow> string order \<Rightarrow> unit io" where
  "publish_order kind p = (\<lambda>w. if kafkaProducer w then
     emit (PublishEvent ''order-events'' kind (OrderEventPayload
       \<lparr>oe_OrderID = o_ID p, oe_UserID = o_UserID p, oe_AssetID = o_AssetID p, oe_Side = o_Side p, oe_Type = o_Type p,
        oe_Price = o_Price p, oe_Quantity = o_Quantity p, oe_Status = o_Status p, oe_Timestamp = now w\<rparr>)) w else ret () w)"

text \<open>The checks before an order is created, and the order to create.\<close>

definition PlaceOrder_validate :: "int \<Rightarrow> PlaceOrderInput \<Rightarrow> string order io" where
  "PlaceOrder_validate userID input = (case parsePosDecimal (pi_Price input) of
     None \<Rightarrow> raise (ErrorString (''invalid price '' @ pi_Price input))
   | Some price \<Rightarrow> (case parsePosDecimal (pi_Quantity input) of
     None \<Rightarrow> raise (ErrorString (''invalid quantity '' @ pi_Quantity input))
   | Some qty \<Rightarrow>
       bindE (mapE (\<lambda>e. if errors_Is e ErrAssetNotFound then ErrAssetNotFound else Wrapf ''place order: get asset'' e)
                (asset_GetByID (pi_AssetID input))) (\<lambda>a.
       bindE (check (a_Status a = AssetStatusActive) ErrOrderAssetNotActive) (\<lambda>_.
       bindE (if pi_Side input = OrderSideBuy then
                bindE (orPanic ''big.ErrNaN'' (Mul 0 price qty)) (\<lambda>required. checkWalletBalance userID required)
              else if pi_Side input = OrderSideSell then checkAssetHolding userID (pi_AssetID input) qty
              else ret ()) (\<lambda>_.
       ret \<lparr>o_ID = 0, o_UserID = userID, o_AssetID = pi_AssetID input, o_Side = pi_Side input, o_Type = OrderTypeLimit,
            o_Price = fmtDecimal price, o_Quantity = fmtDecimal qty, o_FilledQuantity = [], o_RemainingQuantity = [],
            o_Status = OrderStatusPending, o_IdempotencyKey = pi_IdempotencyKey input, o_CreatedAt = zero_time,
            o_UpdatedAt = zero_time\<rparr>)))))"

definition PlaceOrder_insert :: "int \<Rightarrow> PlaceOrderInput \<Rightarrow> string order \<Rightarrow> string order io" where
  "PlaceOrder_insert userID input o1 = bindE (attempt (order_runTx (order_Create o1))) (\<lambda>r. case r of
     Inr placed \<Rightarrow>
       bindE (enqueue placed) (\<lambda>_.
       bindE (publish_order ''order.created'' placed) (\<lambda>_.
       ret placed))
   | Inl err \<Rightarrow>
       if errors_Is err ErrDuplicateIdempotencyKey then
         bindE (orPanic ''nil pointer dereference'' (pi_IdempotencyKey input)) (\<lambda>key.
         bindE (attempt (GetByIdempotencyKey userID key)) (\<lambda>r2. case r2 of
           Inr existing \<Rightarrow> ret existing
         | Inl _ \<Rightarrow> raise (Wrapf ''place order: insert'' err)))
       else raise (Wrapf ''place order: insert'' err))"

definition PlaceOrder_new :: "int \<Rightarrow> PlaceOrderInput \<Rightarrow> string order io" where
  "PlaceOrder_new userID input = bindE (PlaceOrder_validate userID input) (\<lambda>o1. PlaceOrder_insert userID input o1)"

definition PlaceOrder :: "int \<Rightarrow> PlaceOrderInput \<Rightarrow> string order io" where
  "PlaceOrder userID input = (case pi_IdempotencyKey input of
     Some key \<Rightarrow> if key \<noteq> [] then
       bindE (attempt (GetByIdempotencyKey userID key)) (\<lambda>r. case r of
         Inr existing \<Rightarrow> ret existing
       | Inl err \<Rightarrow> if \<not> errors_Is err ErrOrderNotFound then raise (Wrapf ''place order: idempotency lookup'' err)
                   else PlaceOrder_new userID input)
       else PlaceOrder_new userID input
   | None \<Rightarrow> PlaceOrder_new userID input)"

definition CancelOrder_tx :: "int \<Rightarrow> int \<Rightarrow> string order io" where
  "CancelOrder_tx userID orderID =
     bindE (mapE (\<lambda>e. if errors_Is e ErrOrderNotFound then ErrOrderNotFound else Wrapf ''cancel order: get'' e)
              (GetByIDForUpdate orderID)) (\<lambda>o1.
     bindE (check (o_UserID o1 = userID) ErrOrderNotOwned) (\<lambda>_.
     bindE (check (\<not> (o_Status o1 \<noteq> OrderStatusPending \<and> o_Status o1 \<noteq> OrderStatusPartiallyFilled)) ErrOrderNotCancellable) (\<lambda>_.
     bindE (UpdateStatus orderID OrderStatusCancelled) (\<lambda>_.
     ret (o1\<lparr>o_Status := OrderStatusCancelled\<rparr>)))))"

definition CancelOrder :: "int \<Rightarrow> int \<Rightarrow> string order io" where
  "CancelOrder userID orderID =
     bindE (order_runTx (CancelOrder_tx userID orderID)) (\<lambda>cancelled.
     bindE (publish_order ''order.cancelled'' cancelled) (\<lambda>_.
     ret cancelled))"

definition GetOrder :: "int \<Rightarrow> int \<Rightarrow> string order io" where
  "GetOrder userID orderID =
     bindE (mapE (\<lambda>e. if errors_Is e ErrOrderNotFound then ErrOrderNotFound else e) (order_GetByID orderID)) (\<lambda>o1.
     bindE (check (o_UserID o1 = userID) ErrOrderNotOwned) (\<lambda>_. ret o1))"

definition ListOrders :: "int \<Rightarrow> int \<Rightarrow> int \<Rightarrow> string order page io" where
  "ListOrders userID page0 pageSize0 =
     (let page = clampPage page0; pageSize = clampPageSize pageSize0; offset = pageOffset page pageSize in
     bindE (ListByUser userID pageSize offset) (\<lambda>os.
     bindE (CountByUser userID) (\<lambda>count.
     ret \<lparr>p_Data = os, p_Total = count, p_Page = page, p_PageSize = pageSize,
          p_TotalPages = totalPages count pageSize\<rparr>)))"

section \<open>The text of an error\<close>

lemma containsStr_sublist: "containsStr s sub \<longleftrightarrow> sublist sub s"
proof
  assume "containsStr s sub"
  then have "\<exists>i \<in> set [0 ..< length s - length sub + 1]. take (length sub) (drop i s) = sub"
    unfolding containsStr_def list_ex_iff by (simp only: split: if_splits)
  then obtain i where "take (length sub) (drop i s) = sub" by blast
  then have "s = take i s @ sub @ drop (length sub) (drop i s)" by (metis append_take_drop_id)
  then show "sublist sub s" unfolding sublist_def by blast
next
  assume "sublist sub s"
  then obtain a b where s: "s = a @ sub @ b" by (auto simp: sublist_def)
  then have "take (length sub) (drop (length a) s) = sub" "length a \<in> set [0 ..< length s - length sub + 1]" by auto
  then have "list_ex (\<lambda>i. take (length sub) (drop i s) = sub) [0 ..< length s - length sub + 1]"
    unfolding list_ex_iff by blast
  moreover have "\<not> length sub > length s" using s by simp
  ultimately show "containsStr s sub" unfolding containsStr_def by simp
qed

lemma duplicate_key_violation: "isDuplicateKeyErr (unique_violation c)"
proof -
  have "sublist ''unique constraint'' (''pq: duplicate key value violates unique constraint '' @ [CHR 0x22] @ c @ [CHR 0x22])"
    unfolding sublist_def by (rule exI [of _ "''pq: duplicate key value violates ''"], rule exI [of _ "'' '' @ [CHR 0x22] @ c @ [CHR 0x22]"]) simp
  then show ?thesis by (simp add: isDuplicateKeyErr_def unique_violation_def Let_def containsStr_sublist)
qed

section \<open>The repository keeps the constraints\<close>

interpretation order_tx: tx_runner order_runTx
proof -
  have "tx_runner (\<lambda>fn :: 'a io. bindE (wrapE ''begin tx'' BeginTxx) (\<lambda>snap. inTx snap fn Commit))"
    by (rule tx_runner_shape) (auto dest: Commit_Inr Commit_Inl)
  then show "tx_runner (order_runTx :: 'a io \<Rightarrow> 'a io)" unfolding order_runTx_def .
qed

lemma order_runTx_preserves: "preserves schema_ok fn \<Longrightarrow> preserves schema_ok (order_runTx fn)"
  unfolding order_runTx_def by (rule schema.preserves_runner) (auto dest: Commit_frame)

lemma order_runTx_db_only: "db_only fn \<Longrightarrow> db_only (order_runTx fn)"
  unfolding order_runTx_def by (intro db_only_bindE db_only_wrapE db_only_BeginTxx db_only_inTx db_only_Commit)

lemma new_order_ok:
  assumes "schema_ok d s" and "o_ID r = s ''orders''" and "order_row_ok r"
    and "list_ex (\<lambda>u. u_ID u = o_UserID r) (users d)" "list_ex (\<lambda>a. a_ID a = o_AssetID r) (assets d)"
    and "o_IdempotencyKey r \<noteq> None \<Longrightarrow>
      \<not> list_ex (\<lambda>x. o_UserID x = o_UserID r \<and> o_IdempotencyKey x = o_IdempotencyKey r) (orders d)"
  shows "schema_ok (d\<lparr>orders := orders d @ [r]\<rparr>) (s(''orders'' := s ''orders'' + 1))"
proof -
  have "o_ID x < o_ID r" if "x \<in> set (orders d)" for x using that assms(1,2) by (simp add: schema_ok_def orders_ok_def)
  then have "o_ID r \<notin> o_ID ` set (orders d)" by fastforce
  moreover have "o_UserID r \<in> u_ID ` set (users d)" "o_AssetID r \<in> a_ID ` set (assets d)"
    using assms(4,5) by (force simp: list_ex_iff)+
  moreover have "distinct (idempotency_keys (orders d @ [r]))"
    using assms(1,6) by (auto simp: schema_ok_def orders_ok_def idempotency_keys_def list_ex_iff)
  ultimately have "orders_ok (d\<lparr>orders := orders d @ [r]\<rparr>) (s(''orders'' := s ''orders'' + 1))"
    using assms(1-3) by (auto simp: schema_ok_def orders_ok_def)
  moreover have "trades_ok (d\<lparr>orders := orders d @ [r]\<rparr>) (s(''orders'' := s ''orders'' + 1))"
    using assms(1) by (auto simp: schema_ok_def trades_ok_def)
  ultimately show ?thesis using assms(1) by (simp add: schema_ok_def users_ok_def wallets_ok_def transactions_ok_def assets_ok_def portfolios_ok_def portfolio_refs_def audit_ok_def)
qed

text \<open>Updates of order rows that keep the keys and the row constraints.\<close>

lemma upd_orders_ok:
  assumes "schema_ok d s" and "\<And>r. P r \<Longrightarrow> o_ID (f r) = o_ID r \<and> o_UserID (f r) = o_UserID r \<and> o_AssetID (f r) = o_AssetID r
      \<and> o_IdempotencyKey (f r) = o_IdempotencyKey r"
    and "\<And>r. r \<in> set (orders d) \<Longrightarrow> P r \<Longrightarrow> order_row_ok (f r)"
  shows "schema_ok (d\<lparr>orders := upd_where P f (orders d)\<rparr>) s"
proof -
  let ?os = "upd_where P f (orders d)"
  have i: "map o_ID ?os = map o_ID (orders d)" using assms(2) by (intro map_upd_where_same) simp
  have k: "idempotency_keys (upd_where P f rs) = idempotency_keys rs" for rs
    using assms(2) by (induction rs) (auto simp: idempotency_keys_def)
  have "orders_ok (d\<lparr>orders := ?os\<rparr>) s"
    using assms i k by (auto simp: schema_ok_def orders_ok_def set_upd_where)
  moreover have "o_ID ` set ?os = o_ID ` set (orders d)" using i by (metis list.set_map)
  ultimately show ?thesis using assms(1)
    by (simp add: schema_ok_def users_ok_def wallets_ok_def transactions_ok_def assets_ok_def trades_ok_def portfolios_ok_def portfolio_refs_def audit_ok_def)
qed

lemma set_status_map:
  "set_status i st t d = d\<lparr>orders := map (\<lambda>r. if o_ID r = i then r\<lparr>o_Status := st, o_UpdatedAt := t\<rparr> else r) (orders d)\<rparr>"
  by (simp add: set_status_def upd_where_def)

lemma set_status_ok: "schema_ok d s \<Longrightarrow> schema_ok (set_status i st t d) s"
  unfolding set_status_def
  by (rule upd_orders_ok) (auto simp: schema_ok_def orders_ok_def order_row_ok_def)

lemma order_by_id:
  assumes "schema_ok d s" and "r \<in> set (orders d)" and "q \<in> set (orders d)" and "o_ID q = o_ID r"
  shows "q = r"
  using find_key_unique [of o_ID "orders d" q r] assms by (simp add: schema_ok_def orders_ok_def)

lemma add_fill_ok:
  assumes "schema_ok d s" and "find (\<lambda>r. o_ID r = i) (orders d) = Some r"
    and "numeric_fits (o_FilledQuantity r + n)" and "o_FilledQuantity r + n \<le> o_Quantity r"
  shows "schema_ok (add_fill i n st t d) s"
  unfolding add_fill_def
proof (rule upd_orders_ok [OF assms(1)])
  fix x assume "x \<in> set (orders d)" "o_ID x = i"
  moreover from this have "x = r" using order_by_id [OF assms(1), of r x] find_SomeD [OF assms(2)] by simp
  ultimately show "order_row_ok (x\<lparr>o_FilledQuantity := o_FilledQuantity x + n,
      o_RemainingQuantity := o_Quantity x - (o_FilledQuantity x + n), o_Status := st, o_UpdatedAt := t\<rparr>)"
    using assms by (auto simp: schema_ok_def orders_ok_def order_row_ok_def)
qed simp_all

lemma order_Create_preserves: "preserves schema_ok (order_Create o1)"
  unfolding order_Create_def
  by (intro preserves_mapE preserves_sql)
    (auto simp: preserves_def monad_defs Let_def order_row_ok_def split: if_splits option.splits
      intro!: new_order_ok intro: schema.mono numeric_in_fits)

lemma UpdateStatus_preserves: "preserves schema_ok (UpdateStatus i st)"
  unfolding UpdateStatus_def
  by (intro preserves_wrapE preserves_sql) (auto simp: preserves_def monad_defs intro: set_status_ok)

lemma UpdateFill_preserves: "preserves schema_ok (UpdateFill i a st)"
  unfolding UpdateFill_def
  by (intro preserves_wrapE preserves_sql)
    (auto simp: preserves_def monad_defs split: if_splits option.splits intro: add_fill_ok)

lemma order_reads_preserve:
  "preserves I (order_GetByID i)" "preserves I (GetByIDForUpdate i)" "preserves I (GetByIdempotencyKey u k)"
  "preserves I (GetOpenOrdersForMatching a s)"
  unfolding order_GetByID_def GetByIDForUpdate_def GetByIdempotencyKey_def GetOpenOrdersForMatching_def
  by (intro preserves_rules)+

lemma order_checks_preserve:
  "preserves I (checkWalletBalance u b)" "preserves I (checkAssetHolding u a b)" "preserves I (enqueue o1)"
  "preserves I (publish_order k o1)"
  unfolding checkWalletBalance_def checkAssetHolding_def
  by (intro preserves_rules GetByUserID_preserves GetHolding_preserves |
      simp add: preserves_def enqueue_def publish_order_def emit_def ret_def)+

lemma PlaceOrder_preserves: "preserves schema_ok (PlaceOrder u inp)"
  unfolding PlaceOrder_def PlaceOrder_new_def PlaceOrder_validate_def PlaceOrder_insert_def
  by (intro preserves_rules order_reads_preserve order_checks_preserve asset_GetByID_preserves
      order_runTx_preserves order_Create_preserves)

lemma CancelOrder_preserves: "preserves schema_ok (CancelOrder u i)"
  unfolding CancelOrder_def CancelOrder_tx_def
  by (intro preserves_rules order_reads_preserve order_checks_preserve order_runTx_preserves UpdateStatus_preserves)

section \<open>Reading and cancelling\<close>

definition order_open :: "'n order \<Rightarrow> bool" where
  "order_open r \<longleftrightarrow> o_Status r = OrderStatusPending \<or> o_Status r = OrderStatusPartiallyFilled"

lemma order_GetByID_eval:
  "faults w = [] \<Longrightarrow> order_GetByID i w =
     (case find (\<lambda>r. o_ID r = i) (orders (db w)) of None \<Rightarrow> Inl ErrOrderNotFound | Some r \<Rightarrow> Inr (scan_order r), w)"
  by (simp add: order_GetByID_def monad_defs split: option.splits)

lemma GetByIDForUpdate_eval:
  "faults w = [] \<Longrightarrow> GetByIDForUpdate i w =
     (case find (\<lambda>r. o_ID r = i) (orders (db w)) of None \<Rightarrow> Inl ErrOrderNotFound | Some r \<Rightarrow> Inr (scan_order r), w)"
  by (simp add: GetByIDForUpdate_def monad_defs split: option.splits)

lemma GetByIdempotencyKey_eval:
  "faults w = [] \<Longrightarrow> GetByIdempotencyKey u k w =
     (case find (\<lambda>r. o_UserID r = u \<and> o_IdempotencyKey r = Some k) (orders (db w)) of
        None \<Rightarrow> Inl ErrOrderNotFound | Some r \<Rightarrow> Inr (scan_order r), w)"
  by (simp add: GetByIdempotencyKey_def monad_defs split: option.splits)

lemma UpdateStatus_eval: "faults w = [] \<Longrightarrow> UpdateStatus i st w = (Inr (), w\<lparr>db := set_status i st (now w) (db w)\<rparr>)"
  by (simp add: UpdateStatus_def monad_defs)

lemma UpdateFill_eval:
  "faults w = [] \<Longrightarrow> find (\<lambda>r. o_ID r = i) (orders (db w)) = Some r \<Longrightarrow> numeric_in s = Some n \<Longrightarrow>
   numeric_fits (o_FilledQuantity r + n) \<Longrightarrow> o_FilledQuantity r + n \<le> o_Quantity r \<Longrightarrow>
   UpdateFill i s st w = (Inr (), w\<lparr>db := add_fill i n st (now w) (db w)\<rparr>)"
  by (simp add: UpdateFill_def monad_defs)

lemma order_repo_oblivious:
  "oblivious (order_Create o1)" "oblivious (order_GetByID i)" "oblivious (GetByIDForUpdate i)" "oblivious (UpdateStatus i st)"
  "oblivious (UpdateFill i s st)" "oblivious (GetOpenOrdersForMatching a sd)" "oblivious (GetByIdempotencyKey u k)"
  unfolding order_Create_def order_GetByID_def GetByIDForUpdate_def UpdateStatus_def UpdateFill_def
    GetOpenOrdersForMatching_def GetByIdempotencyKey_def
  by (intro oblivious_rules)+

lemma order_repo_db_only:
  "db_only (order_Create o1)" "db_only (order_GetByID i)" "db_only (GetByIDForUpdate i)" "db_only (UpdateStatus i st)"
  "db_only (UpdateFill i s st)" "db_only (GetOpenOrdersForMatching a sd)" "db_only (GetByIdempotencyKey u k)"
  unfolding order_Create_def order_GetByID_def GetByIDForUpdate_def UpdateStatus_def UpdateFill_def
    GetOpenOrdersForMatching_def GetByIdempotencyKey_def
  by (intro db_only_rules)+

lemma CancelOrder_tx_oblivious: "oblivious (CancelOrder_tx u i)"
  unfolding CancelOrder_tx_def by (intro oblivious_rules order_repo_oblivious)

lemma CancelOrder_tx_db_only: "db_only (CancelOrder_tx u i)"
  unfolding CancelOrder_tx_def by (intro db_only_rules order_repo_db_only)

lemma publish_order_db: "publish_order k p w = (r, w') \<Longrightarrow> r = Inr () \<and> (\<exists>evs. w' = w\<lparr>out := out w @ evs\<rparr>)"
proof -
  assume "publish_order k p w = (r, w')"
  moreover have "w = w\<lparr>out := out w @ []\<rparr>" by simp
  ultimately show ?thesis unfolding publish_order_def emit_def ret_def by (metis Pair_inject)
qed

lemma publish_order_oblivious: "oblivious (publish_order k p)"
  by (auto simp: publish_order_def oblivious_def emit_def ret_def)

lemma CancelOrder_eval:
  assumes "faults w = []"
  shows "case find (\<lambda>r. o_ID r = i) (orders (db w)) of
      None \<Rightarrow> CancelOrder u i w = (Inl ErrOrderNotFound, w)
    | Some r \<Rightarrow>
        if o_UserID r \<noteq> u then CancelOrder u i w = (Inl ErrOrderNotOwned, w)
        else if \<not> order_open r then CancelOrder u i w = (Inl ErrOrderNotCancellable, w)
        else \<exists>w'. CancelOrder u i w = (Inr ((scan_order r)\<lparr>o_Status := OrderStatusCancelled\<rparr>), w')
               \<and> db w' = set_status i OrderStatusCancelled (now w) (db w) \<and> queue w' = queue w"
proof -
  have tx: "CancelOrder_tx u i w = (case find (\<lambda>r. o_ID r = i) (orders (db w)) of
      None \<Rightarrow> (Inl ErrOrderNotFound, w)
    | Some r \<Rightarrow>
        if o_UserID r \<noteq> u then (Inl ErrOrderNotOwned, w)
        else if \<not> order_open r then (Inl ErrOrderNotCancellable, w)
        else (Inr ((scan_order r)\<lparr>o_Status := OrderStatusCancelled\<rparr>),
              w\<lparr>db := set_status i OrderStatusCancelled (now w) (db w)\<rparr>))"
    by (simp add: CancelOrder_tx_def bindE_def mapE_def GetByIDForUpdate_eval [OF assms] UpdateStatus_eval [OF assms]
        check_def ret_def raise_def order_open_def is_panic_def split: option.split)
  have err: "CancelOrder u i w = (Inl e, w)" if "CancelOrder_tx u i w = (Inl e, w)" for e
    using order_tx.run_no_fault_error [OF assms, of "CancelOrder_tx u i" e w] that by (simp add: CancelOrder_def bindE_def)
  have ok: "\<exists>w'. CancelOrder u i w = (Inr x, w') \<and> db w' = db w1 \<and> queue w' = queue w1"
    if "CancelOrder_tx u i w = (Inr x, w1)" "faults w1 = []" for x w1
  proof -
    obtain w' evs where "publish_order ''order.cancelled'' x w1 = (Inr (), w')" "w' = w1\<lparr>out := out w1 @ evs\<rparr>"
      using publish_order_db by (metis surj_pair)
    then show ?thesis using order_tx.run_no_fault [OF assms, of "CancelOrder_tx u i" x w1] that
      by (simp add: CancelOrder_def bindE_def ret_def)
  qed
  show ?thesis using tx assms err ok by (auto split: option.splits if_splits)
qed

text \<open>
  Property C10. Cancelling an order, when nothing fails: an unknown order, an order of another user
  and an order that is filled or cancelled already are refused, each with its error, and nothing
  changes; an open order of the user becomes \<^verbatim>\<open>CANCELLED\<close> with the time of the cancellation, every other
  order and every other table stays as it is, and so does the engine's queue.
\<close>

theorem CancelOrder_spec:
  assumes "faults w = []"
  shows "case find (\<lambda>r. o_ID r = i) (orders (db w)) of
      None \<Rightarrow> CancelOrder u i w = (Inl ErrOrderNotFound, w)
    | Some r \<Rightarrow>
        if o_UserID r \<noteq> u then CancelOrder u i w = (Inl ErrOrderNotOwned, w)
        else if \<not> order_open r then CancelOrder u i w = (Inl ErrOrderNotCancellable, w)
        else \<exists>w'. CancelOrder u i w = (Inr ((scan_order r)\<lparr>o_Status := OrderStatusCancelled\<rparr>), w')
               \<and> db w' = (db w)\<lparr>orders :=
                    map (\<lambda>k. if o_ID k = i then k\<lparr>o_Status := ''CANCELLED'', o_UpdatedAt := now w\<rparr> else k) (orders (db w))\<rparr>
               \<and> queue w' = queue w"
  using CancelOrder_eval [OF assms, where u = u and i = i]
  by (auto simp: set_status_map OrderStatusCancelled_def split: option.splits if_splits)

theorem CancelOrder_spec_witness:
  "\<exists>w'. CancelOrder 1 2 ex_world = (Inr ((scan_order (ex_order 2 1 ''BUY'' (12 * unit8) (3 * unit8)))\<lparr>o_Status := ''CANCELLED''\<rparr>), w')
     \<and> map o_Status (orders (db w')) = [''PENDING'', ''CANCELLED''] \<and> wallets (db w') = wallets (db ex_world)
     \<and> CancelOrder 2 2 ex_world = (Inl ErrOrderNotOwned, ex_world)"
proof -
  have f: "find (\<lambda>r. o_ID r = 2) (orders (db ex_world)) = Some (ex_order 2 1 ''BUY'' (12 * unit8) (3 * unit8))"
    and os: "orders (db ex_world) = [ex_order 1 2 ''SELL'' (10 * unit8) (5 * unit8), ex_order 2 1 ''BUY'' (12 * unit8) (3 * unit8)]"
    by (simp_all add: ex_defs)
  have b: "order_open (ex_order 2 1 ''BUY'' (12 * unit8) (3 * unit8))" "o_UserID (ex_order 2 1 ''BUY'' (12 * unit8) (3 * unit8)) = 1"
    by (simp_all add: ex_order_def order_open_def const_defs)
  obtain w' where w': "CancelOrder 1 2 ex_world = (Inr ((scan_order (ex_order 2 1 ''BUY'' (12 * unit8) (3 * unit8)))\<lparr>o_Status := ''CANCELLED''\<rparr>), w')"
    "db w' = (db ex_world)\<lparr>orders :=
       map (\<lambda>k. if o_ID k = 2 then k\<lparr>o_Status := ''CANCELLED'', o_UpdatedAt := now ex_world\<rparr> else k) (orders (db ex_world))\<rparr>"
    using CancelOrder_spec [OF ex_world_quiet, where u = 1 and i = 2] f b by (auto simp: OrderStatusCancelled_def)
  have "map o_Status (orders (db w')) = [''PENDING'', ''CANCELLED'']" unfolding w'(2) os by (simp add: ex_order_def)
  moreover have "wallets (db w') = wallets (db ex_world)" unfolding w'(2) by simp
  moreover have "CancelOrder 2 2 ex_world = (Inl ErrOrderNotOwned, ex_world)"
    using CancelOrder_spec [OF ex_world_quiet, where u = 2 and i = 2] unfolding f option.case b(2) by simp
  ultimately show ?thesis using w'(1) by (intro exI [of _ w'] conjI)
qed

text \<open>
  Whatever statement fails, cancelling an order reports an error, with the tables and
  the outgoing events as they were, or does exactly what it does when nothing fails.
\<close>

theorem CancelOrder_all_or_nothing:
  assumes "CancelOrder u i w = (r, w')"
  shows "(\<exists>e. r = Inl e) \<and> db w' = db w \<and> out w' = out w
       \<or> (\<exists>x. r = Inr x) \<and> CancelOrder u i (w\<lparr>faults := []\<rparr>) = (r, w'\<lparr>faults := []\<rparr>)"
proof (cases r)
  case (Inl e)
  have "publish_order k x v \<noteq> (Inl e2, v')" for k x v e2 v' by (auto dest: publish_order_db)
  with assms Inl have "order_runTx (CancelOrder_tx u i) w = (Inl e, w')" by (auto simp: CancelOrder_def bindE_Inl)
  then show ?thesis
    using Inl order_tx.run_error [of "CancelOrder_tx u i" w e w'] db_onlyD [OF order_runTx_db_only [OF CancelOrder_tx_db_only]]
    by blast
next
  case (Inr x)
  have "oblivious (CancelOrder u i)"
    unfolding CancelOrder_def
    by (intro oblivious_rules order_tx.run_oblivious CancelOrder_tx_oblivious publish_order_oblivious)
  then show ?thesis using Inr assms obliviousD [of "CancelOrder u i" w x w'] by simp
qed

theorem CancelOrder_all_or_nothing_witness:
  "db (snd (CancelOrder 1 2 (ex_world\<lparr>faults := [None, None, None, Some ''lost'']\<rparr>))) = db ex_world"
proof -
  let ?w = "ex_world\<lparr>faults := [None, None, None, Some ''lost'']\<rparr>"
  obtain r w' where r: "CancelOrder 1 2 ?w = (r, w')" by fastforce
  have "\<exists>e. fst (CancelOrder 1 2 ?w) = Inl e"
    by (simp add: CancelOrder_def CancelOrder_tx_def order_runTx_def BeginTxx_def Commit_def inTx_def sql_def monad_defs
        is_panic_def GetByIDForUpdate_def UpdateStatus_def ex_defs const_defs)
  with r have "\<exists>e. r = Inl e" by simp
  with CancelOrder_all_or_nothing [OF r] show ?thesis using r by auto
qed

section \<open>Placing\<close>

definition new_order_row :: "int \<Rightarrow> PlaceOrderInput \<Rightarrow> numeric \<Rightarrow> numeric \<Rightarrow> world \<Rightarrow> numeric order" where
  "new_order_row u inp p q w = \<lparr>o_ID = seqs w ''orders'', o_UserID = u, o_AssetID = pi_AssetID inp, o_Side = pi_Side inp,
     o_Type = OrderTypeLimit, o_Price = p, o_Quantity = q, o_FilledQuantity = 0, o_RemainingQuantity = q,
     o_Status = OrderStatusPending, o_IdempotencyKey = pi_IdempotencyKey inp, o_CreatedAt = now w, o_UpdatedAt = now w\<rparr>"

text \<open>No order of the user carries the key of the request, and the key fits its column.\<close>

definition key_fresh :: "int \<Rightarrow> string option \<Rightarrow> tables \<Rightarrow> bool" where
  "key_fresh u key d = (case key of None \<Rightarrow> True
     | Some k \<Rightarrow> char_length k \<le> 255 \<and> (\<forall>r \<in> set (orders d). \<not> (o_UserID r = u \<and> o_IdempotencyKey r = Some k)))"

lemma parsePosDecimal_amount: "decimal_amount s n \<Longrightarrow> 0 < n \<Longrightarrow> parsePosDecimal s = Some (Fin 64 False (load 64 n))"
  by (simp add: decimal_amount_def parsePosDecimal_def SetString_amount new_float_def not_le load_pos_iff)

lemma mustParseBigFloat_numeric: "mustParseBigFloat (numeric_out b) = Some (Fin 64 False (load 64 b))"
  by (simp add: mustParseBigFloat_def SetString_load)

lemma fmtDecimal_load: "0 \<le> n \<Longrightarrow> n \<le> 10 ^ 18 \<Longrightarrow> fmtDecimal (Fin 64 False (load 64 n)) = numeric_out n"
  by (simp add: fmtDecimal_def fmt8f_units load_nonneg f64.units_load)

lemma checkWalletBalance_eval:
  "faults w = [] \<Longrightarrow> balance_of (db w) u = Some b \<Longrightarrow>
   checkWalletBalance u (Fin 64 False v) w = ((if load 64 b < v then Inl ErrOrderInsufficientFunds else Inr ()), w)"
  by (auto simp: checkWalletBalance_def bindE_def mapE_def GetByUserID_eval balance_of_def mustParseBigFloat_numeric
      orPanic_def check_def ret_def raise_def)

lemma checkAssetHolding_eval:
  "faults w = [] \<Longrightarrow> find (holding_key u a) (portfolios (db w)) = Some h \<Longrightarrow>
   checkAssetHolding u a (Fin 64 False v) w = ((if load 64 (h_Quantity h) < v then Inl ErrOrderInsufficientHolding else Inr ()), w)"
  by (auto simp: checkAssetHolding_def bindE_def mapE_def GetHolding_eval mustParseBigFloat_numeric
      orPanic_def check_def ret_def raise_def)

lemma checkAssetHolding_none:
  "faults w = [] \<Longrightarrow> find (holding_key u a) (portfolios (db w)) = None \<Longrightarrow>
   checkAssetHolding u a q w = (Inl ErrOrderInsufficientHolding, w)"
  by (auto simp: checkAssetHolding_def bindE_def mapE_def GetHolding_eval is_panic_def)

text \<open>What the request asks for: \<open>q\<close> units at a price of \<open>p\<close> units, of an active asset.\<close>

definition valid_request :: "PlaceOrderInput \<Rightarrow> numeric \<Rightarrow> numeric \<Rightarrow> tables \<Rightarrow> bool" where
  "valid_request inp p q d \<longleftrightarrow> decimal_amount (pi_Price inp) p \<and> decimal_amount (pi_Quantity inp) q
     \<and> 0 < p \<and> p \<le> 10 ^ 18 \<and> 0 < q \<and> q \<le> 10 ^ 18
     \<and> (\<exists>a. find (\<lambda>r. a_ID r = pi_AssetID inp) (assets d) = Some a \<and> a_Status a = AssetStatusActive)"

text \<open>The check of funds or holding, with exact arithmetic: clearly passed, clearly failed.\<close>

definition can_afford :: "int \<Rightarrow> PlaceOrderInput \<Rightarrow> numeric \<Rightarrow> numeric \<Rightarrow> tables \<Rightarrow> bool" where
  "can_afford u inp p q d = (if pi_Side inp = OrderSideBuy
     then (case balance_of d u of None \<Rightarrow> False | Some b \<Rightarrow> p * q + 10 ^ 8 \<le> b * 10 ^ 8 \<and> b \<le> 10 ^ 18)
     else pi_Side inp = OrderSideSell \<and> q \<le> holding_of d u (pi_AssetID inp) \<and> holding_of d u (pi_AssetID inp) \<le> 10 ^ 18)"

definition cannot_afford :: "int \<Rightarrow> PlaceOrderInput \<Rightarrow> numeric \<Rightarrow> numeric \<Rightarrow> tables \<Rightarrow> bool" where
  "cannot_afford u inp p q d = (if pi_Side inp = OrderSideBuy
     then (case balance_of d u of None \<Rightarrow> False | Some b \<Rightarrow> b * 10 ^ 8 + 10 ^ 8 \<le> p * q \<and> p * q \<le> 10 ^ 18 * 10 ^ 8)
     else pi_Side inp = OrderSideSell \<and> holding_of d u (pi_AssetID inp) < q)"

lemma side_check_eval:
  fixes inp u p q w
  defines "m \<equiv> (if pi_Side inp = OrderSideBuy then
      bindE (orPanic ''big.ErrNaN'' (Mul 0 (Fin 64 False (load 64 p)) (Fin 64 False (load 64 q)))) (\<lambda>required. checkWalletBalance u required)
    else if pi_Side inp = OrderSideSell then checkAssetHolding u (pi_AssetID inp) (Fin 64 False (load 64 q)) else ret ()) w"
  assumes "faults w = []" and "schema_ok (db w) (seqs w)" and "0 < p" "0 < q" "q \<le> 10 ^ 18"
  shows "can_afford u inp p q (db w) \<Longrightarrow> m = (Inr (), w)"
    and "cannot_afford u inp p q (db w) \<Longrightarrow>
      m = (Inl (if pi_Side inp = OrderSideBuy then ErrOrderInsufficientFunds else ErrOrderInsufficientHolding), w)"
proof -
  have mul: "Mul 0 (Fin 64 False (load 64 p)) (Fin 64 False (load 64 q)) = Some (Fin 64 False (float_cost 64 p q))"
    using assms(4,5) by (simp add: Mul_Fin load_nonneg float_cost_def del: Mul.simps)
  have b0: "0 \<le> b" if "balance_of (db w) u = Some b" for b
    using balance_row [OF assms(3) that] by blast
  have h0: "0 \<le> h_Quantity h" if "find (holding_key u a) (portfolios (db w)) = Some h" for a h
    using that assms(3) by (auto dest!: find_SomeD simp: schema_ok_def portfolios_ok_def)
  show "m = (Inr (), w)" if "can_afford u inp p q (db w)"
  proof (cases "pi_Side inp = OrderSideBuy")
    case True
    with that obtain b where "balance_of (db w) u = Some b" "p * q + 10 ^ 8 \<le> b * 10 ^ 8" "b \<le> 10 ^ 18"
      by (auto simp: can_afford_def split: option.splits)
    with f64.funds_accept [of p q b] assms(4,5) show ?thesis unfolding m_def
      using True mul by (simp add: bindE_def orPanic_def ret_def checkWalletBalance_eval [OF assms(2)] del: Mul.simps)
  next
    case False
    with that have s: "pi_Side inp = OrderSideSell" "q \<le> holding_of (db w) u (pi_AssetID inp)" "holding_of (db w) u (pi_AssetID inp) \<le> 10 ^ 18"
      by (auto simp: can_afford_def)
    then obtain h where h: "find (holding_key u (pi_AssetID inp)) (portfolios (db w)) = Some h" "q \<le> h_Quantity h" "h_Quantity h \<le> 10 ^ 18"
      using assms(5) by (auto simp: holding_of_def split: option.splits)
    then have "load 64 q \<le> load 64 (h_Quantity h)" using assms(5) by (simp add: f64.load_le_iff)
    then show ?thesis unfolding m_def using s(1) h(1) by (simp add: checkAssetHolding_eval [OF assms(2)])
  qed
  show "m = (Inl (if pi_Side inp = OrderSideBuy then ErrOrderInsufficientFunds else ErrOrderInsufficientHolding), w)"
    if "cannot_afford u inp p q (db w)"
  proof (cases "pi_Side inp = OrderSideBuy")
    case True
    with that obtain b where b: "balance_of (db w) u = Some b" "b * 10 ^ 8 + 10 ^ 8 \<le> p * q" "p * q \<le> 10 ^ 18 * 10 ^ 8"
      by (auto simp: cannot_afford_def split: option.splits)
    with f64.funds_reject [of p q b] assms(4,5) b0 show ?thesis unfolding m_def
      using True mul by (simp add: bindE_def orPanic_def ret_def checkWalletBalance_eval [OF assms(2)] del: Mul.simps)
  next
    case False
    with that have s: "pi_Side inp = OrderSideSell" "holding_of (db w) u (pi_AssetID inp) < q" by (auto simp: cannot_afford_def)
    show ?thesis
    proof (cases "find (holding_key u (pi_AssetID inp)) (portfolios (db w))")
      case None
      then show ?thesis unfolding m_def using s(1) by (simp add: checkAssetHolding_none [OF assms(2)])
    next
      case (Some h)
      then have "load 64 (h_Quantity h) < load 64 q"
        using s(2) h0 [OF Some] assms(6) by (simp add: f64.load_less_iff holding_of_def)
      then show ?thesis unfolding m_def using s(1) Some by (simp add: checkAssetHolding_eval [OF assms(2)])
    qed
  qed
qed

lemma PlaceOrder_validate_eval:
  assumes "faults w = []" and "schema_ok (db w) (seqs w)" and "valid_request inp p q (db w)"
  shows "can_afford u inp p q (db w) \<Longrightarrow> PlaceOrder_validate u inp w =
      (Inr \<lparr>o_ID = 0, o_UserID = u, o_AssetID = pi_AssetID inp, o_Side = pi_Side inp, o_Type = OrderTypeLimit,
            o_Price = numeric_out p, o_Quantity = numeric_out q, o_FilledQuantity = [], o_RemainingQuantity = [],
            o_Status = OrderStatusPending, o_IdempotencyKey = pi_IdempotencyKey inp, o_CreatedAt = zero_time,
            o_UpdatedAt = zero_time\<rparr>, w)"
    and "cannot_afford u inp p q (db w) \<Longrightarrow> PlaceOrder_validate u inp w =
      (Inl (if pi_Side inp = OrderSideBuy then ErrOrderInsufficientFunds else ErrOrderInsufficientHolding), w)"
proof -
  have v: "decimal_amount (pi_Price inp) p" "decimal_amount (pi_Quantity inp) q" "0 < p" "p \<le> 10 ^ 18" "0 < q" "q \<le> 10 ^ 18"
    using assms(3) by (auto simp: valid_request_def)
  obtain a where a: "find (\<lambda>r. a_ID r = pi_AssetID inp) (assets (db w)) = Some a" "a_Status a = AssetStatusActive"
    using assms(3) by (auto simp: valid_request_def)
  note e = side_check_eval [OF assms(1,2) v(3,5,6), where inp = inp and u = u]
  note simps = PlaceOrder_validate_def parsePosDecimal_amount [OF v(1,3)] parsePosDecimal_amount [OF v(2,5)] bindE_def mapE_def
    asset_GetByID_eval [OF assms(1)] a check_def ret_def fmtDecimal_load
  show "PlaceOrder_validate u inp w = (Inr \<lparr>o_ID = 0, o_UserID = u, o_AssetID = pi_AssetID inp, o_Side = pi_Side inp, o_Type = OrderTypeLimit,
            o_Price = numeric_out p, o_Quantity = numeric_out q, o_FilledQuantity = [], o_RemainingQuantity = [],
            o_Status = OrderStatusPending, o_IdempotencyKey = pi_IdempotencyKey inp, o_CreatedAt = zero_time,
            o_UpdatedAt = zero_time\<rparr>, w)" if "can_afford u inp p q (db w)"
    using e(1) [OF that] v by (simp add: simps del: Mul.simps)
  show "PlaceOrder_validate u inp w =
      (Inl (if pi_Side inp = OrderSideBuy then ErrOrderInsufficientFunds else ErrOrderInsufficientHolding), w)"
    if "cannot_afford u inp p q (db w)"
    using e(2) [OF that] v by (simp add: simps del: Mul.simps)
qed

lemma order_Create_eval:
  assumes "faults w = []" and "numeric_in (o_Price o1) = Some p" "numeric_in (o_Quantity o1) = Some q" and "0 < p" "0 < q"
    and "key_fresh (o_UserID o1) (o_IdempotencyKey o1) (db w)"
    and "list_ex (\<lambda>u. u_ID u = o_UserID o1) (users (db w))" "list_ex (\<lambda>a. a_ID a = o_AssetID o1) (assets (db w))"
    and "r = \<lparr>o_ID = seqs w ''orders'', o_UserID = o_UserID o1, o_AssetID = o_AssetID o1, o_Side = o_Side o1,
        o_Type = o_Type o1, o_Price = p, o_Quantity = q, o_FilledQuantity = 0, o_RemainingQuantity = q, o_Status = o_Status o1,
        o_IdempotencyKey = o_IdempotencyKey o1, o_CreatedAt = now w, o_UpdatedAt = now w\<rparr>"
  shows "order_Create o1 w = (Inr (scan_order r),
    w\<lparr>db := (db w)\<lparr>orders := orders (db w) @ [r]\<rparr>, seqs := (seqs w)(''orders'' := seqs w ''orders'' + 1)\<rparr>)"
proof -
  have "\<not> (case o_IdempotencyKey o1 of None \<Rightarrow> False | Some k \<Rightarrow> char_length k > 255)"
    "\<not> (o_IdempotencyKey o1 \<noteq> None \<and> list_ex (\<lambda>r. o_UserID r = o_UserID o1 \<and> o_IdempotencyKey r = o_IdempotencyKey o1) (orders (db w)))"
    using assms(6) by (auto simp: key_fresh_def list_ex_iff split: option.splits)
  then show ?thesis using assms(1-5,7-9) by (simp add: order_Create_def monad_defs Let_def)
qed

lemma PlaceOrder_insert_eval:
  assumes "faults w = []" and "order_Create o1 w = (Inr placed, w1)" and "faults w1 = []"
  shows "\<exists>w'. PlaceOrder_insert u inp o1 w = (Inr placed, w') \<and> db w' = db w1 \<and> seqs w' = seqs w1 \<and> faults w' = []
    \<and> queue w' = (if length (queue w1) < queueCap w1 then queue w1 @ [placed] else queue w1)"
proof -
  define w2 where "w2 = (if length (queue w1) < queueCap w1 then w1\<lparr>queue := queue w1 @ [placed]\<rparr> else w1)"
  have "order_runTx (order_Create o1) w = (Inr placed, w1)" using assms by (rule order_tx.run_no_fault)
  moreover obtain w' evs where "publish_order ''order.created'' placed w2 = (Inr (), w')" "w' = w2\<lparr>out := out w2 @ evs\<rparr>"
    using publish_order_db by (metis surj_pair)
  ultimately show ?thesis using assms(3)
    by (simp add: PlaceOrder_insert_def bindE_def attempt_def enqueue_def ret_def w2_def [symmetric])
      (simp add: w2_def)
qed

lemma PlaceOrder_fresh:
  assumes "faults w = []" and "key_fresh u (pi_IdempotencyKey inp) (db w)"
  shows "PlaceOrder u inp w = PlaceOrder_new u inp w"
proof (cases "pi_IdempotencyKey inp")
  case (Some k)
  then have "find (\<lambda>r. o_UserID r = u \<and> o_IdempotencyKey r = Some k) (orders (db w)) = None"
    using assms(2) by (auto simp: key_fresh_def find_None_iff_set)
  then show ?thesis using Some assms(1)
    by (simp add: PlaceOrder_def bindE_def attempt_def GetByIdempotencyKey_eval is_panic_def)
qed (simp add: PlaceOrder_def)

lemma PlaceOrder_eval:
  assumes "schema_ok (db w) (seqs w)" and "faults w = []" and "u \<in> u_ID ` set (users (db w))"
    and "valid_request inp p q (db w)" and "key_fresh u (pi_IdempotencyKey inp) (db w)"
    and "can_afford u inp p q (db w)"
  shows "\<exists>w'. PlaceOrder u inp w = (Inr (scan_order (new_order_row u inp p q w)), w')
    \<and> db w' = (db w)\<lparr>orders := orders (db w) @ [new_order_row u inp p q w]\<rparr>
    \<and> queue w' = (if length (queue w) < queueCap w then queue w @ [scan_order (new_order_row u inp p q w)] else queue w)"
proof -
  let ?o = "\<lparr>o_ID = 0, o_UserID = u, o_AssetID = pi_AssetID inp, o_Side = pi_Side inp, o_Type = OrderTypeLimit,
            o_Price = numeric_out p, o_Quantity = numeric_out q, o_FilledQuantity = [], o_RemainingQuantity = [],
            o_Status = OrderStatusPending, o_IdempotencyKey = pi_IdempotencyKey inp, o_CreatedAt = zero_time,
            o_UpdatedAt = zero_time\<rparr>"
  let ?r = "new_order_row u inp p q w"
  have pq: "0 < p" "0 < q" "numeric_fits p" "numeric_fits q" using assms(4) by (auto simp: valid_request_def intro!: fits_18)
  have u: "list_ex (\<lambda>x. u_ID x = u) (users (db w))" using assms(3) by (auto simp: list_ex_iff)
  have a: "list_ex (\<lambda>x. a_ID x = pi_AssetID inp) (assets (db w))" using assms(4) by (auto simp: valid_request_def find_list_ex)
  have "order_Create ?o w = (Inr (scan_order ?r),
      w\<lparr>db := (db w)\<lparr>orders := orders (db w) @ [?r]\<rparr>, seqs := (seqs w)(''orders'' := seqs w ''orders'' + 1)\<rparr>)"
    by (rule order_Create_eval [of _ _ p q]) (use assms(2,5) pq u a in \<open>simp_all add: numeric_in_out new_order_row_def\<close>)
  from PlaceOrder_insert_eval [OF assms(2) this, of u inp] assms(2)
  obtain w' where "PlaceOrder_insert u inp ?o w = (Inr (scan_order ?r), w')"
    "db w' = (db w)\<lparr>orders := orders (db w) @ [?r]\<rparr>"
    "queue w' = (if length (queue w) < queueCap w then queue w @ [scan_order ?r] else queue w)" by auto
  moreover have "PlaceOrder u inp w = PlaceOrder_insert u inp ?o w"
    using PlaceOrder_validate_eval(1) [OF assms(2,1,4,6)] PlaceOrder_fresh [OF assms(2,5)]
    by (simp add: PlaceOrder_new_def bindE_def)
  ultimately show ?thesis by simp
qed

text \<open>
  Property C9. A valid request (an active asset, a price and a quantity of at most 8 decimals, a key
  not used before) of a user who can afford it, with a unit to spare, is accepted when nothing
  fails: exactly one row is added to the orders, \<^verbatim>\<open>PENDING\<close> and unfilled, with the price and quantity
  asked for; it is returned and, if the queue has room, handed to the matching engine.
\<close>

theorem PlaceOrder_accepts:
  assumes "schema_ok (db w) (seqs w)" and "faults w = []" and "u \<in> u_ID ` set (users (db w))"
    and "valid_request inp p q (db w)" and "key_fresh u (pi_IdempotencyKey inp) (db w)"
    and "can_afford u inp p q (db w)"
  shows "\<exists>w'. PlaceOrder u inp w = (Inr (scan_order (new_order_row u inp p q w)), w')
    \<and> db w' = (db w)\<lparr>orders := orders (db w) @ [new_order_row u inp p q w]\<rparr>
    \<and> queue w' = (if length (queue w) < queueCap w then queue w @ [scan_order (new_order_row u inp p q w)] else queue w)"
  using assms by (rule PlaceOrder_eval)

definition ex_request :: "string \<Rightarrow> PlaceOrderInput" where
  "ex_request side = \<lparr>pi_AssetID = 1, pi_Side = side, pi_Price = ''10.5'', pi_Quantity = ''2'', pi_IdempotencyKey = Some ''k''\<rparr>"

lemma ex_request_valid: "valid_request (ex_request side) 1050000000 200000000 (db ex_world)"
proof -
  have "decimal_amount ''10.5'' 1050000000" "decimal_amount ''2'' 200000000" unfolding decimal_amount_def by code_simp+
  then show ?thesis by (simp add: valid_request_def ex_request_def ex_defs const_defs)
qed

lemma ex_request_fresh: "key_fresh u (pi_IdempotencyKey (ex_request side)) (db ex_world)"
  by (simp add: key_fresh_def ex_request_def ex_defs)

theorem PlaceOrder_accepts_witness:
  "\<exists>w'. PlaceOrder 1 (ex_request ''BUY'') ex_world =
      (Inr (scan_order (new_order_row 1 (ex_request ''BUY'') 1050000000 200000000 ex_world)), w') \<and> length (queue w') = 1"
proof -
  have "can_afford 1 (ex_request ''BUY'') 1050000000 200000000 (db ex_world)"
    by (simp add: can_afford_def ex_request_def balance_row_ex const_defs)
  moreover have "1 \<in> u_ID ` set (users (db ex_world))" by (simp add: ex_defs)
  ultimately show ?thesis
    using PlaceOrder_accepts [OF ex_world_ok ex_world_quiet _ ex_request_valid ex_request_fresh, of 1 "''BUY''"]
    by (auto simp: ex_world_def)
qed

text \<open>
  Property C14. A valid request that costs more than the balance (by a unit), or sells more than is
  held, is refused with the error for it, and nothing changes.
\<close>

theorem PlaceOrder_refuses:
  assumes "schema_ok (db w) (seqs w)" and "faults w = []" and "valid_request inp p q (db w)"
    and "key_fresh u (pi_IdempotencyKey inp) (db w)" and "cannot_afford u inp p q (db w)"
  shows "PlaceOrder u inp w =
    (Inl (if pi_Side inp = OrderSideBuy then ErrOrderInsufficientFunds else ErrOrderInsufficientHolding), w)"
  using PlaceOrder_validate_eval(2) [OF assms(2,1,3,5)] PlaceOrder_fresh [OF assms(2,4)]
  by (simp add: PlaceOrder_new_def bindE_def)

theorem PlaceOrder_refuses_witness:
  "PlaceOrder 1 (ex_request ''SELL'') ex_world = (Inl ErrOrderInsufficientHolding, ex_world)"
proof -
  have "cannot_afford 1 (ex_request ''SELL'') 1050000000 200000000 (db ex_world)"
    by (simp add: cannot_afford_def ex_request_def holding_of_def holding_key_def ex_defs const_defs)
  from PlaceOrder_refuses [OF ex_world_ok ex_world_quiet ex_request_valid ex_request_fresh this]
  show ?thesis by (simp add: ex_request_def const_defs)
qed

section \<open>Idempotency\<close>

lemma GetByIdempotencyKey_Inr:
  "GetByIdempotencyKey u k w = (Inr x, w') \<Longrightarrow>
     \<exists>r fs. find (\<lambda>r. o_UserID r = u \<and> o_IdempotencyKey r = Some k) (orders (db w)) = Some r \<and> x = scan_order r \<and> w' = w\<lparr>faults := fs\<rparr>"
proof -
  let ?f = "\<lambda>d. find (\<lambda>r. o_UserID r = u \<and> o_IdempotencyKey r = Some k) (orders d)"
  assume "GetByIdempotencyKey u k w = (Inr x, w')"
  then obtain v w1 where q: "sql (bindE get_db (\<lambda>d. ret (?f d))) w = (Inr v, w1)"
    and c: "(case v of None \<Rightarrow> raise ErrOrderNotFound | Some r \<Rightarrow> ret (scan_order r)) w1 = (Inr x, w')"
    by (auto simp: GetByIdempotencyKey_def bindE_Inr)
  from sql_Inr [OF q] obtain fs where "?f (db w) = v" "w1 = w\<lparr>faults := fs\<rparr>"
    by (auto simp: bindE_def get_db_def ret_def)
  with c show ?thesis by (cases v) (simp, auto)
qed

lemma GetByIdempotencyKey_missing:
  assumes "GetByIdempotencyKey u k w = (Inl e, w')" and "errors_Is e ErrOrderNotFound"
  shows "find (\<lambda>r. o_UserID r = u \<and> o_IdempotencyKey r = Some k) (orders (db w)) = None \<and> (\<exists>fs. w' = w\<lparr>faults := fs\<rparr>)"
proof -
  have same: "w\<lparr>faults := faults w\<rparr> = w" by simp
  show ?thesis
  proof (cases "faults w")
    case Nil
    with assms show ?thesis by (auto simp: GetByIdempotencyKey_eval intro: exI [of _ "[]"] split: option.splits)
  next
    case (Cons f fs)
    with assms show ?thesis
      by (cases f) (auto simp: GetByIdempotencyKey_def bindE_def wrapE_def sql_def get_db_def ret_def raise_def is_panic_def split: option.splits)
  qed
qed

lemma order_Create_Inr:
  assumes "order_Create o1 w = (Inr x, w')"
  shows "\<exists>r. x = scan_order r \<and> orders (db w') = orders (db w) @ [r] \<and> o_UserID r = o_UserID o1 \<and> o_IdempotencyKey r = o_IdempotencyKey o1"
  using assms by (fastforce simp: order_Create_def bindE_Inr Let_def dest!: sql_Inr split: if_splits)

lemma PlaceOrder_validate_key:
  assumes "PlaceOrder_validate u inp w = (Inr o1, w')"
  shows "o_UserID o1 = u \<and> o_IdempotencyKey o1 = pi_IdempotencyKey inp"
  using assms by (auto simp: PlaceOrder_validate_def bindE_Inr split: option.splits)

lemma PlaceOrder_validate_db:
  assumes "PlaceOrder_validate u inp w = (r, w')"
  shows "db w' = db w"
proof -
  have "preserves (\<lambda>d s. d = d0) (PlaceOrder_validate u inp)" for d0
    unfolding PlaceOrder_validate_def by (intro preserves_rules order_checks_preserve asset_GetByID_preserves)
  from preservesD [OF this assms, of "db w"] show ?thesis by simp
qed

text \<open>A placed order is the first one with its key.\<close>

lemma PlaceOrder_insert_found:
  assumes "PlaceOrder_insert u inp o1 w = (Inr x, w')" and "o_UserID o1 = u" and "o_IdempotencyKey o1 = Some k"
    and "pi_IdempotencyKey inp = Some k"
    and "find (\<lambda>r. o_UserID r = u \<and> o_IdempotencyKey r = Some k) (orders (db w)) = None"
  shows "\<exists>r. find (\<lambda>r. o_UserID r = u \<and> o_IdempotencyKey r = Some k) (orders (db w')) = Some r \<and> x = scan_order r"
proof -
  from assms(1) obtain res w1 where a: "attempt (order_runTx (order_Create o1)) w = (Inr res, w1)"
    by (auto simp: PlaceOrder_insert_def bindE_Inr)
  show ?thesis
  proof (cases res)
    case (Inr placed)
    with a have "order_runTx (order_Create o1) w = (Inr placed, w1)" by simp
    from order_tx.run_ok [OF this] obtain fs fs' w2 where
      c: "order_Create o1 (w\<lparr>faults := fs\<rparr>) = (Inr placed, w2)" and w1: "w1 = w2\<lparr>faults := fs'\<rparr>" by blast
    from order_Create_Inr [OF c] assms(2,3) obtain r where
      r: "placed = scan_order r" "orders (db w1) = orders (db w) @ [r]" "o_UserID r = u" "o_IdempotencyKey r = Some k"
      unfolding w1 by auto
    from assms(1) a Inr have "db w' = db w1 \<and> x = placed"
      by (auto simp: PlaceOrder_insert_def bindE_Inr enqueue_def dest!: publish_order_db)
    with r assms(5) show ?thesis by (simp add: find_append_new)
  next
    case (Inl e)
    with assms(1,4) a obtain res2 w2 where "attempt (GetByIdempotencyKey u k) w1 = (Inr res2, w2)"
      "(case res2 of Inr y \<Rightarrow> ret y | Inl _ \<Rightarrow> raise (Wrapf ''place order: insert'' e)) w2 = (Inr x, w')"
      by (auto simp: PlaceOrder_insert_def bindE_Inr split: if_splits)
    then have "GetByIdempotencyKey u k w1 = (Inr x, w')" by (cases res2) auto
    with GetByIdempotencyKey_Inr show ?thesis by fastforce
  qed
qed

lemma PlaceOrder_found:
  assumes "PlaceOrder u inp w = (Inr x, w')" and "pi_IdempotencyKey inp = Some k" and "k \<noteq> []"
  shows "\<exists>r. find (\<lambda>r. o_UserID r = u \<and> o_IdempotencyKey r = Some k) (orders (db w')) = Some r \<and> x = scan_order r"
proof -
  from assms obtain res w1 where a: "attempt (GetByIdempotencyKey u k) w = (Inr res, w1)"
    by (auto simp: PlaceOrder_def bindE_Inr)
  show ?thesis
  proof (cases res)
    case (Inr y)
    with assms a have "GetByIdempotencyKey u k w = (Inr x, w')" by (auto simp: PlaceOrder_def bindE_Inr)
    with GetByIdempotencyKey_Inr show ?thesis by fastforce
  next
    case (Inl e)
    with assms a have e: "GetByIdempotencyKey u k w = (Inl e, w1)" "errors_Is e ErrOrderNotFound" "PlaceOrder_new u inp w1 = (Inr x, w')"
      by (auto simp: PlaceOrder_def bindE_Inr split: if_splits)
    from GetByIdempotencyKey_missing [OF e(1,2)]
    have f: "find (\<lambda>r. o_UserID r = u \<and> o_IdempotencyKey r = Some k) (orders (db w1)) = None" by auto
    from e(3) obtain o1 w2 where v: "PlaceOrder_validate u inp w1 = (Inr o1, w2)" and i: "PlaceOrder_insert u inp o1 w2 = (Inr x, w')"
      by (auto simp: PlaceOrder_new_def bindE_Inr)
    from PlaceOrder_insert_found [OF i] PlaceOrder_validate_key [OF v] PlaceOrder_validate_db [OF v] assms(2) f
    show ?thesis by simp
  qed
qed

text \<open>
  Property C15. A request that succeeded, whatever failed on the way, may be repeated: as long as
  nothing else happened, another request of the user with the same non-empty key, even one that
  asks for something else, returns the order of the first one and changes nothing.
\<close>

theorem PlaceOrder_idempotent:
  assumes "PlaceOrder u inp w = (Inr placed, w1)" and "pi_IdempotencyKey inp = Some k" and "k \<noteq> []"
    and "pi_IdempotencyKey inp' = Some k"
  shows "PlaceOrder u inp' (w1\<lparr>faults := []\<rparr>) = (Inr placed, w1\<lparr>faults := []\<rparr>)"
  using PlaceOrder_found [OF assms(1-3)] assms(3,4)
  by (auto simp: PlaceOrder_def bindE_def attempt_def GetByIdempotencyKey_eval ret_def)

theorem PlaceOrder_idempotent_witness:
  "\<exists>placed w1. PlaceOrder 2 (ex_request ''SELL'') ex_world = (Inr placed, w1)
     \<and> PlaceOrder 2 (ex_request ''BUY'') (w1\<lparr>faults := []\<rparr>) = (Inr placed, w1\<lparr>faults := []\<rparr>)"
proof -
  have "can_afford 2 (ex_request ''SELL'') 1050000000 200000000 (db ex_world)"
    by (simp add: can_afford_def ex_request_def holding_of_def holding_key_def ex_defs const_defs)
  moreover have "2 \<in> u_ID ` set (users (db ex_world))" by (simp add: ex_defs)
  ultimately obtain w1 where p: "PlaceOrder 2 (ex_request ''SELL'') ex_world =
      (Inr (scan_order (new_order_row 2 (ex_request ''SELL'') 1050000000 200000000 ex_world)), w1)"
    using PlaceOrder_eval [OF ex_world_ok ex_world_quiet _ ex_request_valid ex_request_fresh] by blast
  from PlaceOrder_idempotent [OF this, of "''k''" "ex_request ''BUY''"] show ?thesis
    using p by (auto simp: ex_request_def)
qed

end
