(* ===== verification/Trade.thy ===== *)
theory Trade
  imports Example
begin

text \<open>
  internal/trade: the executed trades (trade_repository.go, trade_service.go). A trade is inserted
  by the matching engine and never changed; users read the trades they took part in.
\<close>

section \<open>Repository\<close>

definition trade_Insert :: "string trade \<Rightarrow> string trade io" where
  "trade_Insert t = wrapE ''insert trade'' (sql
     (bindE (nextval ''trades'') (\<lambda>i.
      bindE get_db (\<lambda>d.
      bindE time_now (\<lambda>now.
      bindE (to_numeric (t_Price t)) (\<lambda>p.
      bindE (to_numeric (t_Quantity t)) (\<lambda>q.
        if p \<le> 0 then raise (check_violation ''trades_price_check'')
        else if q \<le> 0 then raise (check_violation ''trades_quantity_check'')
        else if \<not> list_ex (\<lambda>r. o_ID r = t_BuyOrderID t) (orders d) then raise (fk_violation ''trades_buy_order_id_fkey'')
        else if \<not> list_ex (\<lambda>r. o_ID r = t_SellOrderID t) (orders d) then raise (fk_violation ''trades_sell_order_id_fkey'')
        else if \<not> list_ex (\<lambda>r. a_ID r = t_AssetID t) (assets d) then raise (fk_violation ''trades_asset_id_fkey'')
        else if \<not> list_ex (\<lambda>r. u_ID r = t_BuyerID t) (users d) then raise (fk_violation ''trades_buyer_id_fkey'')
        else if \<not> list_ex (\<lambda>r. u_ID r = t_SellerID t) (users d) then raise (fk_violation ''trades_seller_id_fkey'')
        else let r = \<lparr>t_ID = i, t_BuyOrderID = t_BuyOrderID t, t_SellOrderID = t_SellOrderID t, t_AssetID = t_AssetID t,
               t_Price = p, t_Quantity = q, t_BuyerID = t_BuyerID t, t_SellerID = t_SellerID t, t_CreatedAt = now\<rparr>
          in bindE (put_db (d\<lparr>trades := trades d @ [r]\<rparr>)) (\<lambda>_. ret (scan_trade r)))))))))"

text \<open>Rows of equal time come in table order here; the query leaves their order open.\<close>

definition trade_repo_GetByUserID :: "int \<Rightarrow> string trade list io" where
  "trade_repo_GetByUserID userID = wrapE ''get trades by user id'' (sql
     (bindE get_db (\<lambda>d. ret (map scan_trade (sort_key (\<lambda>r. - t_CreatedAt r)
        (filter (\<lambda>r. t_BuyerID r = userID \<or> t_SellerID r = userID) (trades d)))))))"

section \<open>Service\<close>

definition trade_GetByUserID :: "int \<Rightarrow> string trade list io" where
  "trade_GetByUserID userID = trade_repo_GetByUserID userID"

section \<open>The repository keeps the constraints\<close>

lemma new_trade_ok:
  assumes "schema_ok d s" and "t_ID r = s ''trades''" and "0 < t_Price r \<and> numeric_fits (t_Price r)"
    and "0 < t_Quantity r \<and> numeric_fits (t_Quantity r)"
    and "list_ex (\<lambda>x. o_ID x = t_BuyOrderID r) (orders d)" "list_ex (\<lambda>x. o_ID x = t_SellOrderID r) (orders d)"
    and "list_ex (\<lambda>x. a_ID x = t_AssetID r) (assets d)" "list_ex (\<lambda>x. u_ID x = t_BuyerID r) (users d)"
      "list_ex (\<lambda>x. u_ID x = t_SellerID r) (users d)"
  shows "schema_ok (d\<lparr>trades := trades d @ [r]\<rparr>) (s(''trades'' := s ''trades'' + 1))"
proof -
  have "t_ID x < t_ID r" if "x \<in> set (trades d)" for x
    using that assms(1,2) by (simp add: schema_ok_def trades_ok_def)
  then have "t_ID r \<notin> t_ID ` set (trades d)" by fastforce
  moreover have "t_BuyOrderID r \<in> o_ID ` set (orders d)" "t_SellOrderID r \<in> o_ID ` set (orders d)"
    "t_AssetID r \<in> a_ID ` set (assets d)" "t_BuyerID r \<in> u_ID ` set (users d)" "t_SellerID r \<in> u_ID ` set (users d)"
    using assms(5-9) by (force simp: list_ex_iff)+
  ultimately have "trades_ok (d\<lparr>trades := trades d @ [r]\<rparr>) (s(''trades'' := s ''trades'' + 1))"
    using assms(1-4) by (auto simp: schema_ok_def trades_ok_def)
  then show ?thesis using assms(1) by (simp add: schema_defs)
qed

lemma trade_Insert_preserves: "preserves schema_ok (trade_Insert t)"
  unfolding trade_Insert_def
  by (intro preserves_wrapE preserves_sql)
    (auto simp: preserves_def monad_defs Let_def split: if_splits option.splits intro!: new_trade_ok intro: schema.mono numeric_in_fits)

lemma trade_Insert_oblivious: "oblivious (trade_Insert t)"
  unfolding trade_Insert_def by (intro oblivious_rules)

lemma trade_Insert_db_only: "db_only (trade_Insert t)"
  unfolding trade_Insert_def by (intro db_only_rules)

lemma trade_Insert_eval:
  assumes "faults w = []" and "numeric_in (t_Price t) = Some p" and "numeric_in (t_Quantity t) = Some q" and "0 < p" and "0 < q"
    and "t_BuyOrderID t \<in> o_ID ` set (orders (db w))" "t_SellOrderID t \<in> o_ID ` set (orders (db w))"
      "t_AssetID t \<in> a_ID ` set (assets (db w))" "t_BuyerID t \<in> u_ID ` set (users (db w))" "t_SellerID t \<in> u_ID ` set (users (db w))"
    and "r = \<lparr>t_ID = seqs w ''trades'', t_BuyOrderID = t_BuyOrderID t, t_SellOrderID = t_SellOrderID t, t_AssetID = t_AssetID t,
        t_Price = p, t_Quantity = q, t_BuyerID = t_BuyerID t, t_SellerID = t_SellerID t, t_CreatedAt = now w\<rparr>"
  shows "trade_Insert t w = (Inr (scan_trade r),
    w\<lparr>db := (db w)\<lparr>trades := trades (db w) @ [r]\<rparr>, seqs := (seqs w)(''trades'' := seqs w ''trades'' + 1)\<rparr>)"
proof -
  have "list_ex (\<lambda>x. o_ID x = t_BuyOrderID t) (orders (db w))" "list_ex (\<lambda>x. o_ID x = t_SellOrderID t) (orders (db w))"
    "list_ex (\<lambda>x. a_ID x = t_AssetID t) (assets (db w))" "list_ex (\<lambda>x. u_ID x = t_BuyerID t) (users (db w))"
    "list_ex (\<lambda>x. u_ID x = t_SellerID t) (users (db w))"
    using assms(6-10) by (auto simp: list_ex_iff)
  then show ?thesis using assms(1-5,11) by (simp add: trade_Insert_def monad_defs Let_def)
qed

end
