(* ===== verification/Engine.thy ===== *)
theory Engine
  imports Order Trade
begin

text \<open>
  internal/matchingengine: the engine takes the placed orders from the queue one after the other
  and matches each with the best open orders of the other side (matcher.go), one transaction per
  trade (executor.go), until nothing crosses any more (engine.go). Amounts are 128-bit floats.
  The parts of the long function \<^verbatim>\<open>executeTrade\<close> are definitions of their own, in its order.
\<close>

section \<open>matcher.go\<close>

definition isOpen :: "string \<Rightarrow> bool" where
  "isOpen status \<longleftrightarrow> status = OrderStatusPending \<or> status = OrderStatusPartiallyFilled"

definition newStatus :: "big_float \<Rightarrow> big_float \<Rightarrow> string" where
  "newStatus filled count = (if Cmp filled count \<ge> 0 then OrderStatusFilled else OrderStatusPartiallyFilled)"

definition mustParseBig :: "string \<Rightarrow> big_float option" where
  "mustParseBig s = SetString 128 s"

definition bigZero :: big_float where
  "bigZero = new_float 128"

definition minBig :: "big_float \<Rightarrow> big_float \<Rightarrow> big_float" where
  "minBig a b = (if Cmp a b \<le> 0 then a else b)"

text \<open>The float of a field; a nil pointer is dereferenced by the next operation on it.\<close>

definition big :: "string \<Rightarrow> big_float io" where
  "big s = orPanic ''nil pointer dereference'' (mustParseBig s)"

fun scan_candidates :: "string order \<Rightarrow> string order list \<Rightarrow> string order option io" where
  "scan_candidates incoming [] = ret None"
| "scan_candidates incoming (c # cs) =
     (if o_UserID c = o_UserID incoming then scan_candidates incoming cs
      else bindE (big (o_Price c)) (\<lambda>candidatePrice.
           bindE (big (o_Price incoming)) (\<lambda>incomingPrice.
             if (if o_Side incoming = OrderSideBuy then Cmp candidatePrice incomingPrice \<le> 0
                 else Cmp candidatePrice incomingPrice \<ge> 0)
             then ret (Some c) else scan_candidates incoming cs)))"

definition findBestCandidate :: "int \<Rightarrow> string \<Rightarrow> string order \<Rightarrow> string order option io" where
  "findBestCandidate assetID side incoming =
     bindE (GetOpenOrdersForMatching assetID side) (\<lambda>candidates. scan_candidates incoming candidates)"

section \<open>executor.go\<close>

definition lock_orders :: "string order \<Rightarrow> string order \<Rightarrow> (string order \<times> string order) io" where
  "lock_orders buyOrder sellOrder =
     (let (firstID, secondID) = (if o_ID buyOrder > o_ID sellOrder then (o_ID sellOrder, o_ID buyOrder)
                                 else (o_ID buyOrder, o_ID sellOrder)) in
      bindE (wrapE (''executeTrade: lock order '' @ show_int firstID) (GetByIDForUpdate firstID)) (\<lambda>lockedFirst.
      bindE (wrapE (''executeTrade: lock order '' @ show_int secondID) (GetByIDForUpdate secondID)) (\<lambda>lockedSecond.
      ret (if o_ID lockedFirst = o_ID buyOrder then (lockedFirst, lockedSecond) else (lockedSecond, lockedFirst)))))"

text \<open>The quantity to trade, if the locked orders are still open and still cross.\<close>

definition fill_quantity :: "string order \<Rightarrow> string order \<Rightarrow> big_float option io" where
  "fill_quantity buyOrder sellOrder =
     (if \<not> isOpen (o_Status buyOrder) \<or> \<not> isOpen (o_Status sellOrder) then ret None
      else bindE (big (o_Price buyOrder)) (\<lambda>bPrice.
           bindE (big (o_Price sellOrder)) (\<lambda>sPrice.
             if Cmp sPrice bPrice > 0 then ret None
             else bindE (big (o_RemainingQuantity buyOrder)) (\<lambda>buyRem.
                  bindE (big (o_RemainingQuantity sellOrder)) (\<lambda>sellRem.
                    let fillQty = minBig buyRem sellRem in
                    if Cmp fillQty bigZero \<le> 0 then ret None else ret (Some fillQty))))))"

definition update_orders :: "string order \<Rightarrow> string order \<Rightarrow> big_float \<Rightarrow> big_float \<Rightarrow> string trade io" where
  "update_orders buyOrder sellOrder fillQty tradePrice =
     (let fillQtyStr = fmt8f fillQty; tradePriceStr = fmt8f tradePrice in
      bindE (wrapE ''executeTrade: insert trade'' (trade_Insert
        \<lparr>t_ID = 0, t_BuyOrderID = o_ID buyOrder, t_SellOrderID = o_ID sellOrder, t_AssetID = o_AssetID buyOrder,
         t_Price = tradePriceStr, t_Quantity = fillQtyStr, t_BuyerID = o_UserID buyOrder, t_SellerID = o_UserID sellOrder,
         t_CreatedAt = zero_time\<rparr>)) (\<lambda>insertedTrade.
      bindE (big (o_FilledQuantity buyOrder)) (\<lambda>buyFilled.
      bindE (orPanic ''big.ErrNaN'' (Add 0 buyFilled fillQty)) (\<lambda>newBuyFilled.
      bindE (big (o_Quantity buyOrder)) (\<lambda>buyQty.
      bindE (wrapE ''executeTrade: update buy order'' (UpdateFill (o_ID buyOrder) fillQtyStr (newStatus newBuyFilled buyQty))) (\<lambda>_.
      bindE (big (o_FilledQuantity sellOrder)) (\<lambda>sellFilled.
      bindE (orPanic ''big.ErrNaN'' (Add 0 sellFilled fillQty)) (\<lambda>newSellFilled.
      bindE (big (o_Quantity sellOrder)) (\<lambda>sellQty.
      bindE (wrapE ''executeTrade: update sell order'' (UpdateFill (o_ID sellOrder) fillQtyStr (newStatus newSellFilled sellQty))) (\<lambda>_.
      ret insertedTrade))))))))))"

definition debit_buyer :: "string order \<Rightarrow> big_float \<Rightarrow> (string wallet \<times> big_float) io" where
  "debit_buyer buyOrder tradeCost =
     bindE (wrapE ''executeTrade: lock buyer wallet'' (GetByUserIDForUpdate (o_UserID buyOrder))) (\<lambda>buyerWallet.
     bindE (big (w_Balance buyerWallet)) (\<lambda>buyerBalance.
     bindE (orPanic ''big.ErrNaN'' (Sub 0 buyerBalance tradeCost)) (\<lambda>buyerNewBal.
     bindE (check (\<not> Cmp buyerNewBal bigZero < 0) (ErrorString ''executeTrade: buyer has insufficient balance at execution time'')) (\<lambda>_.
     bindE (wrapE ''executeTrade: debit buyer'' (UpdateBalance (w_ID buyerWallet) (fmt8f buyerNewBal) (w_Version buyerWallet))) (\<lambda>_.
     bindE (wrapE ''executeTrade: buyer wallet tx'' (InsertTransaction
        \<lparr>x_ID = 0, x_WalletID = w_ID buyerWallet, x_Amount = fmt8f tradeCost, x_TransactionType = TxTypeWithdrawal,
         x_Status = TxStatusCompleted, x_ReferenceID = None,
         x_Description = Some (''Trade fill: buy order #'' @ show_int (o_ID buyOrder)), x_CreatedAt = zero_time\<rparr>)) (\<lambda>_.
     ret (buyerWallet, buyerNewBal)))))))"

definition credit_seller :: "string order \<Rightarrow> big_float \<Rightarrow> (string wallet \<times> big_float) io" where
  "credit_seller sellOrder tradeCost =
     bindE (wrapE ''executeTrade: lock seller wallet'' (GetByUserIDForUpdate (o_UserID sellOrder))) (\<lambda>sellerWallet.
     bindE (big (w_Balance sellerWallet)) (\<lambda>sellerBalance.
     bindE (orPanic ''big.ErrNaN'' (Add 0 sellerBalance tradeCost)) (\<lambda>sellerNewBal.
     bindE (wrapE ''executeTrade: credit seller'' (UpdateBalance (w_ID sellerWallet) (fmt8f sellerNewBal) (w_Version sellerWallet))) (\<lambda>_.
     bindE (wrapE ''executeTrade: seller wallet tx'' (InsertTransaction
        \<lparr>x_ID = 0, x_WalletID = w_ID sellerWallet, x_Amount = fmt8f tradeCost, x_TransactionType = TxTypeDeposit,
         x_Status = TxStatusCompleted, x_ReferenceID = None,
         x_Description = Some (''Trade fill: sell order #'' @ show_int (o_ID sellOrder)), x_CreatedAt = zero_time\<rparr>)) (\<lambda>_.
     ret (sellerWallet, sellerNewBal))))))"

definition move_asset :: "string order \<Rightarrow> string order \<Rightarrow> big_float \<Rightarrow> big_float \<Rightarrow> unit io" where
  "move_asset buyOrder sellOrder fillQty tradePrice =
     bindE (wrapE ''executeTrade: buyer portfolio''
              (UpsertBuyerHolding (o_UserID buyOrder) (o_AssetID buyOrder) (fmt8f fillQty) (fmt8f tradePrice))) (\<lambda>_.
     wrapE ''executeTrade: seller portfolio''
              (ReduceSellerHolding (o_UserID sellOrder) (o_AssetID sellOrder) (fmt8f fillQty)))"

text \<open>What the events after the commit need of the transaction.\<close>

record settlement =
  s_Trade :: "string trade"
  s_BuyerID :: int
  s_SellerID :: int
  s_BuyerWallet :: "string wallet"
  s_SellerWallet :: "string wallet"
  s_BuyerNewBal :: big_float
  s_SellerNewBal :: big_float
  s_Cost :: string

definition executeTrade_tx :: "string order \<Rightarrow> string order \<Rightarrow> string \<Rightarrow> settlement option io" where
  "executeTrade_tx buy0 sell0 candidatePrice =
     bindE (lock_orders buy0 sell0) (\<lambda>(buyOrder, sellOrder).
     bindE (fill_quantity buyOrder sellOrder) (\<lambda>fq. case fq of
       None \<Rightarrow> ret None
     | Some fillQty \<Rightarrow>
       bindE (big candidatePrice) (\<lambda>tradePrice.
       bindE (orPanic ''big.ErrNaN'' (Mul 0 fillQty tradePrice)) (\<lambda>tradeCost.
       bindE (update_orders buyOrder sellOrder fillQty tradePrice) (\<lambda>insertedTrade.
       bindE (debit_buyer buyOrder tradeCost) (\<lambda>(buyerWallet, buyerNewBal).
       bindE (credit_seller sellOrder tradeCost) (\<lambda>(sellerWallet, sellerNewBal).
       bindE (move_asset buyOrder sellOrder fillQty tradePrice) (\<lambda>_.
       ret (Some \<lparr>s_Trade = insertedTrade, s_BuyerID = o_UserID buyOrder, s_SellerID = o_UserID sellOrder,
          s_BuyerWallet = buyerWallet, s_SellerWallet = sellerWallet, s_BuyerNewBal = buyerNewBal,
          s_SellerNewBal = sellerNewBal, s_Cost = fmt8f tradeCost\<rparr>)))))))))"

definition publish_price :: "string trade \<Rightarrow> unit io" where
  "publish_price t = (\<lambda>w. if cacheClient w then
     bindE (emit (SetPrice (t_AssetID t) (t_Price t))) (\<lambda>_.
     emit (PublishPrice (''price_updates:'' @ show_int (t_AssetID t)) (t_AssetID t) (t_Price t) (t_Quantity t) (now w))) w
   else ret () w)"

definition publish_trade :: "settlement \<Rightarrow> unit io" where
  "publish_trade s = (\<lambda>w. if kafkaProducer w then
     (let t = s_Trade s in
      bindE (emit (PublishEvent ''trade-events'' ''trade.executed'' (TradeEventPayload
        \<lparr>te_TradeID = t_ID t, te_BuyOrderID = t_BuyOrderID t, te_SellOrderID = t_SellOrderID t, te_AssetID = t_AssetID t,
         te_Price = t_Price t, te_Quantity = t_Quantity t, te_BuyerID = t_BuyerID t, te_SellerID = t_SellerID t,
         te_Timestamp = now w\<rparr>))) (\<lambda>_.
      bindE (emit (PublishEvent ''wallet-events'' ''wallet.updated'' (WalletEventPayload
        \<lparr>we_WalletID = w_ID (s_BuyerWallet s), we_UserID = s_BuyerID s, we_Balance = fmt8f (s_BuyerNewBal s),
         we_ChangeAmount = s_Cost s, we_TransactionType = ''trade_debit'', we_Timestamp = now w\<rparr>))) (\<lambda>_.
      emit (PublishEvent ''wallet-events'' ''wallet.updated'' (WalletEventPayload
        \<lparr>we_WalletID = w_ID (s_SellerWallet s), we_UserID = s_SellerID s, we_Balance = fmt8f (s_SellerNewBal s),
         we_ChangeAmount = s_Cost s, we_TransactionType = ''trade_credit'', we_Timestamp = now w\<rparr>)))))  w
   else ret () w)"

text \<open>The transaction: rolled back on an error and when there is nothing to trade.\<close>

definition trade_transaction :: "settlement option io \<Rightarrow> settlement option io" where
  "trade_transaction body = bindE (wrapE ''executeTrade: begin tx'' BeginTxx) (\<lambda>snap w.
     case body w of
       (Inl e, w1) \<Rightarrow> (Inl e, Rollback snap w1)
     | (Inr None, w1) \<Rightarrow> (Inr None, Rollback snap w1)
     | (Inr (Some s), w1) \<Rightarrow> bindE (wrapE ''executeTrade: commit'' (Commit snap)) (\<lambda>_. ret (Some s)) w1)"

definition executeTrade :: "string order \<Rightarrow> string order \<Rightarrow> bool io" where
  "executeTrade incoming candidate =
     (let (buyOrder, sellOrder) = (if o_Side incoming = OrderSideBuy then (incoming, candidate) else (candidate, incoming)) in
      bindE (trade_transaction (executeTrade_tx buyOrder sellOrder (o_Price candidate))) (\<lambda>r. case r of
        None \<Rightarrow> ret False
      | Some s \<Rightarrow>
          bindE (publish_price (s_Trade s)) (\<lambda>_.
          bindE (publish_trade s) (\<lambda>_.
          ret True))))"

section \<open>engine.go\<close>

text \<open>One turn of the loop of \<^verbatim>\<open>processOrder\<close>; the result says whether it goes on.\<close>

definition process_step :: "string order \<Rightarrow> bool io" where
  "process_step incoming =
     bindE (wrapE ''processOrder: re-fetch incoming'' (order_GetByID (o_ID incoming))) (\<lambda>current.
     if o_Status current = OrderStatusFilled \<or> o_Status current = OrderStatusCancelled then ret False
     else
       bindE (big (o_RemainingQuantity current)) (\<lambda>incomingRemaining.
       if Cmp incomingRemaining bigZero \<le> 0 then ret False
       else
         bindE (wrapE ''processOrder: find candidate'' (findBestCandidate (o_AssetID incoming)
            (if o_Side incoming = OrderSideSell then OrderSideBuy else OrderSideSell) current)) (\<lambda>cand. case cand of
           None \<Rightarrow> ret False
         | Some candidate \<Rightarrow>
             bindE (executeTrade current candidate) (\<lambda>matched.
             if \<not> matched then
               bindE (wrapE ''processOrder: check incoming after unmatched'' (order_GetByID (o_ID incoming))) (\<lambda>freshIncoming.
               ret (isOpen (o_Status freshIncoming)))
             else
               bindE (wrapE ''processOrder: re-fetch after fill'' (order_GetByID (o_ID incoming))) (\<lambda>current2.
               ret (o_Status current2 \<noteq> OrderStatusFilled))))))"

text \<open>The loop; \<open>None\<close> is a loop that never ends.\<close>

partial_function (option) processOrder :: "string order \<Rightarrow> world \<Rightarrow> ((error + unit) \<times> world) option" where
  "processOrder incoming w = (case process_step incoming w of
     (Inl e, w1) \<Rightarrow> Some (Inl e, w1)
   | (Inr goes_on, w1) \<Rightarrow> if goes_on then processOrder incoming w1 else Some (Inr (), w1))"

text \<open>One turn of the loop of \<^verbatim>\<open>Run\<close>: the next order of the queue; an error is only logged.\<close>

definition Run_step :: "world \<Rightarrow> world option" where
  "Run_step w = (case queue w of
     [] \<Rightarrow> Some w
   | o1 # os \<Rightarrow> map_option snd (processOrder o1 (w\<lparr>queue := os\<rparr>)))"

section \<open>What the pieces keep\<close>

lemma big_rules [intro, simp]: "preserves I (big s)" "oblivious (big s)" "db_only (big s)"
  by (simp_all add: big_def)

lemma scan_candidates_rules:
  "preserves I (scan_candidates o1 cs)" "oblivious (scan_candidates o1 cs)" "db_only (scan_candidates o1 cs)"
  by (induction cs)
    (auto intro!: preserves_bindE oblivious_bindE db_only_bindE)

lemma findBestCandidate_rules:
  "preserves I (findBestCandidate a sd o1)" "oblivious (findBestCandidate a sd o1)" "db_only (findBestCandidate a sd o1)"
  unfolding findBestCandidate_def
  by (intro preserves_bindE oblivious_bindE db_only_bindE order_reads_preserve order_repo_oblivious order_repo_db_only scan_candidates_rules)+

lemma lock_orders_rules:
  "preserves I (lock_orders b s)" "oblivious (lock_orders b s)" "db_only (lock_orders b s)"
  unfolding lock_orders_def
  by (intro preserves_rules oblivious_rules db_only_rules order_reads_preserve order_repo_oblivious order_repo_db_only)+

lemma fill_quantity_rules:
  "preserves I (fill_quantity b s)" "oblivious (fill_quantity b s)" "db_only (fill_quantity b s)"
  unfolding fill_quantity_def
  by (intro preserves_rules oblivious_rules db_only_rules big_rules)+

lemma update_orders_rules:
  "preserves schema_ok (update_orders b s q p)" "oblivious (update_orders b s q p)" "db_only (update_orders b s q p)"
  unfolding update_orders_def
  by (intro preserves_rules oblivious_rules db_only_rules big_rules trade_Insert_preserves trade_Insert_oblivious
      trade_Insert_db_only UpdateFill_preserves order_repo_oblivious order_repo_db_only)+

lemma debit_buyer_rules:
  "preserves schema_ok (debit_buyer b c)" "oblivious (debit_buyer b c)" "db_only (debit_buyer b c)"
  unfolding debit_buyer_def
  by (intro preserves_rules oblivious_rules db_only_rules big_rules GetByUserIDForUpdate_preserves UpdateBalance_preserves
      InsertTransaction_preserves wallet_repo_oblivious wallet_repo_db_only)+

lemma credit_seller_rules:
  "preserves schema_ok (credit_seller s c)" "oblivious (credit_seller s c)" "db_only (credit_seller s c)"
  unfolding credit_seller_def
  by (intro preserves_rules oblivious_rules db_only_rules big_rules GetByUserIDForUpdate_preserves UpdateBalance_preserves
      InsertTransaction_preserves wallet_repo_oblivious wallet_repo_db_only)+

lemma move_asset_rules:
  "preserves schema_ok (move_asset b s q p)" "oblivious (move_asset b s q p)" "db_only (move_asset b s q p)"
  unfolding move_asset_def
  by (intro preserves_rules oblivious_rules db_only_rules UpsertBuyerHolding_preserves ReduceSellerHolding_preserves
      portfolio_repo_oblivious portfolio_repo_db_only)+

lemma executeTrade_tx_rules:
  "preserves schema_ok (executeTrade_tx b s p)" "oblivious (executeTrade_tx b s p)" "db_only (executeTrade_tx b s p)"
  unfolding executeTrade_tx_def
  by (intro preserves_rules oblivious_rules db_only_rules big_rules lock_orders_rules fill_quantity_rules update_orders_rules
      debit_buyer_rules credit_seller_rules move_asset_rules)+

lemma publish_rules:
  "preserves I (publish_price t)" "preserves I (publish_trade s)" "oblivious (publish_price t)" "oblivious (publish_trade s)"
  by (auto simp: publish_price_def publish_trade_def preserves_def oblivious_def emit_def ret_def bindE_def Let_def)

lemma publish_db: "publish_price t w = (r, w') \<Longrightarrow> r = Inr () \<and> (\<exists>evs. w' = w\<lparr>out := out w @ evs\<rparr>)"
  "publish_trade s w = (r, w') \<Longrightarrow> r = Inr () \<and> (\<exists>evs. w' = w\<lparr>out := out w @ evs\<rparr>)"
proof -
  have same: "\<exists>evs. v = v\<lparr>out := out v @ evs\<rparr>" for v :: world by (rule exI [of _ "[]"]) simp
  show "publish_price t w = (r, w') \<Longrightarrow> r = Inr () \<and> (\<exists>evs. w' = w\<lparr>out := out w @ evs\<rparr>)"
    and "publish_trade s w = (r, w') \<Longrightarrow> r = Inr () \<and> (\<exists>evs. w' = w\<lparr>out := out w @ evs\<rparr>)"
    unfolding publish_price_def publish_trade_def emit_def ret_def bindE_def Let_def by (auto split: if_splits intro: same)
qed

section \<open>The transaction of a trade\<close>

lemma trade_transaction_cases:
  assumes "trade_transaction body w = (r, w')"
  shows "(\<forall>s. r \<noteq> Inr (Some s)) \<and> db w' = db w
    \<or> (\<exists>s fs fs' w1. r = Inr (Some s) \<and> body (w\<lparr>faults := fs\<rparr>) = (Inr (Some s), w1) \<and> w' = w1\<lparr>faults := fs'\<rparr>)"
proof (cases "BeginTxx w")
  case (Pair q w0)
  show ?thesis
  proof (cases q)
    case (Inl e)
    with assms Pair have "\<exists>e. r = Inl e" "w' = w0" by (auto simp: trade_transaction_def bindE_def wrapE_def split: if_splits)
    with Pair Inl BeginTxx_Inl [of w e w0] show ?thesis by auto
  next
    case (Inr snap)
    with Pair BeginTxx_Inr [of w snap w0] obtain fs where w0: "snap = db w" "w0 = w\<lparr>faults := fs\<rparr>" by auto
    obtain b w1 where b: "body w0 = (b, w1)" by fastforce
    show ?thesis
    proof (cases "\<exists>s. b = Inr (Some s)")
      case False
      then have "(\<exists>e. b = Inl e) \<or> b = Inr None" by (cases b) auto
      with assms Pair Inr b w0 show ?thesis
        by (auto simp: trade_transaction_def bindE_def wrapE_def Rollback_def)
    next
      case True
      then obtain s where s: "b = Inr (Some s)" by blast
      obtain c w2 where c: "Commit snap w1 = (c, w2)" by fastforce
      show ?thesis
      proof (cases c)
        case (Inl e)
        with assms Pair Inr b s c Commit_Inl [of snap w1 e w2] w0 show ?thesis
          by (auto simp: trade_transaction_def bindE_def wrapE_def)
      next
        case cr: (Inr x)
        with c Commit_Inr [of snap w1 x w2] obtain fs' where "w2 = w1\<lparr>faults := fs'\<rparr>" by auto
        with assms Pair Inr b s c cr w0 show ?thesis
          by (auto simp: trade_transaction_def bindE_def wrapE_def ret_def)
      qed
    qed
  qed
qed

lemma trade_transaction_eval:
  "faults w = [] \<Longrightarrow> body w = (Inr (Some s), w1) \<Longrightarrow> faults w1 = [] \<Longrightarrow> trade_transaction body w = (Inr (Some s), w1)"
  "faults w = [] \<Longrightarrow> body w = (Inr None, w1) \<Longrightarrow> trade_transaction body w = (Inr None, w1\<lparr>db := db w\<rparr>)"
  "faults w = [] \<Longrightarrow> body w = (Inl e, w1) \<Longrightarrow> trade_transaction body w = (Inl e, w1\<lparr>db := db w\<rparr>)"
  by (simp_all add: trade_transaction_def bindE_def wrapE_def ret_def Rollback_def)

section \<open>Price-time priority\<close>

lemma sorted_insort:
  fixes k t :: "'r \<Rightarrow> int"
  assumes "sorted_wrt (\<lambda>x y. k x < k y \<or> k x = k y \<and> t x \<le> t y) ys" and "\<And>y. y \<in> set ys \<Longrightarrow> t x \<le> t y"
  shows "sorted_wrt (\<lambda>x y. k x < k y \<or> k x = k y \<and> t x \<le> t y) (insort_key k x ys)"
  using assms by (induction ys) (auto simp: set_insort_key)

lemma sorted_two_keys:
  fixes k t :: "'r \<Rightarrow> int"
  shows "sorted_wrt (\<lambda>x y. k x < k y \<or> k x = k y \<and> t x \<le> t y) (sort_key k (sort_key t rs))"
proof -
  have "sorted_wrt (\<lambda>x y. k x < k y \<or> k x = k y \<and> t x \<le> t y) (sort_key k xs)" if "sorted (map t xs)" for xs
    using that by (induction xs) (auto intro!: sorted_insort)
  then show ?thesis by (simp add: sorted_sort_key)
qed

text \<open>Order \<open>c\<close> of a side comes before order \<open>x\<close>: a better price, or the same price and not younger.\<close>

definition book_before :: "string \<Rightarrow> numeric order \<Rightarrow> numeric order \<Rightarrow> bool" where
  "book_before side c x \<longleftrightarrow>
     (if side = OrderSideBuy then o_Price x < o_Price c else o_Price c < o_Price x)
     \<or> o_Price c = o_Price x \<and> o_CreatedAt c \<le> o_CreatedAt x"

definition crosses :: "numeric order \<Rightarrow> numeric order \<Rightarrow> bool" where
  "crosses inc c \<longleftrightarrow> (if o_Side inc = OrderSideBuy then o_Price c \<le> o_Price inc else o_Price inc \<le> o_Price c)"

text \<open>The orders an incoming order may trade with.\<close>

definition eligible :: "tables \<Rightarrow> int \<Rightarrow> string \<Rightarrow> numeric order \<Rightarrow> numeric order \<Rightarrow> bool" where
  "eligible d a side inc c \<longleftrightarrow> c \<in> set (orders d) \<and> o_AssetID c = a \<and> o_Side c = side \<and> order_open c
     \<and> o_UserID c \<noteq> o_UserID inc \<and> crosses inc c"

lemma set_open_orders: "set (open_orders a sd d) = {r \<in> set (orders d). o_AssetID r = a \<and> o_Side r = sd \<and> order_open r}"
  by (auto simp: open_orders_def Let_def order_open_def const_defs)

lemma open_orders_sorted: "sorted_wrt (book_before sd) (open_orders a sd d)"
proof -
  let ?k = "\<lambda>r :: numeric order. if sd = OrderSideBuy then - o_Price r else o_Price r"
  let ?rs = "filter (\<lambda>r. o_AssetID r = a \<and> o_Side r = sd \<and> (o_Status r = ''PENDING'' \<or> o_Status r = ''PARTIALLY_FILLED'')) (orders d)"
  have "sorted_wrt (\<lambda>x y. ?k x < ?k y \<or> ?k x = ?k y \<and> o_CreatedAt x \<le> o_CreatedAt y) (sort_key ?k (sort_key o_CreatedAt ?rs))"
    by (rule sorted_two_keys)
  then show ?thesis unfolding open_orders_def Let_def
    by (rule sorted_wrt_mono_rel [rotated]) (auto simp: book_before_def split: if_splits)
qed

lemma big_numeric [simp]: "big (numeric_out n) = ret (Fin 128 False (load 128 n))"
  by (simp add: big_def mustParseBig_def SetString_load orPanic_def)

lemma price_fits: "schema_ok d s \<Longrightarrow> r \<in> set (orders d) \<Longrightarrow> \<bar>o_Price r\<bar> \<le> 10 ^ 20 \<and> 0 < o_Price r"
  by (auto simp: schema_ok_def orders_ok_def order_row_ok_def numeric_fits_def)

lemma scan_candidates_find:
  assumes "\<And>c. c \<in> set cs \<Longrightarrow> \<bar>o_Price c\<bar> \<le> 10 ^ 20" and "\<bar>o_Price inc\<bar> \<le> 10 ^ 20"
  shows "scan_candidates (scan_order inc) (map scan_order cs) =
    ret (map_option scan_order (find (\<lambda>c. o_UserID c \<noteq> o_UserID inc \<and> crosses inc c) cs))"
  using assms by (induction cs) (simp_all add: crosses_def f128.load_le_iff)

lemma find_sorted_first:
  "sorted_wrt R xs \<Longrightarrow> (\<And>x. R x x) \<Longrightarrow> find P xs = Some c \<Longrightarrow> x \<in> set xs \<Longrightarrow> P x \<Longrightarrow> R c x"
  by (induction xs) (auto split: if_splits)

lemma findBestCandidate_eval:
  assumes "schema_ok (db w) (seqs w)" and "faults w = []" and "inc \<in> set (orders (db w))"
  shows "findBestCandidate a sd (scan_order inc) w = (Inr (map_option scan_order
    (find (\<lambda>c. o_UserID c \<noteq> o_UserID inc \<and> crosses inc c) (open_orders a sd (db w)))), w)"
proof -
  have "\<bar>o_Price c\<bar> \<le> 10 ^ 20" if "c \<in> set (orders (db w))" for c using price_fits [OF assms(1) that] by blast
  then have "scan_candidates (scan_order inc) (map scan_order (open_orders a sd (db w))) =
      ret (map_option scan_order (find (\<lambda>c. o_UserID c \<noteq> o_UserID inc \<and> crosses inc c) (open_orders a sd (db w))))"
    using assms(3) by (intro scan_candidates_find) (auto simp: set_open_orders)
  then show ?thesis using assms(2)
    by (simp add: findBestCandidate_def GetOpenOrdersForMatching_def bindE_def wrapE_def get_db_def ret_def)
qed

text \<open>
  Property C5. Matching is by price, then time: for an order of the book, when nothing fails, the
  candidate is an open order of the asset and side asked for, of another user, whose price crosses,
  and no other such order has a better price, nor the same price and an earlier time; without a
  candidate there is no such order.
\<close>

theorem findBestCandidate_priority:
  assumes "schema_ok (db w) (seqs w)" and "faults w = []" and "inc \<in> set (orders (db w))"
  shows "\<exists>res. findBestCandidate a sd (scan_order inc) w = (Inr res, w) \<and> (case res of
      None \<Rightarrow> \<forall>x. \<not> eligible (db w) a sd inc x
    | Some c' \<Rightarrow> \<exists>c. c' = scan_order c \<and> eligible (db w) a sd inc c \<and> (\<forall>x. eligible (db w) a sd inc x \<longrightarrow> book_before sd c x))"
proof -
  let ?P = "\<lambda>c. o_UserID c \<noteq> o_UserID inc \<and> crosses inc c"
  have el: "eligible (db w) a sd inc x \<longleftrightarrow> x \<in> set (open_orders a sd (db w)) \<and> ?P x" for x
    by (auto simp: eligible_def set_open_orders)
  show ?thesis
  proof (cases "find ?P (open_orders a sd (db w))")
    case None
    then have "\<not> eligible (db w) a sd inc x" for x using el by (auto simp: find_None_iff_set)
    with None show ?thesis using findBestCandidate_eval [OF assms] by auto
  next
    case (Some c)
    have "book_before sd c x" if "eligible (db w) a sd inc x" for x
      using find_sorted_first [OF open_orders_sorted _ Some, of x] that el by (auto simp: book_before_def)
    with Some show ?thesis using findBestCandidate_eval [OF assms] el find_SomeD [OF Some] by auto
  qed
qed

theorem findBestCandidate_priority_witness:
  "\<exists>c. findBestCandidate 1 ''SELL'' (scan_order (ex_order 2 1 ''BUY'' (12 * unit8) (3 * unit8))) ex_world = (Inr (Some (scan_order c)), ex_world)
     \<and> eligible (db ex_world) 1 ''SELL'' (ex_order 2 1 ''BUY'' (12 * unit8) (3 * unit8)) c"
proof -
  let ?i = "ex_order 2 1 ''BUY'' (12 * unit8) (3 * unit8)"
  have "?i \<in> set (orders (db ex_world))" by (simp add: ex_world_def ex_tables_def)
  from findBestCandidate_priority [OF ex_world_ok ex_world_quiet this, of 1 "''SELL''"]
  obtain res where r: "findBestCandidate 1 ''SELL'' (scan_order ?i) ex_world = (Inr res, ex_world)"
    and c: "case res of None \<Rightarrow> \<forall>x. \<not> eligible (db ex_world) 1 ''SELL'' ?i x
      | Some c' \<Rightarrow> \<exists>c. c' = scan_order c \<and> eligible (db ex_world) 1 ''SELL'' ?i c
          \<and> (\<forall>x. eligible (db ex_world) 1 ''SELL'' ?i x \<longrightarrow> book_before ''SELL'' c x)" by blast
  have "eligible (db ex_world) 1 ''SELL'' ?i (ex_order 1 2 ''SELL'' (10 * unit8) (5 * unit8))"
    by (simp add: eligible_def ex_defs order_open_def crosses_def const_defs)
  with c r show ?thesis by (cases res) auto
qed

section \<open>Executing a trade\<close>

text \<open>The status the engine computes, from the filled quantity \<open>f\<close>, the new fill \<open>n\<close> and the quantity \<open>q\<close>.\<close>

definition status_after :: "numeric \<Rightarrow> numeric \<Rightarrow> numeric \<Rightarrow> string" where
  "status_after f n q = newStatus (Fin 128 False (rnd 128 (load 128 f + load 128 n))) (Fin 128 False (load 128 q))"

lemma status_after_cases: "status_after f n q = OrderStatusFilled \<or> status_after f n q = OrderStatusPartiallyFilled"
  by (simp add: status_after_def newStatus_def)

lemma status_after_sound:
  assumes "\<bar>f\<bar> \<le> 10 ^ 20" "\<bar>n\<bar> \<le> 10 ^ 20" "\<bar>f + n\<bar> \<le> 10 ^ 20" "\<bar>q\<bar> \<le> 10 ^ 20" and "status_after f n q = OrderStatusFilled"
  shows "q \<le> f + n"
proof -
  have "load 128 q \<le> rnd 128 (load 128 f + load 128 n)"
    using assms(5) by (auto simp: status_after_def newStatus_def split: if_splits)
  then have "units (load 128 q) \<le> units (rnd 128 (load 128 f + load 128 n))"
    unfolding units_def by (intro round_even_mono) simp
  then show ?thesis using assms(1-4) by (simp add: f128.units_load f128.units_add)
qed

lemma load_whole: "\<bar>k\<bar> < 2 ^ 128 \<Longrightarrow> load 128 (10 ^ 8 * k) = of_int k"
  by (simp add: load_def)

lemma status_after_whole:
  assumes "10 ^ 8 dvd f" "10 ^ 8 dvd n" "10 ^ 8 dvd q" and "0 \<le> f" "0 \<le> n" "f + n \<le> 10 ^ 20" "0 \<le> q" "q \<le> 10 ^ 20"
  shows "status_after f n q = (if q \<le> f + n then OrderStatusFilled else OrderStatusPartiallyFilled)"
proof -
  obtain f' n' q' where e: "f = 10 ^ 8 * f'" "n = 10 ^ 8 * n'" "q = 10 ^ 8 * q'" using assms(1-3) by (auto elim!: dvdE)
  have b: "\<bar>f'\<bar> < 2 ^ 128" "\<bar>n'\<bar> < 2 ^ 128" "\<bar>q'\<bar> < 2 ^ 128" "\<bar>f' + n'\<bar> < 2 ^ 128"
    using assms(4-8) unfolding e by simp_all
  have "rnd 128 (load 128 f + load 128 n) = of_int (f' + n')"
    unfolding e load_whole [OF b(1)] load_whole [OF b(2)] using rnd_of_int [OF b(4)] by simp
  moreover have "load 128 q = of_int q'" unfolding e by (rule load_whole [OF b(3)])
  ultimately show ?thesis by (simp add: status_after_def newStatus_def e)
qed

lemma minBig_load: "\<bar>a\<bar> \<le> 10 ^ 20 \<Longrightarrow> \<bar>b\<bar> \<le> 10 ^ 20 \<Longrightarrow>
    minBig (Fin 128 False (load 128 a)) (Fin 128 False (load 128 b)) = Fin 128 False (load 128 (min a b))"
  by (simp add: minBig_def f128.load_le_iff)

lemma fill_quantity_eval:
  assumes "\<bar>o_Price b\<bar> \<le> 10 ^ 20" "\<bar>o_Price s\<bar> \<le> 10 ^ 20" "\<bar>o_RemainingQuantity b\<bar> \<le> 10 ^ 20" "\<bar>o_RemainingQuantity s\<bar> \<le> 10 ^ 20"
  shows "fill_quantity (scan_order b) (scan_order s) =
    (if order_open b \<and> order_open s \<and> o_Price s \<le> o_Price b \<and> 0 < min (o_RemainingQuantity b) (o_RemainingQuantity s)
     then ret (Some (Fin 128 False (load 128 (min (o_RemainingQuantity b) (o_RemainingQuantity s))))) else ret None)"
proof -
  define m where "m = min (o_RemainingQuantity b) (o_RemainingQuantity s)"
  have l: "load 128 m \<le> 0 \<longleftrightarrow> \<not> 0 < m" using load_pos_iff [of 128 m] by linarith
  have mb: "minBig (Fin 128 False (load 128 (o_RemainingQuantity b))) (Fin 128 False (load 128 (o_RemainingQuantity s))) =
      Fin 128 False (load 128 m)" unfolding m_def by (rule minBig_load [OF assms(3,4)])
  have pr: "load 128 (o_Price b) < load 128 (o_Price s) \<longleftrightarrow> \<not> o_Price s \<le> o_Price b"
    using f128.load_less_iff [OF assms(1,2)] by linarith
  have op: "isOpen (o_Status r) = order_open r" for r :: "numeric order" by (simp add: isOpen_def order_open_def)
  show ?thesis unfolding m_def [symmetric]
    by (simp add: fill_quantity_def op pr mb l bigZero_def new_float_def Let_def)
qed

lemma lock_orders_eval:
  assumes "faults w = []" and "find (\<lambda>r. o_ID r = o_ID b0) (orders (db w)) = Some b"
    and "find (\<lambda>r. o_ID r = o_ID s0) (orders (db w)) = Some s" and "o_ID b0 \<noteq> o_ID s0"
  shows "lock_orders b0 s0 w = (Inr (scan_order b, scan_order s), w)"
proof -
  have "o_ID b = o_ID b0" "o_ID s = o_ID s0" using assms(2,3) by (auto dest: find_SomeD)
  then show ?thesis using assms
    by (auto simp: lock_orders_def bindE_def wrapE_def GetByIDForUpdate_eval ret_def)
qed

lemma find_add_fill:
  "find (\<lambda>r. o_ID r = j) (orders (add_fill i n st t d)) =
     map_option (\<lambda>r. if i = j then r\<lparr>o_FilledQuantity := o_FilledQuantity r + n,
       o_RemainingQuantity := o_Quantity r - (o_FilledQuantity r + n), o_Status := st, o_UpdatedAt := t\<rparr> else r)
       (find (\<lambda>r. o_ID r = j) (orders d))"
proof -
  have "find (\<lambda>r. o_ID r = j) (upd_where (\<lambda>r. o_ID r = i) f rs) = map_option (\<lambda>r. if i = j then f r else r) (find (\<lambda>r. o_ID r = j) rs)"
    if "\<And>r. o_ID (f r) = o_ID r" for f and rs :: "numeric order list"
    using that by (induction rs) auto
  then show ?thesis by (simp add: add_fill_def)
qed

lemma add_fill_frame [simp]:
  "users (add_fill i n st t d) = users d" "wallets (add_fill i n st t d) = wallets d"
  "wallet_transactions (add_fill i n st t d) = wallet_transactions d" "assets (add_fill i n st t d) = assets d"
  "trades (add_fill i n st t d) = trades d" "portfolios (add_fill i n st t d) = portfolios d"
  by (simp_all add: add_fill_def)

definition trade_row :: "numeric order \<Rightarrow> numeric order \<Rightarrow> numeric \<Rightarrow> numeric \<Rightarrow> world \<Rightarrow> numeric trade" where
  "trade_row b s n c w = \<lparr>t_ID = seqs w ''trades'', t_BuyOrderID = o_ID b, t_SellOrderID = o_ID s, t_AssetID = o_AssetID b,
     t_Price = c, t_Quantity = n, t_BuyerID = o_UserID b, t_SellerID = o_UserID s, t_CreatedAt = now w\<rparr>"

text \<open>The world after the trade is inserted and both orders are filled.\<close>

definition orders_filled :: "numeric order \<Rightarrow> numeric order \<Rightarrow> numeric \<Rightarrow> numeric \<Rightarrow> world \<Rightarrow> world" where
  "orders_filled b s n c w = w\<lparr>
     db := add_fill (o_ID s) n (status_after (o_FilledQuantity s) n (o_Quantity s)) (now w)
            (add_fill (o_ID b) n (status_after (o_FilledQuantity b) n (o_Quantity b)) (now w)
              ((db w)\<lparr>trades := trades (db w) @ [trade_row b s n c w]\<rparr>)),
     seqs := (seqs w)(''trades'' := seqs w ''trades'' + 1)\<rparr>"

text \<open>Two open orders that match, for \<open>n\<close> units at a price of \<open>c\<close>.\<close>

definition matching :: "tables \<Rightarrow> numeric order \<Rightarrow> numeric order \<Rightarrow> numeric \<Rightarrow> numeric \<Rightarrow> bool" where
  "matching d b s n c \<longleftrightarrow> b \<in> set (orders d) \<and> s \<in> set (orders d) \<and> o_ID b \<noteq> o_ID s \<and> o_AssetID b = o_AssetID s
     \<and> o_UserID b \<noteq> o_UserID s \<and> order_open b \<and> order_open s \<and> o_Price s \<le> o_Price b
     \<and> 0 < c \<and> numeric_fits c \<and> n = min (o_RemainingQuantity b) (o_RemainingQuantity s) \<and> 0 < n
     \<and> 0 \<le> o_FilledQuantity b \<and> 0 \<le> o_FilledQuantity s"

lemma matching_amounts:
  assumes "schema_ok d sq" and "matching d b s n c"
  shows "numeric_fits n" "0 < n" "o_FilledQuantity b + n \<le> o_Quantity b" "o_FilledQuantity s + n \<le> o_Quantity s"
    "numeric_fits (o_FilledQuantity b + n)" "numeric_fits (o_FilledQuantity s + n)"
    "\<bar>o_Price b\<bar> \<le> 10 ^ 20" "\<bar>o_Price s\<bar> \<le> 10 ^ 20" "\<bar>o_RemainingQuantity b\<bar> \<le> 10 ^ 20" "\<bar>o_RemainingQuantity s\<bar> \<le> 10 ^ 20"
    "\<bar>n\<bar> \<le> 10 ^ 20" "\<bar>c\<bar> \<le> 10 ^ 20" "0 < c" "numeric_fits c"
    "find (\<lambda>r. o_ID r = o_ID b) (orders d) = Some b" "find (\<lambda>r. o_ID r = o_ID s) (orders d) = Some s"
proof -
  have r: "order_row_ok b" "order_row_ok s" using assms by (auto simp: schema_ok_def orders_ok_def matching_def)
  have m: "n \<le> o_RemainingQuantity b" "n \<le> o_RemainingQuantity s" "0 < n" "0 \<le> o_FilledQuantity b" "0 \<le> o_FilledQuantity s"
    "0 < c" "numeric_fits c" using assms(2) by (auto simp: matching_def)
  from r m show "numeric_fits n" "0 < n" "o_FilledQuantity b + n \<le> o_Quantity b" "o_FilledQuantity s + n \<le> o_Quantity s"
    "numeric_fits (o_FilledQuantity b + n)" "numeric_fits (o_FilledQuantity s + n)"
    "\<bar>o_Price b\<bar> \<le> 10 ^ 20" "\<bar>o_Price s\<bar> \<le> 10 ^ 20" "\<bar>o_RemainingQuantity b\<bar> \<le> 10 ^ 20" "\<bar>o_RemainingQuantity s\<bar> \<le> 10 ^ 20"
    "\<bar>n\<bar> \<le> 10 ^ 20" "\<bar>c\<bar> \<le> 10 ^ 20" "0 < c" "numeric_fits c"
    by (auto simp: order_row_ok_def numeric_fits_def)
  show "find (\<lambda>r. o_ID r = o_ID b) (orders d) = Some b" "find (\<lambda>r. o_ID r = o_ID s) (orders d) = Some s"
    using assms by (auto simp: schema_ok_def orders_ok_def matching_def intro!: find_key)
qed

lemma fmt8f_load: "0 \<le> n \<Longrightarrow> \<bar>n\<bar> \<le> 10 ^ 20 \<Longrightarrow> fmt8f (Fin 128 False (load 128 n)) = numeric_out n"
  by (simp add: fmt8f_units load_nonneg f128.units_load)

lemma update_orders_eval:
  assumes "schema_ok (db w) (seqs w)" and "faults w = []" and "matching (db w) b s n c"
  shows "update_orders (scan_order b) (scan_order s) (Fin 128 False (load 128 n)) (Fin 128 False (load 128 c)) w =
    (Inr (scan_trade (trade_row b s n c w)), orders_filled b s n c w)"
proof -
  note m = matching_amounts [OF assms(1,3)]
  let ?st = "\<lambda>r. status_after (o_FilledQuantity r) n (o_Quantity r)"
  define w1 where "w1 = w\<lparr>db := (db w)\<lparr>trades := trades (db w) @ [trade_row b s n c w]\<rparr>,
      seqs := (seqs w)(''trades'' := seqs w ''trades'' + 1)\<rparr>"
  define w2 where "w2 = w1\<lparr>db := add_fill (o_ID b) n (?st b) (now w) (db w1)\<rparr>"
  have nn: "numeric_in (numeric_out n) = Some n" "numeric_in (numeric_out c) = Some c"
    using m by (simp_all add: numeric_in_out)
  have mem: "b \<in> set (orders (db w))" "s \<in> set (orders (db w))" and ids: "o_ID b \<noteq> o_ID s" using assms(3) by (auto simp: matching_def)
  let ?t = "\<lparr>t_ID = 0, t_BuyOrderID = o_ID b, t_SellOrderID = o_ID s, t_AssetID = o_AssetID b, t_Price = numeric_out c,
      t_Quantity = numeric_out n, t_BuyerID = o_UserID b, t_SellerID = o_UserID s, t_CreatedAt = zero_time\<rparr>"
  have t: "trade_Insert ?t w = (Inr (scan_trade (trade_row b s n c w)), w1)"
    unfolding w1_def
    by (rule trade_Insert_eval) (use assms(1,2) mem nn m in \<open>auto simp: trade_row_def schema_ok_def orders_ok_def\<close>)
  have f1: "UpdateFill (o_ID b) (numeric_out n) (?st b) w1 = (Inr (), w2)"
    using UpdateFill_eval [of w1 "o_ID b" b] assms(2) m nn by (simp add: w1_def w2_def)
  have f2: "UpdateFill (o_ID s) (numeric_out n) (?st s) w2 = (Inr (), orders_filled b s n c w)"
    using UpdateFill_eval [of w2 "o_ID s" s] assms(2) m nn ids by (simp add: w1_def w2_def orders_filled_def find_add_fill)
  show ?thesis
    using t f1 f2 m
    by (simp add: update_orders_def Let_def fmt8f_load bindE_def wrapE_def ret_def orPanic_def Add_Fin status_after_def
        del: Add.simps)
qed

subsection \<open>Money\<close>

lemma debit_buyer_eval:
  assumes "faults w = []" and "find (\<lambda>x. w_UserID x = o_UserID b) (wallets (db w)) = Some r"
    and "nb = rnd 128 (load 128 (w_Balance r) - v)" and "0 \<le> nb" and "numeric_fits (units nb)" and "numeric_fits (units v)"
  shows "debit_buyer (scan_order b) (Fin 128 False v) w = (Inr (scan_wallet r, Fin 128 False nb),
    booked r (units nb) (units v) TxTypeWithdrawal (Some (''Trade fill: buy order #'' @ show_int (o_ID b))) w)"
proof -
  have r: "r \<in> set (wallets (db w))" using assms(2) by (auto dest: find_SomeD)
  have a: "numeric_in (fmt8f (Fin 128 False nb)) = Some (units nb)" "numeric_in (fmt8f (Fin 128 False v)) = Some (units v)"
    using assms(5,6) by (simp_all add: numeric_in_units)
  show ?thesis
    using UpdateBalance_eval [OF assms(1) r a(1) units_nonneg [OF assms(4)]] InsertTransaction_eval [OF assms(1) r a(2)] assms(4)
    by (simp add: debit_buyer_def bindE_def wrapE_def GetByUserIDForUpdate_eval [OF assms(1)] assms(2) orPanic_def ret_def check_def
        Sub_Fin assms(3) [symmetric] bigZero_def new_float_def)
qed

lemma debit_buyer_short:
  assumes "faults w = []" and "find (\<lambda>x. w_UserID x = o_UserID b) (wallets (db w)) = Some r" and "load 128 (w_Balance r) < v"
  shows "debit_buyer (scan_order b) (Fin 128 False v) w =
    (Inl (ErrorString ''executeTrade: buyer has insufficient balance at execution time''), w)"
proof -
  have "rnd 128 (load 128 (w_Balance r) - v) < 0"
    using rnd_pos [of 128 "v - load 128 (w_Balance r)"] assms(3) rnd_uminus [of 128 "v - load 128 (w_Balance r)"] by simp
  then show ?thesis
    by (simp add: debit_buyer_def bindE_def wrapE_def GetByUserIDForUpdate_eval [OF assms(1)] assms(2) orPanic_def ret_def check_def
        raise_def Sub_Fin bigZero_def new_float_def)
qed

lemma credit_seller_eval:
  assumes "faults w = []" and "find (\<lambda>x. w_UserID x = o_UserID s) (wallets (db w)) = Some r"
    and "nb = rnd 128 (load 128 (w_Balance r) + v)" and "0 \<le> nb" and "numeric_fits (units nb)" and "numeric_fits (units v)"
  shows "credit_seller (scan_order s) (Fin 128 False v) w = (Inr (scan_wallet r, Fin 128 False nb),
    booked r (units nb) (units v) TxTypeDeposit (Some (''Trade fill: sell order #'' @ show_int (o_ID s))) w)"
proof -
  have r: "r \<in> set (wallets (db w))" using assms(2) by (auto dest: find_SomeD)
  have a: "numeric_in (fmt8f (Fin 128 False nb)) = Some (units nb)" "numeric_in (fmt8f (Fin 128 False v)) = Some (units v)"
    using assms(5,6) by (simp_all add: numeric_in_units)
  show ?thesis
    using UpdateBalance_eval [OF assms(1) r a(1) units_nonneg [OF assms(4)]] InsertTransaction_eval [OF assms(1) r a(2)]
    by (simp add: credit_seller_def bindE_def wrapE_def GetByUserIDForUpdate_eval [OF assms(1)] assms(2) orPanic_def ret_def
        Add_Fin assms(3) [symmetric] del: Add.simps)
qed

lemma find_other_wallet:
  assumes "schema_ok (db w) (seqs w)" and "r \<in> set (wallets (db w))" and "u \<noteq> w_UserID r"
    and "find (\<lambda>x. w_UserID x = u) (wallets (db w)) = Some q"
  shows "find (\<lambda>x. w_UserID x = u) (wallets (db (booked r b n k descr w))) = Some q"
proof -
  have q: "q \<in> set (wallets (db w))" "w_UserID q = u" using assms(4) by (auto dest: find_SomeD)
  then have "w_ID q \<noteq> w_ID r" using wallet_by_id [OF assms(1,2), of q] assms(3) by auto
  then show ?thesis
    using assms(4) by (simp add: booked_wallets set_balance_rows [OF assms(1,2)] find_upd_where)
qed

subsection \<open>The asset\<close>

lemma move_asset_eval:
  assumes "faults w = []" and "schema_ok (db w) (seqs w)" and "0 < n" "numeric_fits n" "0 < c" "numeric_fits c"
    and "o_UserID b \<noteq> o_UserID s" and "o_UserID b \<in> u_ID ` set (users (db w))" and "o_AssetID b \<in> a_ID ` set (assets (db w))"
    and "numeric_fits (holding_of (db w) (o_UserID b) (o_AssetID b) + n)" and "n \<le> holding_of (db w) (o_UserID s) (o_AssetID s)"
  shows "move_asset (scan_order b) (scan_order s) (Fin 128 False (load 128 n)) (Fin 128 False (load 128 c)) w =
    (Inr (), w\<lparr>db := reduce_holding (o_UserID s) (o_AssetID s) n (upsert_holding (o_UserID b) (o_AssetID b) n c (db w))\<rparr>)"
proof -
  let ?d = "upsert_holding (o_UserID b) (o_AssetID b) n c (db w)"
  have s: "fmt8f (Fin 128 False (load 128 n)) = numeric_out n" "fmt8f (Fin 128 False (load 128 c)) = numeric_out c"
    using assms(3-6) by (auto intro!: fmt8f_load simp: numeric_fits_def)
  have i: "numeric_in (numeric_out n) = Some n" "numeric_in (numeric_out c) = Some c" using assms(4,6) by (simp_all add: numeric_in_out)
  have u: "UpsertBuyerHolding (o_UserID b) (o_AssetID b) (numeric_out n) (numeric_out c) w = (Inr (), w\<lparr>db := ?d\<rparr>)"
    using assms i by (intro UpsertBuyerHolding_eval) auto
  have ok: "schema_ok ?d (seqs w)" using preservesD [OF UpsertBuyerHolding_preserves u assms(2)] by simp
  have h: "n \<le> holding_of ?d (o_UserID s) (o_AssetID s)" using assms(7,11) by (simp add: holding_of_upsert)
  then have "list_ex (holding_key (o_UserID s) (o_AssetID s)) (portfolios ?d)"
    using assms(3) by (auto simp: holding_of_def find_list_ex split: option.splits)
  then have "ReduceSellerHolding (o_UserID s) (o_AssetID s) (numeric_out n) (w\<lparr>db := ?d\<rparr>) =
      (Inr (), w\<lparr>db := reduce_holding (o_UserID s) (o_AssetID s) n ?d\<rparr>)"
    using ReduceSellerHolding_eval [of "w\<lparr>db := ?d\<rparr>" "numeric_out n" n "o_UserID s" "o_AssetID s"] assms(1,3) i ok h by simp
  with u s show ?thesis by (simp add: move_asset_def bindE_def wrapE_def)
qed

subsection \<open>All of it\<close>

text \<open>What a trade needs of the traders: funds for the cost, room for it, and the asset.\<close>

definition backed :: "tables \<Rightarrow> numeric order \<Rightarrow> numeric order \<Rightarrow> numeric \<Rightarrow> numeric \<Rightarrow> numeric \<Rightarrow> numeric \<Rightarrow> bool" where
  "backed d b s n c bb sb \<longleftrightarrow> balance_of d (o_UserID b) = Some bb \<and> balance_of d (o_UserID s) = Some sb
     \<and> n * c < bb * 10 ^ 8 \<and> sb * 10 ^ 8 + n * c \<le> 10 ^ 19 * 10 ^ 8
     \<and> n \<le> holding_of d (o_UserID s) (o_AssetID s) \<and> holding_of d (o_UserID b) (o_AssetID b) + n < 10 ^ 20"

definition debited :: "numeric order \<Rightarrow> numeric order \<Rightarrow> numeric \<Rightarrow> numeric \<Rightarrow> numeric wallet \<Rightarrow> world \<Rightarrow> world" where
  "debited b s n c rb w = (let v = float_cost 128 n c in
     booked rb (units (rnd 128 (load 128 (w_Balance rb) - v))) (units v) TxTypeWithdrawal
       (Some (''Trade fill: buy order #'' @ show_int (o_ID b))) (orders_filled b s n c w))"

definition credited :: "numeric order \<Rightarrow> numeric order \<Rightarrow> numeric \<Rightarrow> numeric \<Rightarrow> numeric wallet \<Rightarrow> numeric wallet \<Rightarrow> world \<Rightarrow> world" where
  "credited b s n c rb rs w = (let v = float_cost 128 n c in
     booked rs (units (rnd 128 (load 128 (w_Balance rs) + v))) (units v) TxTypeDeposit
       (Some (''Trade fill: sell order #'' @ show_int (o_ID s))) (debited b s n c rb w))"

definition settled :: "numeric order \<Rightarrow> numeric order \<Rightarrow> numeric \<Rightarrow> numeric \<Rightarrow> numeric wallet \<Rightarrow> numeric wallet \<Rightarrow> world \<Rightarrow> world" where
  "settled b s n c rb rs w = (let w3 = credited b s n c rb rs w in
     w3\<lparr>db := reduce_holding (o_UserID s) (o_AssetID s) n (upsert_holding (o_UserID b) (o_AssetID b) n c (db w3))\<rparr>)"

definition settlement_of :: "numeric order \<Rightarrow> numeric order \<Rightarrow> numeric \<Rightarrow> numeric \<Rightarrow> numeric wallet \<Rightarrow> numeric wallet \<Rightarrow> world \<Rightarrow> settlement" where
  "settlement_of b s n c rb rs w = (let v = float_cost 128 n c in
     \<lparr>s_Trade = scan_trade (trade_row b s n c w), s_BuyerID = o_UserID b, s_SellerID = o_UserID s,
      s_BuyerWallet = scan_wallet rb, s_SellerWallet = scan_wallet rs,
      s_BuyerNewBal = Fin 128 False (rnd 128 (load 128 (w_Balance rb) - v)),
      s_SellerNewBal = Fin 128 False (rnd 128 (load 128 (w_Balance rs) + v)), s_Cost = fmt8f (Fin 128 False v)\<rparr>)"

lemma orders_filled_frame [simp]:
  "faults (orders_filled b s n c w) = faults w" "now (orders_filled b s n c w) = now w"
  "wallets (db (orders_filled b s n c w)) = wallets (db w)" "users (db (orders_filled b s n c w)) = users (db w)"
  "assets (db (orders_filled b s n c w)) = assets (db w)" "portfolios (db (orders_filled b s n c w)) = portfolios (db w)"
  "wallet_transactions (db (orders_filled b s n c w)) = wallet_transactions (db w)"
  by (simp_all add: orders_filled_def)

lemma round_near_bounds:
  fixes y t :: rat
  assumes "\<bar>y - t\<bar> \<le> 3 / 10 ^ 9" and "0 \<le> t" and "t \<le> of_int m"
  shows "0 \<le> round_even y \<and> round_even y \<le> m"
proof -
  define U :: rat where "U = of_int (round_even y)"
  have "\<bar>U - y\<bar> \<le> 1/2" unfolding U_def by (rule round_even_error)
  with assms have "- 1 < U" "U < of_int m + 1" unfolding abs_le_iff by simp_all
  then have "of_int (- 1) < (of_int (round_even y) :: rat)" "(of_int (round_even y) :: rat) < of_int (m + 1)"
    by (simp_all add: U_def)
  then show ?thesis unfolding of_int_less_iff by simp
qed

lemma trade_amounts:
  assumes "0 \<le> n" "0 \<le> c" "0 \<le> bb" "bb \<le> 10 ^ 20" "n * c < bb * 10 ^ 8" "0 \<le> sb" "sb * 10 ^ 8 + n * c \<le> 10 ^ 19 * 10 ^ 8"
  shows "0 \<le> units (float_cost 128 n c)" "units (float_cost 128 n c) \<le> 10 ^ 19"
    "0 \<le> rnd 128 (load 128 bb - float_cost 128 n c)" "units (rnd 128 (load 128 bb - float_cost 128 n c)) \<le> bb"
    "0 \<le> rnd 128 (load 128 sb + float_cost 128 n c)" "units (rnd 128 (load 128 sb + float_cost 128 n c)) \<le> 10 ^ 19"
    "0 \<le> float_cost 128 n c"
proof -
  have nc: "0 \<le> n * c" using assms(1,2) by simp
  have r: "(of_int (n * c) :: rat) \<le> of_int (10 ^ 19 * 10 ^ 8)" "(0 :: rat) \<le> of_int (n * c)"
    "(of_int (sb * 10 ^ 8 + n * c) :: rat) \<le> of_int (10 ^ 19 * 10 ^ 8)" "(of_int (n * c) :: rat) \<le> of_int (bb * 10 ^ 8)"
    "(of_int bb :: rat) \<le> of_int (10 ^ 20)" "(0 :: rat) \<le> of_int sb"
    using assms nc unfolding of_int_le_iff of_int_0_le_iff by simp_all
  have "sb * 10 ^ 8 \<le> 10 ^ 19 * 10 ^ 8" using assms(7) nc by linarith
  then have B: "n * c \<le> 10 ^ 20 * 10 ^ 8" "\<bar>bb\<bar> \<le> 10 ^ 20" "\<bar>sb\<bar> \<le> 10 ^ 20" using assms by simp_all
  have cn: "\<bar>float_cost 128 n c * 10 ^ 8 - of_int (n * c) / 10 ^ 8\<bar> \<le> 3 / 10 ^ 9"
    using f128.float_cost_near [OF assms(1,2) B(1)] by simp
  show "0 \<le> units (float_cost 128 n c)" "units (float_cost 128 n c) \<le> 10 ^ 19"
    using round_near_bounds [OF cn, of "10 ^ 19"] r unfolding units_def by simp_all
  have "\<bar>rnd 128 (load 128 bb + - 1 * float_cost 128 n c) * 10 ^ 8 - (of_int bb + - 1 * (of_int (n * c) / 10 ^ 8))\<bar> \<le> 3 / 10 ^ 9"
    by (rule f128.moved_near [OF assms(1,2) B(1,2)]) (use r in simp_all)
  from round_near_bounds [OF this, of bb] show "units (rnd 128 (load 128 bb - float_cost 128 n c)) \<le> bb"
    using r unfolding units_def by simp
  show "0 \<le> rnd 128 (load 128 bb - float_cost 128 n c)"
    using f128.debit_sign(1) [OF assms(1,2) B(1) assms(3,4,5)] by (intro rnd_nonneg) auto
  show v: "0 \<le> float_cost 128 n c"
    unfolding float_cost_def using assms(1,2) by (intro rnd_nonneg mult_nonneg_nonneg load_nonneg) auto
  show "0 \<le> rnd 128 (load 128 sb + float_cost 128 n c)"
    using v assms(6) by (intro rnd_nonneg add_nonneg_nonneg load_nonneg) auto
  have "\<bar>rnd 128 (load 128 sb + 1 * float_cost 128 n c) * 10 ^ 8 - (of_int sb + 1 * (of_int (n * c) / 10 ^ 8))\<bar> \<le> 3 / 10 ^ 9"
    by (rule f128.moved_near [OF assms(1,2) B(1,3)]) (use r in simp_all)
  from round_near_bounds [OF this, of "10 ^ 19"] show "units (rnd 128 (load 128 sb + float_cost 128 n c)) \<le> 10 ^ 19"
    using r unfolding units_def by simp
qed

lemma executeTrade_tx_eval:
  assumes ok: "schema_ok (db w) (seqs w)" and q: "faults w = []" and m: "matching (db w) b s n c" and bk: "backed (db w) b s n c bb sb"
    and rb: "find (\<lambda>x. w_UserID x = o_UserID b) (wallets (db w)) = Some rb"
    and rs: "find (\<lambda>x. w_UserID x = o_UserID s) (wallets (db w)) = Some rs"
    and ids: "o_ID b0 = o_ID b" "o_ID s0 = o_ID s"
  shows "\<exists>st. executeTrade_tx b0 s0 (numeric_out c) w = (Inr (Some st), settled b s n c rb rs w)
    \<and> schema_ok (db (settled b s n c rb rs w)) (seqs (settled b s n c rb rs w))
    \<and> st = settlement_of b s n c rb rs w
    \<and> schema_ok (db (orders_filled b s n c w)) (seqs (orders_filled b s n c w))
    \<and> schema_ok (db (debited b s n c rb w)) (seqs (debited b s n c rb w))
    \<and> schema_ok (db (credited b s n c rb rs w)) (seqs (credited b s n c rb rs w))"
proof -
  define v where "v = float_cost 128 n c"
  define bn where "bn = rnd 128 (load 128 (w_Balance rb) - v)"
  define sn where "sn = rnd 128 (load 128 (w_Balance rs) + v)"
  define w1 where "w1 = orders_filled b s n c w"
  define w2 where "w2 = debited b s n c rb w"
  define w3 where "w3 = credited b s n c rb rs w"
  note ma = matching_amounts [OF ok m]
  have ms: "o_UserID b \<noteq> o_UserID s" "o_ID b \<noteq> o_ID s" "b \<in> set (orders (db w))" using m by (auto simp: matching_def)
  have bal: "w_Balance rb = bb" "w_Balance rs = sb" using bk rb rs by (auto simp: backed_def balance_of_def)
  have row: "rb \<in> set (wallets (db w))" "rs \<in> set (wallets (db w))" "w_UserID rb = o_UserID b" "w_UserID rs = o_UserID s"
    using rb rs by (auto dest: find_SomeD)
  then have wb: "0 \<le> bb" "bb \<le> 10 ^ 20" "0 \<le> sb" "numeric_fits bb" using ok bal by (auto simp: schema_ok_def wallets_ok_def numeric_fits_def)
  have "n * c < bb * 10 ^ 8" "sb * 10 ^ 8 + n * c \<le> 10 ^ 19 * 10 ^ 8" using bk by (auto simp: backed_def)
  from trade_amounts [OF _ _ wb(1,2) this(1) wb(3) this(2)] ma(2,13)
  have ta: "0 \<le> units v" "units v \<le> 10 ^ 19" "0 \<le> bn" "units bn \<le> bb" "0 \<le> sn" "units sn \<le> 10 ^ 19" "0 \<le> v"
    unfolding v_def bn_def sn_def bal by simp_all
  have f: "numeric_fits (units v)" "numeric_fits (units bn)" "numeric_fits (units sn)"
    using ta wb(4) units_nonneg [OF ta(3)] units_nonneg [OF ta(5)] by (auto simp: numeric_fits_def)
  have e1: "update_orders (scan_order b) (scan_order s) (Fin 128 False (load 128 n)) (Fin 128 False (load 128 c)) w =
      (Inr (scan_trade (trade_row b s n c w)), w1)" unfolding w1_def by (rule update_orders_eval [OF ok q m])
  have ok1: "schema_ok (db w1) (seqs w1)" by (rule preservesD [OF update_orders_rules(1) e1 ok])
  have q1: "faults w1 = []" by (simp add: w1_def q)
  have e2: "debit_buyer (scan_order b) (Fin 128 False v) w1 = (Inr (scan_wallet rb, Fin 128 False bn), w2)"
    unfolding w2_def debited_def Let_def v_def [symmetric] bn_def [symmetric] w1_def [symmetric]
    using q1 rb ta f by (intro debit_buyer_eval) (simp_all add: w1_def bn_def)
  have ok2: "schema_ok (db w2) (seqs w2)" by (rule preservesD [OF debit_buyer_rules(1) e2 ok1])
  have rs2: "find (\<lambda>x. w_UserID x = o_UserID s) (wallets (db w2)) = Some rs"
    unfolding w2_def debited_def Let_def using ok1 row ms rs by (intro find_other_wallet) (simp_all add: w1_def)
  have e3: "credit_seller (scan_order s) (Fin 128 False v) w2 = (Inr (scan_wallet rs, Fin 128 False sn), w3)"
    unfolding w3_def credited_def Let_def v_def [symmetric] sn_def [symmetric] w2_def [symmetric]
    using q1 rs2 ta f by (intro credit_seller_eval) (simp_all add: w2_def debited_def Let_def w1_def sn_def)
  have ok3: "schema_ok (db w3) (seqs w3)" by (rule preservesD [OF credit_seller_rules(1) e3 ok2])
  have hol: "holding_of (db w3) = holding_of (db w)"
    by (simp add: holding_of_def fun_eq_iff w3_def credited_def debited_def Let_def)
  have "0 \<le> holding_of (db w) u a" for u a
    using ok by (auto simp: holding_of_def schema_ok_def portfolios_ok_def split: option.split dest!: find_SomeD)
  with bk ma(2) have "numeric_fits (holding_of (db w) (o_UserID b) (o_AssetID b) + n)"
    by (auto simp: backed_def numeric_fits_def)
  then have e4: "move_asset (scan_order b) (scan_order s) (Fin 128 False (load 128 n)) (Fin 128 False (load 128 c)) w3 =
      (Inr (), settled b s n c rb rs w)"
    using move_asset_eval [of w3 n c b s] ok3 ma ms bk q1 ok hol
    by (simp add: settled_def credited_def debited_def Let_def backed_def schema_ok_def orders_ok_def w1_def w3_def)
  have ok4: "schema_ok (db (settled b s n c rb rs w)) (seqs (settled b s n c rb rs w))"
    by (rule preservesD [OF move_asset_rules(1) e4 ok3])
  have l: "lock_orders b0 s0 w = (Inr (scan_order b, scan_order s), w)"
    using lock_orders_eval [OF q, of b0 b s0 s] ma ms ids by simp
  have fq: "fill_quantity (scan_order b) (scan_order s) = ret (Some (Fin 128 False (load 128 n)))"
    using fill_quantity_eval [OF ma(7-10)] m by (auto simp: matching_def)
  have mul: "Mul 0 (Fin 128 False (load 128 n)) (Fin 128 False (load 128 c)) = Some (Fin 128 False v)"
    using ma by (simp add: Mul_Fin load_nonneg float_cost_def v_def del: Mul.simps)
  have "executeTrade_tx b0 s0 (numeric_out c) w = (Inr (Some \<lparr>s_Trade = scan_trade (trade_row b s n c w), s_BuyerID = o_UserID b,
      s_SellerID = o_UserID s, s_BuyerWallet = scan_wallet rb, s_SellerWallet = scan_wallet rs, s_BuyerNewBal = Fin 128 False bn,
      s_SellerNewBal = Fin 128 False sn, s_Cost = fmt8f (Fin 128 False v)\<rparr>), settled b s n c rb rs w)"
    using l fq mul e1 e2 e3 e4
    by (simp add: executeTrade_tx_def bindE_def ret_def orPanic_def del: Mul.simps)
  then show ?thesis using ok1 ok2 ok3 ok4
    by (auto simp: settlement_of_def Let_def v_def bn_def sn_def w1_def w2_def w3_def)
qed

text \<open>What is seen of the world after a trade.\<close>

lemma settled_observed:
  assumes ok: "schema_ok (db w) (seqs w)" and q: "faults w = []" and m: "matching (db w) b s n c" and bk: "backed (db w) b s n c bb sb"
    and rb: "find (\<lambda>x. w_UserID x = o_UserID b) (wallets (db w)) = Some rb"
    and rs: "find (\<lambda>x. w_UserID x = o_UserID s) (wallets (db w)) = Some rs"
  defines "bn \<equiv> units (rnd 128 (load 128 bb - float_cost 128 n c))" and "sn \<equiv> units (rnd 128 (load 128 sb + float_cost 128 n c))"
    and "d \<equiv> db (settled b s n c rb rs w)"
  shows "balance_of d = (balance_of (db w))(o_UserID b \<mapsto> bn, o_UserID s \<mapsto> sn)"
    and "total_money d = total_money (db w) + (bn - bb) + (sn - sb)"
    and "books_balance (db w) \<Longrightarrow> bn = bb - units (float_cost 128 n c) \<Longrightarrow> sn = sb + units (float_cost 128 n c) \<Longrightarrow> books_balance d"
    and "holding_of d u a = holding_of (db w) u a + (if u = o_UserID b \<and> a = o_AssetID b then n else 0)
           - (if u = o_UserID s \<and> a = o_AssetID s then n else 0)"
    and "total_holding d a = total_holding (db w) a"
    and "trades d = trades (db w) @ [trade_row b s n c w]"
    and "orders d = orders (db (orders_filled b s n c w))"
proof -
  let ?v = "float_cost 128 n c"
  note st = executeTrade_tx_eval [OF ok q m bk rb rs scan_order_simps(1) scan_order_simps(1)]
  have ok1: "schema_ok (db (orders_filled b s n c w)) (seqs (orders_filled b s n c w))"
    and ok2: "schema_ok (db (debited b s n c rb w)) (seqs (debited b s n c rb w))"
    and ok3: "schema_ok (db (credited b s n c rb rs w)) (seqs (credited b s n c rb rs w))" using st by blast+
  have bal: "w_Balance rb = bb" "w_Balance rs = sb" using bk rb rs by (auto simp: backed_def balance_of_def)
  have row: "rb \<in> set (wallets (db w))" "w_UserID rb = o_UserID b" "w_UserID rs = o_UserID s"
    using rb rs by (auto dest: find_SomeD)
  have us: "o_UserID s \<noteq> o_UserID b" and as: "o_AssetID b = o_AssetID s" using m by (auto simp: matching_def)
  have r1: "rb \<in> set (wallets (db (orders_filled b s n c w)))" using row by simp
  have "find (\<lambda>x. w_UserID x = o_UserID s) (wallets (db (debited b s n c rb w))) = Some rs"
    unfolding debited_def Let_def using ok1 r1 row us rs by (intro find_other_wallet) simp_all
  then have r2: "rs \<in> set (wallets (db (debited b s n c rb w)))" by (auto dest: find_SomeD)
  have wal: "wallets d = wallets (db (credited b s n c rb rs w))"
    and txs: "wallet_transactions d = wallet_transactions (db (credited b s n c rb rs w))"
    by (simp_all add: d_def settled_def Let_def)
  have "balance_of d = balance_of (db (credited b s n c rb rs w))" using wal by (simp add: balance_of_def fun_eq_iff)
  also have "\<dots> = (balance_of (db w))(o_UserID b \<mapsto> bn, o_UserID s \<mapsto> sn)"
    using balance_of_booked [OF ok2 r2] balance_of_booked [OF ok1 r1] row bal
    by (simp add: credited_def Let_def debited_def bn_def sn_def) (simp add: balance_of_def fun_eq_iff)
  finally show "balance_of d = (balance_of (db w))(o_UserID b \<mapsto> bn, o_UserID s \<mapsto> sn)" .
  have "total_money d = total_money (db (credited b s n c rb rs w))" using wal by (simp add: total_money_def)
  also have "\<dots> = total_money (db (debited b s n c rb w)) + sn - sb"
    using total_money_booked [OF ok2 r2] bal by (simp add: credited_def Let_def sn_def)
  also have "total_money (db (debited b s n c rb w)) = total_money (db w) + bn - bb"
    using total_money_booked [OF ok1 r1] bal by (simp add: debited_def Let_def bn_def) (simp add: total_money_def)
  finally show "total_money d = total_money (db w) + (bn - bb) + (sn - sb)" by simp
  show "books_balance d" if "books_balance (db w)" "bn = bb - units ?v" "sn = sb + units ?v"
  proof -
    have "books_balance (db (orders_filled b s n c w))" using that(1) by (simp add: books_balance_def ledger_def)
    then have "books_balance (db (debited b s n c rb w))"
      unfolding debited_def Let_def using that(2) bal by (intro books_booked [OF ok1 r1]) (simp_all add: bn_def)
    then have "books_balance (db (credited b s n c rb rs w))"
      unfolding credited_def Let_def using that(3) bal by (intro books_booked [OF ok2 r2]) (simp_all add: sn_def)
    then show ?thesis using wal txs by (simp add: books_balance_def ledger_def)
  qed
  have p: "portfolios (db (credited b s n c rb rs w)) = portfolios (db w)" by (simp add: credited_def debited_def Let_def)
  let ?d3 = "db (credited b s n c rb rs w)"
  let ?u = "upsert_holding (o_UserID b) (o_AssetID b) n c ?d3"
  have h3: "holding_of ?d3 = holding_of (db w)" by (simp add: holding_of_def fun_eq_iff p)
  have "n \<le> holding_of ?u (o_UserID s) (o_AssetID s)" using bk us by (simp add: backed_def holding_of_upsert h3)
  moreover have n: "0 < n" using matching_amounts(2) [OF ok m] .
  ultimately have ex: "list_ex (holding_key (o_UserID s) (o_AssetID s)) (portfolios ?u)"
    by (auto simp: holding_of_def find_list_ex split: option.splits)
  have d: "d = reduce_holding (o_UserID s) (o_AssetID s) n ?u" by (simp add: d_def settled_def Let_def)
  show "holding_of d u a = holding_of (db w) u a + (if u = o_UserID b \<and> a = o_AssetID b then n else 0)
           - (if u = o_UserID s \<and> a = o_AssetID s then n else 0)"
    unfolding d by (simp add: holding_of_reduce [OF ex] holding_of_upsert h3)
  have pok: "portfolios_ok ?d3" using ok3 by (simp add: schema_ok_def)
  have "schema_ok ?u (seqs (credited b s n c rb rs w))"
  proof (rule upsert_holding_ok [OF ok3])
    fix h assume "find (holding_key (o_UserID b) (o_AssetID b)) (portfolios ?d3) = Some h"
    then have h: "find (holding_key (o_UserID b) (o_AssetID b)) (portfolios (db w)) = Some h" by (simp add: p)
    then have "0 \<le> h_Quantity h" using ok by (auto simp: schema_ok_def portfolios_ok_def dest!: find_SomeD)
    then show "h_Quantity h + n \<noteq> 0 \<and> numeric_fits (h_Quantity h + n)"
      using n bk h by (auto simp: backed_def holding_of_def numeric_fits_def)
  next
    have "o_UserID b \<in> u_ID ` set (users (db w))" "o_AssetID b \<in> a_ID ` set (assets (db w))"
      using ok m by (auto simp: schema_ok_def orders_ok_def matching_def)
    then show "list_ex (\<lambda>r. u_ID r = o_UserID b) (users ?d3) \<and> list_ex (\<lambda>r. a_ID r = o_AssetID b) (assets ?d3)"
      by (auto simp: list_ex_iff credited_def debited_def Let_def orders_filled_def)
  qed (use matching_amounts [OF ok m] in auto)
  then have "portfolios_ok ?u" by (simp add: schema_ok_def)
  then show "total_holding d a = total_holding (db w) a"
    unfolding d using as total_holding_reduce [OF _ ex] total_holding_upsert [OF pok] by (simp add: total_holding_def p)
  show "trades d = trades (db w) @ [trade_row b s n c w]"
    by (simp add: d_def settled_def credited_def debited_def Let_def orders_filled_def)
  show "orders d = orders (db (orders_filled b s n c w))"
    by (simp add: d_def settled_def credited_def debited_def Let_def)
qed

section \<open>Properties of a trade\<close>

text \<open>The buyer and the seller of a match of an incoming order \<open>i\<close> with a candidate \<open>k\<close>.\<close>

definition buyer_of :: "numeric order \<Rightarrow> numeric order \<Rightarrow> numeric order" where
  "buyer_of i k = (if o_Side i = OrderSideBuy then i else k)"

definition seller_of :: "numeric order \<Rightarrow> numeric order \<Rightarrow> numeric order" where
  "seller_of i k = (if o_Side i = OrderSideBuy then k else i)"

lemma executeTrade_unfold:
  "executeTrade (scan_order i) (scan_order k) = bindE (trade_transaction
     (executeTrade_tx (scan_order (buyer_of i k)) (scan_order (seller_of i k)) (numeric_out (o_Price k)))) (\<lambda>r. case r of
        None \<Rightarrow> ret False
      | Some s \<Rightarrow> bindE (publish_price (s_Trade s)) (\<lambda>_. bindE (publish_trade s) (\<lambda>_. ret True)))"
  by (simp add: executeTrade_def buyer_of_def seller_of_def)

lemma executeTrade_eval:
  assumes "faults w = []" and "faults w1 = []"
    and "executeTrade_tx (scan_order (buyer_of i k)) (scan_order (seller_of i k)) (numeric_out (o_Price k)) w = (Inr (Some s), w1)"
  shows "\<exists>w'. executeTrade (scan_order i) (scan_order k) w = (Inr True, w') \<and> db w' = db w1 \<and> seqs w' = seqs w1 \<and> faults w' = []
    \<and> queue w' = queue w1 \<and> (\<exists>v. publish_price (s_Trade s) w1 = (Inr (), v) \<and> publish_trade s v = (Inr (), w'))"
proof -
  have t: "trade_transaction (executeTrade_tx (scan_order (buyer_of i k)) (scan_order (seller_of i k)) (numeric_out (o_Price k))) w = (Inr (Some s), w1)"
    by (rule trade_transaction_eval(1)) (use assms in simp_all)
  obtain w2 e2 where p: "publish_price (s_Trade s) w1 = (Inr (), w2)" "w2 = w1\<lparr>out := out w1 @ e2\<rparr>"
    using publish_db(1) by (metis surj_pair)
  obtain w3 e3 where "publish_trade s w2 = (Inr (), w3)" "w3 = w2\<lparr>out := out w2 @ e3\<rparr>"
    using publish_db(2) by (metis surj_pair)
  with t p assms(2) show ?thesis unfolding executeTrade_unfold by (simp add: bindE_def ret_def)
qed

lemma backed_rows:
  assumes "backed d b s n c bb sb"
  obtains rb rs where "find (\<lambda>x. w_UserID x = o_UserID b) (wallets d) = Some rb" "find (\<lambda>x. w_UserID x = o_UserID s) (wallets d) = Some rs"
  using assms by (auto simp: backed_def balance_of_def)

text \<open>
  What a trade does to an order that takes part in it: \<open>n\<close> more is filled and \<open>n\<close> less is left, and it is
  \<^verbatim>\<open>FILLED\<close> only if nothing is left; of whole quantities, exactly then.
\<close>

definition order_filled :: "numeric \<Rightarrow> int \<Rightarrow> numeric order \<Rightarrow> numeric order \<Rightarrow> bool" where
  "order_filled n t r r' \<longleftrightarrow>
     r' = r\<lparr>o_FilledQuantity := o_FilledQuantity r + n, o_RemainingQuantity := o_RemainingQuantity r - n,
            o_Status := o_Status r', o_UpdatedAt := t\<rparr>
     \<and> (o_Status r' = ''FILLED'' \<and> o_RemainingQuantity r' = 0
        \<or> o_Status r' = ''PARTIALLY_FILLED''
          \<and> (10 ^ 8 dvd o_FilledQuantity r \<and> 10 ^ 8 dvd n \<and> 10 ^ 8 dvd o_Quantity r \<longrightarrow> o_RemainingQuantity r' \<noteq> 0))"

text \<open>What a trade announces: its price, then itself and the two new balances.\<close>

definition price_announced :: "numeric trade \<Rightarrow> effect list" where
  "price_announced r =
    [SetPrice (t_AssetID r) (numeric_out (t_Price r)),
     PublishPrice (''price_updates:'' @ show_int (t_AssetID r)) (t_AssetID r) (numeric_out (t_Price r)) (numeric_out (t_Quantity r))
       (t_CreatedAt r)]"

definition trade_announced :: "numeric trade \<Rightarrow> int \<Rightarrow> numeric \<Rightarrow> int \<Rightarrow> numeric \<Rightarrow> numeric \<Rightarrow> effect list" where
  "trade_announced r buyerWallet buyerBalance sellerWallet sellerBalance cost =
    [PublishEvent ''trade-events'' ''trade.executed'' (TradeEventPayload
       \<lparr>te_TradeID = t_ID r, te_BuyOrderID = t_BuyOrderID r, te_SellOrderID = t_SellOrderID r, te_AssetID = t_AssetID r,
        te_Price = numeric_out (t_Price r), te_Quantity = numeric_out (t_Quantity r), te_BuyerID = t_BuyerID r,
        te_SellerID = t_SellerID r, te_Timestamp = t_CreatedAt r\<rparr>),
     PublishEvent ''wallet-events'' ''wallet.updated'' (WalletEventPayload
       \<lparr>we_WalletID = buyerWallet, we_UserID = t_BuyerID r, we_Balance = numeric_out buyerBalance,
        we_ChangeAmount = numeric_out cost, we_TransactionType = ''trade_debit'', we_Timestamp = t_CreatedAt r\<rparr>),
     PublishEvent ''wallet-events'' ''wallet.updated'' (WalletEventPayload
       \<lparr>we_WalletID = sellerWallet, we_UserID = t_SellerID r, we_Balance = numeric_out sellerBalance,
        we_ChangeAmount = numeric_out cost, we_TransactionType = ''trade_credit'', we_Timestamp = t_CreatedAt r\<rparr>)]"

lemma order_filled_add_fill:
  assumes "order_row_ok r" and "0 \<le> o_FilledQuantity r" and "0 < n" and "o_FilledQuantity r + n \<le> o_Quantity r"
  shows "order_filled n t r (r\<lparr>o_FilledQuantity := o_FilledQuantity r + n, o_RemainingQuantity := o_Quantity r - (o_FilledQuantity r + n),
     o_Status := status_after (o_FilledQuantity r) n (o_Quantity r), o_UpdatedAt := t\<rparr>)"
proof -
  let ?st = "status_after (o_FilledQuantity r) n (o_Quantity r)"
  have b: "o_Quantity r \<le> 10 ^ 20" "o_RemainingQuantity r = o_Quantity r - o_FilledQuantity r"
    using assms(1) by (auto simp: order_row_ok_def numeric_fits_def)
  have "o_Quantity r = o_FilledQuantity r + n" if "?st = OrderStatusFilled"
    using status_after_sound [of "o_FilledQuantity r" n "o_Quantity r"] that assms b by simp
  moreover have "?st = OrderStatusFilled" if "10 ^ 8 dvd o_FilledQuantity r" "10 ^ 8 dvd n" "10 ^ 8 dvd o_Quantity r" "o_Quantity r = o_FilledQuantity r + n"
    using status_after_whole [of "o_FilledQuantity r" n "o_Quantity r"] that assms b by simp
  moreover have "?st = OrderStatusFilled \<or> ?st = OrderStatusPartiallyFilled" by (rule status_after_cases)
  ultimately show ?thesis using b(2) unfolding order_filled_def
    by (cases "?st = OrderStatusFilled") (auto simp: OrderStatusFilled_def OrderStatusPartiallyFilled_def)
qed

lemma orders_all_filled:
  assumes ok: "schema_ok (db w) (seqs w)" and m: "matching (db w) b s n c"
  shows "list_all2 (\<lambda>r r'. if o_ID r = o_ID b \<or> o_ID r = o_ID s then order_filled n (now w) r r' else r' = r)
     (orders (db w)) (orders (db (orders_filled b s n c w)))"
proof -
  have row: "order_row_ok b" "order_row_ok s" and mm: "b \<in> set (orders (db w))" "s \<in> set (orders (db w))" "o_ID b \<noteq> o_ID s"
    "0 \<le> o_FilledQuantity b" "0 \<le> o_FilledQuantity s"
    using ok m by (auto simp: schema_ok_def orders_ok_def matching_def)
  note ma = matching_amounts(2-4) [OF ok m]
  have "r = b" if "r \<in> set (orders (db w))" "o_ID r = o_ID b" for r using order_by_id [OF ok mm(1) that] .
  moreover have "r = s" if "r \<in> set (orders (db w))" "o_ID r = o_ID s" for r using order_by_id [OF ok mm(2) that] .
  ultimately show ?thesis
    using order_filled_add_fill [OF row(1) mm(4) ma(1,2)] order_filled_add_fill [OF row(2) mm(5) ma(1,3)] mm(3)
    by (auto simp: orders_filled_def add_fill_def upd_where_def list_all2_map2 list_all2_same)
qed

lemma publish_out:
  assumes "publish_price (scan_trade r) w = (Inr (), v)" and "publish_trade st v = (Inr (), w')"
    and "s_Trade st = scan_trade r" and "t_CreatedAt r = now w" and "s_BuyerID st = t_BuyerID r" "s_SellerID st = t_SellerID r"
    and "fmt8f (s_BuyerNewBal st) = numeric_out bb" "fmt8f (s_SellerNewBal st) = numeric_out sb" "s_Cost st = numeric_out cost"
  shows "out w' = out w @ (if cacheClient w then price_announced r else [])
    @ (if kafkaProducer w then trade_announced r (w_ID (s_BuyerWallet st)) bb (w_ID (s_SellerWallet st)) sb cost else [])"
  using assms
  by (auto simp: publish_price_def publish_trade_def price_announced_def trade_announced_def scan_trade_def bindE_def emit_def ret_def
      Let_def split: if_splits)

lemma executeTrade_settled:
  assumes "schema_ok (db w) (seqs w)" and "faults w = []" and "b = buyer_of i k" and "s = seller_of i k" and "c = o_Price k"
    and "matching (db w) b s n c" and "backed (db w) b s n c bb sb" and "\<not> cost_tie n c"
  shows "\<exists>w'. executeTrade (scan_order i) (scan_order k) w = (Inr True, w')
    \<and> balance_of (db w') = (balance_of (db w))(o_UserID b \<mapsto> bb - cost_units n c, o_UserID s \<mapsto> sb + cost_units n c)
    \<and> (\<forall>u a. holding_of (db w') u a = holding_of (db w) u a + (if u = o_UserID b \<and> a = o_AssetID b then n else 0)
          - (if u = o_UserID s \<and> a = o_AssetID s then n else 0))
    \<and> total_money (db w') = total_money (db w) \<and> (\<forall>a. total_holding (db w') a = total_holding (db w) a)
    \<and> (books_balance (db w) \<longrightarrow> books_balance (db w'))
    \<and> trades (db w') = trades (db w) @ [trade_row b s n c w] \<and> schema_ok (db w') (seqs w')
    \<and> list_all2 (\<lambda>r r'. if o_ID r = o_ID b \<or> o_ID r = o_ID s then order_filled n (now w) r r' else r' = r)
        (orders (db w)) (orders (db w'))
    \<and> (\<exists>rb rs. find (\<lambda>x. w_UserID x = o_UserID b) (wallets (db w)) = Some rb
        \<and> find (\<lambda>x. w_UserID x = o_UserID s) (wallets (db w)) = Some rs
        \<and> out w' = out w @ (if cacheClient w then price_announced (trade_row b s n c w) else [])
           @ (if kafkaProducer w then trade_announced (trade_row b s n c w) (w_ID rb) (bb - cost_units n c)
                (w_ID rs) (sb + cost_units n c) (cost_units n c) else []))"
proof -
  obtain rb rs where rows: "find (\<lambda>x. w_UserID x = o_UserID b) (wallets (db w)) = Some rb"
    "find (\<lambda>x. w_UserID x = o_UserID s) (wallets (db w)) = Some rs" by (rule backed_rows [OF assms(7)])
  note obs = settled_observed [OF assms(1,2,6,7) rows]
  obtain st where st: "executeTrade_tx (scan_order b) (scan_order s) (numeric_out c) w = (Inr (Some st), settled b s n c rb rs w)"
    "schema_ok (db (settled b s n c rb rs w)) (seqs (settled b s n c rb rs w))" "st = settlement_of b s n c rb rs w"
    using executeTrade_tx_eval [OF assms(1,2,6,7) rows scan_order_simps(1) scan_order_simps(1)] by blast
  have q: "faults (settled b s n c rb rs w) = []" using assms(2) by (simp add: settled_def credited_def debited_def Let_def)
  obtain w' v where w': "executeTrade (scan_order i) (scan_order k) w = (Inr True, w')" "db w' = db (settled b s n c rb rs w)"
    "seqs w' = seqs (settled b s n c rb rs w)" and p: "publish_price (s_Trade st) (settled b s n c rb rs w) = (Inr (), v)"
    "publish_trade st v = (Inr (), w')"
    using executeTrade_eval [OF assms(2) q, of i k st] st(1) assms(3-5) by blast
  have nc: "0 \<le> n" "0 \<le> c" using matching_amounts(2,13) [OF assms(1,6)] by simp_all
  have bk: "n * c < bb * 10 ^ 8" "sb * 10 ^ 8 + n * c \<le> 10 ^ 19 * 10 ^ 8" "0 \<le> sb" "bb \<le> 10 ^ 20"
    using assms(1,7) rows
    by (auto simp: backed_def balance_of_def schema_ok_def wallets_ok_def numeric_fits_def dest!: find_SomeD)
  have units: "units (rnd 128 (load 128 bb - float_cost 128 n c)) = bb - cost_units n c"
    "units (rnd 128 (load 128 sb + float_cost 128 n c)) = sb + cost_units n c"
    "units (float_cost 128 n c) = cost_units n c"
    using bk nc assms(8) mult_nonneg_nonneg [OF nc]
    by (auto intro!: f128.units_debit f128.units_credit f128.units_cost)
  have bb0: "0 \<le> bb" using bk(1) mult_nonneg_nonneg [OF nc] zero_less_mult_iff [of bb "10 ^ 8"] by simp
  have wb: "w_Balance rb = bb" "w_Balance rs = sb" using assms(7) rows by (auto simp: backed_def balance_of_def)
  have f: "fmt8f (s_BuyerNewBal st) = numeric_out (bb - cost_units n c)" "fmt8f (s_SellerNewBal st) = numeric_out (sb + cost_units n c)"
    "s_Cost st = numeric_out (cost_units n c)"
    using trade_amounts(3,5,7) [OF nc bb0 bk(4,1,3,2)] units unfolding st(3) settlement_of_def Let_def wb by (simp_all add: fmt8f_units)
  have fr: "out (settled b s n c rb rs w) = out w" "cacheClient (settled b s n c rb rs w) = cacheClient w"
    "kafkaProducer (settled b s n c rb rs w) = kafkaProducer w" "now (settled b s n c rb rs w) = now w"
    using db_onlyD [OF executeTrade_tx_rules(3) st(1)] by simp_all
  have o: "out w' = out w @ (if cacheClient w then price_announced (trade_row b s n c w) else [])
      @ (if kafkaProducer w then trade_announced (trade_row b s n c w) (w_ID rb) (bb - cost_units n c)
           (w_ID rs) (sb + cost_units n c) (cost_units n c) else [])"
    using publish_out [OF _ p(2), of "trade_row b s n c w" "settled b s n c rb rs w"] p(1) f fr
    by (simp add: st(3) settlement_of_def Let_def trade_row_def scan_wallet_def)
  have os: "list_all2 (\<lambda>r r'. if o_ID r = o_ID b \<or> o_ID r = o_ID s then order_filled n (now w) r r' else r' = r)
      (orders (db w)) (orders (db w'))"
    unfolding w'(2) obs(7) by (rule orders_all_filled [OF assms(1,6)])
  have "\<exists>rb rs. find (\<lambda>x. w_UserID x = o_UserID b) (wallets (db w)) = Some rb
      \<and> find (\<lambda>x. w_UserID x = o_UserID s) (wallets (db w)) = Some rs
      \<and> out w' = out w @ (if cacheClient w then price_announced (trade_row b s n c w) else [])
         @ (if kafkaProducer w then trade_announced (trade_row b s n c w) (w_ID rb) (bb - cost_units n c)
              (w_ID rs) (sb + cost_units n c) (cost_units n c) else [])" using rows o by blast
  then show ?thesis using w' obs st(2) os unfolding units by auto
qed

text \<open>
  Property C4. A trade settles exactly. Two open orders of different users that cross, a buyer with
  more than the cost, a seller who holds the quantity: when nothing fails, the engine trades the
  smaller remaining quantity \<open>n\<close> at the price \<open>c\<close> of the candidate; the cost \<open>n * c\<close>, rounded to a unit,
  moves from the buyer to the seller and \<open>n\<close> of the asset from the seller to the buyer; nobody
  else's balance or holding changes, the total of money and of every asset is what it was, balanced
  books stay balanced and one trade is recorded. Both orders are filled by \<open>n\<close>, no other order changes,
  and when a cache or a broker is there the price, the trade and the two new balances are announced,
  in this order and nothing else. The cost must not lie exactly between two units.
\<close>

theorem executeTrade_settles:
  assumes "schema_ok (db w) (seqs w)" and "faults w = []" and "b = buyer_of i k" and "s = seller_of i k" and "c = o_Price k"
    and "matching (db w) b s n c" and "backed (db w) b s n c bb sb" and "\<not> cost_tie n c"
  shows "\<exists>w'. executeTrade (scan_order i) (scan_order k) w = (Inr True, w')
    \<and> balance_of (db w') = (balance_of (db w))(o_UserID b \<mapsto> bb - cost_units n c, o_UserID s \<mapsto> sb + cost_units n c)
    \<and> (\<forall>u a. holding_of (db w') u a = holding_of (db w) u a + (if u = o_UserID b \<and> a = o_AssetID b then n else 0)
          - (if u = o_UserID s \<and> a = o_AssetID s then n else 0))
    \<and> total_money (db w') = total_money (db w) \<and> (\<forall>a. total_holding (db w') a = total_holding (db w) a)
    \<and> (books_balance (db w) \<longrightarrow> books_balance (db w'))
    \<and> trades (db w') = trades (db w) @ [trade_row b s n c w] \<and> schema_ok (db w') (seqs w')
    \<and> list_all2 (\<lambda>r r'. if o_ID r = o_ID b \<or> o_ID r = o_ID s then order_filled n (now w) r r' else r' = r)
        (orders (db w)) (orders (db w'))
    \<and> (\<exists>rb rs. find (\<lambda>x. w_UserID x = o_UserID b) (wallets (db w)) = Some rb
        \<and> find (\<lambda>x. w_UserID x = o_UserID s) (wallets (db w)) = Some rs
        \<and> out w' = out w @ (if cacheClient w then price_announced (trade_row b s n c w) else [])
           @ (if kafkaProducer w then trade_announced (trade_row b s n c w) (w_ID rb) (bb - cost_units n c)
                (w_ID rs) (sb + cost_units n c) (cost_units n c) else []))"
  using assms by (rule executeTrade_settled)

abbreviation ex_buy :: "numeric order" where
  "ex_buy \<equiv> ex_order 2 1 ''BUY'' (12 * unit8) (3 * unit8)"

abbreviation ex_sell :: "numeric order" where
  "ex_sell \<equiv> ex_order 1 2 ''SELL'' (10 * unit8) (5 * unit8)"

lemma ex_trade:
  "ex_buy = buyer_of ex_buy ex_sell" "ex_sell = seller_of ex_buy ex_sell"
  "matching (db ex_world) ex_buy ex_sell (3 * unit8) (o_Price ex_sell)"
  "backed (db ex_world) ex_buy ex_sell (3 * unit8) (o_Price ex_sell) (1000 * unit8) 0"
  "\<not> cost_tie (3 * unit8) (o_Price ex_sell)" "cost_units (3 * unit8) (o_Price ex_sell) = 3000000000"
  by (simp_all add: buyer_of_def seller_of_def matching_def backed_def cost_tie_def cost_units_def ex_defs order_open_def const_defs
      numeric_fits_def balance_of_def holding_of_def holding_key_def)

theorem executeTrade_settles_witness:
  "\<exists>w'. executeTrade (scan_order ex_buy) (scan_order ex_sell) ex_world
      = (Inr True, w') \<and> balance_of (db w') 1 = Some 97000000000 \<and> balance_of (db w') 2 = Some 3000000000"
  using executeTrade_settles [OF ex_world_ok ex_world_quiet ex_trade(1,2) refl ex_trade(3-5)] ex_trade(6)
  by (auto simp: ex_order_def unit8_def)

text \<open>
  Property C26. When the cost lies exactly between two units, the two balances are rounded on their
  own, and a trade may create or destroy money: one unit of 0.00000001 at most.
\<close>

theorem executeTrade_drift:
  assumes "schema_ok (db w) (seqs w)" and "faults w = []" and "b = buyer_of i k" and "s = seller_of i k" and "c = o_Price k"
    and "matching (db w) b s n c" and "backed (db w) b s n c bb sb"
  shows "\<exists>w'. executeTrade (scan_order i) (scan_order k) w = (Inr True, w') \<and> \<bar>total_money (db w') - total_money (db w)\<bar> \<le> 1
    \<and> (\<forall>a. total_holding (db w') a = total_holding (db w) a)"
proof -
  obtain rb rs where rows: "find (\<lambda>x. w_UserID x = o_UserID b) (wallets (db w)) = Some rb"
    "find (\<lambda>x. w_UserID x = o_UserID s) (wallets (db w)) = Some rs" by (rule backed_rows [OF assms(7)])
  note obs = settled_observed [OF assms(1,2,6,7) rows]
  obtain st where st: "executeTrade_tx (scan_order b) (scan_order s) (numeric_out c) w = (Inr (Some st), settled b s n c rb rs w)"
    using executeTrade_tx_eval [OF assms(1,2,6,7) rows scan_order_simps(1) scan_order_simps(1)] by blast
  have q: "faults (settled b s n c rb rs w) = []" using assms(2) by (simp add: settled_def credited_def debited_def Let_def)
  obtain w' where w': "executeTrade (scan_order i) (scan_order k) w = (Inr True, w')" "db w' = db (settled b s n c rb rs w)"
    using executeTrade_eval [OF assms(2) q, of i k st] st assms(3-5) by blast
  have nc: "0 \<le> n" "0 \<le> c" using matching_amounts(2,13) [OF assms(1,6)] by simp_all
  have bk: "0 \<le> bb" "bb \<le> 10 ^ 20" "0 \<le> sb" "sb * 10 ^ 8 + n * c \<le> 10 ^ 20 * 10 ^ 8"
    using assms(1,7) rows
    by (auto simp: backed_def balance_of_def schema_ok_def wallets_ok_def numeric_fits_def dest!: find_SomeD)
  have "total_money (db w') - total_money (db w) = units (rnd 128 (load 128 bb - float_cost 128 n c))
      + units (rnd 128 (load 128 sb + float_cost 128 n c)) - (bb + sb)" using obs(2) w'(2) by simp
  with f128.transfer_drift [OF nc bk] w' obs(5) show ?thesis by auto
qed

text \<open>An example: half a unit, a quantity of 0.5 at a price of 0.00000001.\<close>

definition tie_world :: world where
  "tie_world = ex_world\<lparr>db := ex_tables\<lparr>orders := [ex_order 1 2 ''SELL'' 1 50000000, ex_order 2 1 ''BUY'' 1 50000000]\<rparr>\<rparr>"

theorem executeTrade_drift_witness:
  "\<exists>w'. executeTrade (scan_order (ex_order 2 1 ''BUY'' 1 50000000)) (scan_order (ex_order 1 2 ''SELL'' 1 50000000)) tie_world = (Inr True, w')
     \<and> \<bar>total_money (db w') - total_money (db tie_world)\<bar> \<le> 1"
proof -
  let ?b = "ex_order 2 1 ''BUY'' 1 50000000" and ?s = "ex_order 1 2 ''SELL'' 1 50000000"
  have ok: "schema_ok (db tie_world) (seqs tie_world)" "faults tie_world = []"
    using ex_world_ok by (simp_all add: tie_world_def schema_defs ex_defs numeric_fits_def order_row_ok_def idempotency_keys_def)
  have roles: "?b = buyer_of ?b ?s" "?s = seller_of ?b ?s" by (simp_all add: buyer_of_def seller_of_def ex_order_def const_defs)
  have "matching (db tie_world) ?b ?s 50000000 (o_Price ?s)"
    by (simp add: matching_def tie_world_def ex_defs order_open_def const_defs numeric_fits_def)
  moreover have "backed (db tie_world) ?b ?s 50000000 (o_Price ?s) (1000 * unit8) 0"
    by (simp add: backed_def tie_world_def ex_defs balance_of_def holding_of_def holding_key_def)
  ultimately show ?thesis
    using executeTrade_drift [OF ok roles refl, of 50000000 "1000 * unit8" 0] by blast
qed

section \<open>Faults during a trade\<close>

lemma trade_transaction_oblivious:
  assumes "oblivious body"
  shows "oblivious (trade_transaction body)"
  unfolding oblivious_def
proof (intro allI impI)
  fix w x w'
  assume run: "trade_transaction body w = (Inr x, w')"
  then obtain snap w0 where b: "BeginTxx w = (Inr snap, w0)"
    by (auto simp: trade_transaction_def bindE_Inr)
  with BeginTxx_Inr [of w snap w0] obtain fs where w0: "snap = db w" "w0 = w\<lparr>faults := fs\<rparr>" by auto
  let ?v = "w\<lparr>faults := []\<rparr>"
  have bv: "BeginTxx ?v = (Inr (db w), ?v)" by simp
  from run b obtain y w1 where y: "body w0 = (Inr y, w1)"
    by (auto simp: trade_transaction_def bindE_def wrapE_def split: prod.splits sum.splits)
  from obliviousD [OF assms y] w0 have yv: "body ?v = (Inr y, w1\<lparr>faults := []\<rparr>)" by simp
  show "trade_transaction body ?v = (Inr x, w'\<lparr>faults := []\<rparr>)"
  proof (cases y)
    case None
    with run b y w0 have "x = None" "w' = w1\<lparr>db := db w\<rparr>"
      by (auto simp: trade_transaction_def bindE_def wrapE_def Rollback_def)
    with None yv show ?thesis by (simp add: trade_transaction_def bindE_def wrapE_def Rollback_def)
  next
    case (Some s)
    with run b y have c: "Commit snap w1 = (Inr (), w')" "x = Some s"
      by (auto simp: trade_transaction_def bindE_def wrapE_def ret_def split: prod.splits sum.splits)
    with Commit_Inr [of snap w1] obtain fs' where "w' = w1\<lparr>faults := fs'\<rparr>" by blast
    with c Some yv show ?thesis by (simp add: trade_transaction_def bindE_def wrapE_def ret_def)
  qed
qed

lemma trade_transaction_db_only:
  assumes "db_only body"
  shows "db_only (trade_transaction body)"
proof -
  have "db_only (bindE (wrapE ''executeTrade: commit'' (Commit snap)) (\<lambda>_. ret (Some s)))" for snap and s :: settlement
    by (intro db_only_rules db_only_Commit)
  then have "db_only (\<lambda>w. case body w of (Inl e, w1) \<Rightarrow> (Inl e, Rollback snap w1) | (Inr None, w1) \<Rightarrow> (Inr None, Rollback snap w1)
      | (Inr (Some s), w1) \<Rightarrow> bindE (wrapE ''executeTrade: commit'' (Commit snap)) (\<lambda>_. ret (Some s)) w1)" for snap
    using assms unfolding db_only_def Rollback_def by (fastforce split: prod.splits sum.splits option.splits)
  then show ?thesis unfolding trade_transaction_def by (intro db_only_bindE db_only_wrapE db_only_BeginTxx)
qed

lemma trade_transaction_preserves:
  assumes "preserves schema_ok body" "db_only body"
  shows "preserves schema_ok (trade_transaction body)"
  unfolding preserves_def
proof (intro allI impI)
  fix w r w'
  assume run: "trade_transaction body w = (r, w')"
  obtain q w0 where b: "BeginTxx w = (q, w0)" by fastforce
  show "seqs_le (seqs w) (seqs w') \<and> (schema_ok (db w) (seqs w) \<longrightarrow> schema_ok (db w') (seqs w'))"
  proof (cases q)
    case (Inl e)
    with run b BeginTxx_Inl [of w e w0] show ?thesis
      by (auto simp: trade_transaction_def bindE_def wrapE_def split: if_splits)
  next
    case (Inr snap)
    with b BeginTxx_Inr [of w snap w0] obtain fs where w0: "snap = db w" "w0 = w\<lparr>faults := fs\<rparr>" by auto
    obtain y w1 where y: "body w0 = (y, w1)" by fastforce
    have le: "seqs_le (seqs w) (seqs w1)" using preserves_seqs [OF assms(1) y] w0 by simp
    have ok: "schema_ok (db w) (seqs w) \<Longrightarrow> schema_ok (db w1) (seqs w1) \<and> schema_ok (db w) (seqs w1)"
      using preservesD [OF assms(1) y] schema.mono [OF _ le] w0 by simp
    obtain cr w2 where c: "Commit snap w1 = (cr, w2)" by fastforce
    have "seqs w' = seqs w1 \<and> (db w' = db w1 \<or> db w' = db w)"
      using run b Inr y c w0 Commit_frame [OF c]
      by (auto simp: trade_transaction_def bindE_def wrapE_def Rollback_def ret_def split: sum.splits option.splits prod.splits)
    then show ?thesis using le ok by auto
  qed
qed

lemma executeTrade_rules: "preserves schema_ok (executeTrade i k)" "oblivious (executeTrade i k)"
  unfolding executeTrade_def
  by (intro preserves_rules oblivious_rules trade_transaction_preserves trade_transaction_oblivious executeTrade_tx_rules publish_rules)+

lemma process_step_rules: "preserves schema_ok (process_step i)" "oblivious (process_step i)"
  unfolding process_step_def
  by (intro preserves_rules oblivious_rules order_reads_preserve order_repo_oblivious findBestCandidate_rules executeTrade_rules big_rules)+

text \<open>
  Property C11. Whatever statement of a trade fails, up to the commit: either nothing is traded, with
  every table as it was and no price or event sent, or the trade is exactly the trade of the run
  without failures.
\<close>

theorem executeTrade_all_or_nothing:
  assumes "executeTrade i k w = (r, w')"
  shows "r \<noteq> Inr True \<and> db w' = db w \<and> out w' = out w
       \<or> r = Inr True \<and> executeTrade i k (w\<lparr>faults := []\<rparr>) = (Inr True, w'\<lparr>faults := []\<rparr>)"
proof (cases "r = Inr True")
  case True
  with assms show ?thesis using obliviousD [OF executeTrade_rules(2), of i k w True w'] by simp
next
  case False
  define bs where "bs = (if o_Side i = OrderSideBuy then (i, k) else (k, i))"
  define b s where "b = fst bs" and "s = snd bs"
  have e: "executeTrade i k = bindE (trade_transaction (executeTrade_tx b s (o_Price k))) (\<lambda>r. case r of
      None \<Rightarrow> ret False | Some st \<Rightarrow> bindE (publish_price (s_Trade st)) (\<lambda>_. bindE (publish_trade st) (\<lambda>_. ret True)))"
    by (simp add: executeTrade_def bs_def [symmetric] b_def s_def split: prod.split)
  obtain x w1 where t: "trade_transaction (executeTrade_tx b s (o_Price k)) w = (x, w1)" by fastforce
  have no: "\<And>t v e v'. publish_price t v \<noteq> (Inl e, v')" "\<And>t v e v'. publish_trade t v \<noteq> (Inl e, v')"
    by (auto dest: publish_db)
  have "w' = w1 \<and> (\<forall>st. x \<noteq> Inr (Some st))"
    using assms t False no unfolding e
    by (cases x) (auto simp: bindE_def ret_def split: option.splits sum.splits prod.splits)
  then show ?thesis using False trade_transaction_cases [OF t]
      db_onlyD [OF trade_transaction_db_only [OF executeTrade_tx_rules(3)] t] by auto
qed


theorem executeTrade_all_or_nothing_witness:
  "db (snd (executeTrade (scan_order (ex_order 2 1 ''BUY'' (12 * unit8) (3 * unit8)))
      (scan_order (ex_order 1 2 ''SELL'' (10 * unit8) (5 * unit8))) (ex_world\<lparr>faults := [None, None, Some ''lost'']\<rparr>))) = db ex_world"
proof -
  let ?i = "scan_order (ex_order 2 1 ''BUY'' (12 * unit8) (3 * unit8))" and ?k = "scan_order (ex_order 1 2 ''SELL'' (10 * unit8) (5 * unit8))"
  let ?w = "ex_world\<lparr>faults := [None, None, Some ''lost'']\<rparr>"
  obtain r w' where r: "executeTrade ?i ?k ?w = (r, w')" by fastforce
  have "\<exists>e. fst (executeTrade ?i ?k ?w) = Inl e"
    by (simp add: executeTrade_def trade_transaction_def executeTrade_tx_def lock_orders_def GetByIDForUpdate_def BeginTxx_def
        sql_def monad_defs is_panic_def ex_defs const_defs)
  with r have "r \<noteq> Inr True" by auto
  with executeTrade_all_or_nothing [OF r] show ?thesis using r by auto
qed

end
