(* ===== verification/Decimal.thy ===== *)
theory Decimal
  imports Engine
begin

text \<open>
  pkg/decimal: the arithmetic of amounts that the package offers to every domain, with 128 bits. The
  properties: a column read and written again is unchanged, sums and differences of columns are exact,
  and the matching engine's private helpers (matcher.go) are these functions.
\<close>

definition Precision :: nat where "Precision = 128"

datatype decimal_error = ErrInvalidDecimal | ErrNonPositive | ErrNegativeNotAllowed
  | InvalidDecimalf string  \<comment> \<open>\<^verbatim>\<open>fmt.Errorf("%w: %q", ErrInvalidDecimal, s)\<close>\<close>

definition Parse :: "string \<Rightarrow> decimal_error + big_float" where
  "Parse s = (if s = [] then Inl ErrInvalidDecimal
     else case SetString Precision s of None \<Rightarrow> Inl (InvalidDecimalf s) | Some f \<Rightarrow> Inr f)"

definition Zero :: big_float where
  "Zero = new_float Precision"

definition ParsePositive :: "string \<Rightarrow> decimal_error + big_float" where
  "ParsePositive s = (case Parse s of Inl e \<Rightarrow> Inl e
     | Inr f \<Rightarrow> if Cmp f Zero \<le> 0 then Inl ErrNonPositive else Inr f)"

definition ParseNonNegative :: "string \<Rightarrow> decimal_error + big_float" where
  "ParseNonNegative s = (case Parse s of Inl e \<Rightarrow> Inl e
     | Inr f \<Rightarrow> if Sign f < 0 then Inl ErrNegativeNotAllowed else Inr f)"

text \<open>\<open>None\<close> is the panic.\<close>

definition MustParse :: "string \<Rightarrow> big_float option" where
  "MustParse s = (case Parse s of Inl e \<Rightarrow> None | Inr f \<Rightarrow> Some f)"

definition Format :: "big_float \<Rightarrow> string" where
  "Format f = fmt8f f"

text \<open>\<open>None\<close> is the panic \<^verbatim>\<open>ErrNaN\<close> of \<^verbatim>\<open>big.Float\<close>.\<close>

definition decimal_Add :: "big_float \<Rightarrow> big_float \<Rightarrow> big_float option" where
  "decimal_Add a b = Add Precision a b"

definition decimal_Sub :: "big_float \<Rightarrow> big_float \<Rightarrow> big_float option" where
  "decimal_Sub a b = Sub Precision a b"

definition decimal_Mul :: "big_float \<Rightarrow> big_float \<Rightarrow> big_float option" where
  "decimal_Mul a b = Mul Precision a b"

text \<open>\<^verbatim>\<open>Copy\<close> takes over the precision of what it copies.\<close>

definition decimal_Min :: "big_float \<Rightarrow> big_float \<Rightarrow> big_float" where
  "decimal_Min a b = (if Cmp a b \<le> 0 then a else b)"

definition IsPositive :: "big_float \<Rightarrow> bool" where
  "IsPositive f \<longleftrightarrow> Sign f > 0"

definition IsNegative :: "big_float \<Rightarrow> bool" where
  "IsNegative f \<longleftrightarrow> Sign f < 0"

section \<open>Columns\<close>

lemma fmt8f_units_any:
  assumes "v < 0 \<Longrightarrow> units v < 0"
  shows "fmt8f (Fin p False v) = numeric_out (units v)"
proof (cases "v < 0")
  case True
  have "units v = - round_even (\<bar>v\<bar> * 10 ^ 8)"
    unfolding units_def using True round_even_uminus [of "\<bar>v\<bar> * 10 ^ 8"] by simp
  then show ?thesis using True assms by (simp add: fmt8f_def numeric_out_def)
qed (simp add: fmt8f_units)

lemma numeric_out_nonempty [simp]: "numeric_out n \<noteq> []"
  by (simp add: numeric_out_def show_fixed8_def)

lemma MustParse_column: "MustParse (numeric_out n) = Some (Fin 128 False (load 128 n))"
  by (simp add: MustParse_def Parse_def Precision_def SetString_load)

lemma load_neg_iff: "1 \<le> p \<Longrightarrow> load p n < 0 \<longleftrightarrow> n < 0"
  using load_pos_iff [of p "- n"] by (simp add: load_uminus)

lemma Format_load: "\<bar>n\<bar> \<le> 10 ^ 20 \<Longrightarrow> Format (Fin 128 False (load 128 n)) = numeric_out n"
  unfolding Format_def using f128.units_load [of n] load_neg_iff [of 128 n] by (subst fmt8f_units_any) auto

lemma rnd_sign: "1 \<le> p \<Longrightarrow> rnd p v < 0 \<longleftrightarrow> v < 0"
  using rnd_pos_iff [of p "- v"] by (simp add: rnd_uminus)

lemma Format_sum:
  assumes "\<bar>a\<bar> \<le> 10 ^ 20" and "\<bar>b\<bar> \<le> 10 ^ 20" and "\<bar>a + b\<bar> \<le> 10 ^ 20"
  shows "Format (Fin 128 False (rnd 128 (load 128 a + load 128 b))) = numeric_out (a + b)"
proof -
  have "a + b < 0" if "load 128 a + load 128 b < 0"
  proof -
    have "load 128 a < load 128 (- b)" using that by (simp add: load_uminus)
    with f128.load_less_iff [of a "- b"] assms(1,2) show ?thesis by simp
  qed
  then show ?thesis
    unfolding Format_def using f128.units_add [OF assms] rnd_sign [of 128 "load 128 a + load 128 b"]
    by (subst fmt8f_units_any) auto
qed

text \<open>
  Property C32. What is read from a column is written back as it was: parsing never panics on the
  text of a column, and formatting gives that text again, for every value the column can hold; and
  a value is accepted as positive, or as not negative, exactly when it is.
\<close>

theorem decimal_round_trip:
  assumes "numeric_fits n"
  shows "\<exists>f. MustParse (numeric_out n) = Some f \<and> Format f = numeric_out n \<and> IsPositive f = (0 < n) \<and> IsNegative f = (n < 0)
    \<and> ParsePositive (numeric_out n) = (if 0 < n then Inr f else Inl ErrNonPositive)
    \<and> ParseNonNegative (numeric_out n) = (if 0 \<le> n then Inr f else Inl ErrNegativeNotAllowed)"
proof -
  let ?f = "Fin 128 False (load 128 n)"
  have p: "Parse (numeric_out n) = Inr ?f" by (simp add: Parse_def Precision_def SetString_load)
  have s: "load 128 n < 0 \<longleftrightarrow> n < 0" "load 128 n \<le> 0 \<longleftrightarrow> n \<le> 0" "load 128 n = 0 \<longleftrightarrow> n = 0"
    using load_neg_iff [of 128 n] load_pos_iff [of 128 n] by (cases n "0 :: int" rule: linorder_cases; simp)+
  have "Format ?f = numeric_out n" using assms by (intro Format_load) (simp add: numeric_fits_def)
  with p s show ?thesis
    by (intro exI [of _ ?f])
      (auto simp: MustParse_column ParsePositive_def ParseNonNegative_def IsPositive_def IsNegative_def Sign_def Zero_def
        new_float_def Precision_def)
qed

theorem decimal_round_trip_witness: "\<exists>f. MustParse (numeric_out (-5)) = Some f \<and> Format f = ''-0.00000005''"
proof -
  have "numeric_out (-5) = ''-0.00000005''" by code_simp
  with decimal_round_trip [of "-5"] show ?thesis by (auto simp: numeric_fits_def)
qed

text \<open>
  Sums and differences of columns are exact: as long as the result fits the column, the
  float detour of parse, add or subtract and format gives the decimal result.
\<close>

theorem decimal_exact:
  assumes "numeric_fits a" and "numeric_fits b" and "numeric_fits (a + b)" and "numeric_fits (a - b)"
  shows "\<exists>x y s d. MustParse (numeric_out a) = Some x \<and> MustParse (numeric_out b) = Some y
    \<and> decimal_Add x y = Some s \<and> Format s = numeric_out (a + b)
    \<and> decimal_Sub x y = Some d \<and> Format d = numeric_out (a - b) \<and> decimal_Min x y = (if a \<le> b then x else y)"
proof -
  have le: "load 128 a \<le> load 128 b \<longleftrightarrow> a \<le> b"
    using assms(1,2) by (intro f128.load_le_iff) (simp_all add: numeric_fits_def)
  have "Format (Fin 128 False (rnd 128 (load 128 a + load 128 b))) = numeric_out (a + b)"
    "Format (Fin 128 False (rnd 128 (load 128 a - load 128 b))) = numeric_out (a - b)"
    using Format_sum [of a b] Format_sum [of a "- b"] assms by (simp_all add: numeric_fits_def load_uminus)
  then show ?thesis using le
    by (auto simp: MustParse_column decimal_Add_def decimal_Sub_def Sub_def decimal_Min_def Precision_def zprec_def mkf_def)
qed

theorem decimal_exact_witness:
  "\<exists>x y d. MustParse (numeric_out 10000000) = Some x \<and> MustParse (numeric_out 30000000) = Some y
     \<and> decimal_Sub x y = Some d \<and> Format d = ''-0.20000000''"
proof -
  have "numeric_out (- 20000000) = ''-0.20000000''" by code_simp
  with decimal_exact [of 10000000 30000000] show ?thesis by (auto simp: numeric_fits_def)
qed

text \<open>
  The helpers that the matching engine has of its own are the functions of the package,
  on every input: parsing a non-empty text, zero, the minimum and the format.
\<close>

theorem matcher_helpers_equivalent:
  "(s \<noteq> [] \<longrightarrow> mustParseBig s = MustParse s) \<and> bigZero = Zero \<and> minBig a b = decimal_Min a b \<and> fmt8f a = Format a
   \<and> (fprec a = 128 \<and> fprec b = 128 \<longrightarrow> Add 0 a b = decimal_Add a b \<and> Sub 0 a b = decimal_Sub a b \<and> Mul 0 a b = decimal_Mul a b)"
proof (intro conjI impI)
  show "s \<noteq> [] \<Longrightarrow> mustParseBig s = MustParse s"
    by (simp add: mustParseBig_def MustParse_def Parse_def Precision_def split: option.split)
  show "bigZero = Zero" by (simp add: bigZero_def Zero_def Precision_def)
  show "minBig a b = decimal_Min a b" by (simp add: minBig_def decimal_Min_def)
  show "fmt8f a = Format a" by (simp add: Format_def)
  assume "fprec a = 128 \<and> fprec b = 128"
  then show "Add 0 a b = decimal_Add a b" "Sub 0 a b = decimal_Sub a b" "Mul 0 a b = decimal_Mul a b"
    unfolding decimal_Add_def decimal_Sub_def decimal_Mul_def Sub_def Precision_def
    by (cases a; cases b; simp add: zprec_def)+
qed

theorem matcher_helpers_equivalent_witness: "mustParseBig ''1.5'' = MustParse ''1.5''"
  using matcher_helpers_equivalent [of "''1.5''" bigZero bigZero] by simp

end
