(* ===== verification/RateLimit.thy ===== *)
theory RateLimit
  imports BigFloat
begin

text \<open>
  internal/middleware/ratelimit.go: a sliding window per key in a sorted set of Redis. A member of the
  set is the time of a request in nanoseconds, its score that time as a \<^verbatim>\<open>float64\<close>, which keeps 53 bits.
  A request removes what is older than the window, counts, and adds itself, whether it is let pass or
  not. The four commands of the pipeline are taken as one step; the expiry of the whole key after a
  window without requests removes nothing that the next request would not remove. \<open>redisOK\<close> says whether
  the pipeline ran: if not, the request is let pass.
\<close>

section \<open>The limiter\<close>

record RateLimiter =
  maxRequests :: int
  window :: int

type_synonym zset = "(int \<times> rat) list"

definition score :: "int \<Rightarrow> rat" where
  "score t = rnd 53 (of_int t)"

definition ZRemRangeByScore :: "rat \<Rightarrow> rat \<Rightarrow> zset \<Rightarrow> zset" where
  "ZRemRangeByScore lo hi zs = filter (\<lambda>(m, s). \<not> (lo \<le> s \<and> s \<le> hi)) zs"

definition ZAdd :: "rat \<Rightarrow> int \<Rightarrow> zset \<Rightarrow> zset" where
  "ZAdd s m zs = (if m \<in> fst ` set zs then map (\<lambda>(x, y). if x = m then (x, s) else (x, y)) zs else zs @ [(m, s)])"

datatype verdict = FailOpen | Pass (remaining: int) | Block

text \<open>The pipeline works, or it fails and leaves the set as it is then: some of its commands may have been executed.\<close>

definition Middleware :: "RateLimiter \<Rightarrow> zset option \<Rightarrow> int \<Rightarrow> zset \<Rightarrow> verdict \<times> zset" where
  "Middleware rl failure t zs = (case failure of
       Some zs1 \<Rightarrow> (FailOpen, zs1)
     | None \<Rightarrow> let windowStart = t - window rl;
               zs1 = ZRemRangeByScore 0 (score windowStart) zs;
               count = int (length zs1);
               zs2 = ZAdd (score t) t zs1
           in (if count \<ge> maxRequests rl then Block else Pass (max 0 (maxRequests rl - count)), zs2))"

text \<open>The limiters of main.go: their limits per minute.\<close>

definition minute :: int where "minute = 60000000000"

definition loginRL :: RateLimiter where "loginRL = \<lparr>maxRequests = 10, window = minute\<rparr>"
definition orderRL :: RateLimiter where "orderRL = \<lparr>maxRequests = 60, window = minute\<rparr>"
definition walletRL :: RateLimiter where "walletRL = \<lparr>maxRequests = 30, window = minute\<rparr>"

text \<open>The requests of one key in turn, Redis working: the set, and the times of those let pass.\<close>

definition request_at :: "RateLimiter \<Rightarrow> zset \<times> int list \<Rightarrow> int \<Rightarrow> zset \<times> int list" where
  "request_at rl st t = (case Middleware rl None t (fst st) of (v, zs) \<Rightarrow>
     (zs, if v = Block then snd st else snd st @ [t]))"

definition requests :: "RateLimiter \<Rightarrow> int list \<Rightarrow> zset \<times> int list" where
  "requests rl ts = foldl (request_at rl) ([], []) ts"

section \<open>Rounding is monotone\<close>

lemma rnd_mono_pos:
  assumes "0 < u" and "u \<le> v" and "1 \<le> p"
  shows "rnd p u \<le> rnd p v"
proof -
  have uv: "u \<noteq> 0" "v \<noteq> 0" "\<bar>u\<bar> = u" "\<bar>v\<bar> = v" using assms by auto
  note bu = expo_bounds [OF uv(1)] and bv = expo_bounds [OF uv(2)]
  have "(2::rat) powi (expo u - 1) < 2 powi expo v" using bu(1) bv(2) assms(2) uv by linarith
  then have le: "expo u \<le> expo v" by (simp add: powi_2_less_iff)
  show ?thesis
  proof (cases "expo u = expo v")
    case True
    have "u / 2 powi (expo v - int p) \<le> v / 2 powi (expo v - int p)" using assms(2) by (intro divide_right_mono) auto
    from round_even_mono [OF this] show ?thesis using True uv by (simp add: rnd_def mult_right_mono)
  next
    case False
    with le have e: "expo u \<le> expo v - 1" by simp
    have pw: "(2::rat) powi (a - int p) * 2 ^ p = 2 powi a" for a by (simp add: power_int_diff)
    have "u / 2 powi (expo u - int p) \<le> of_int (2 ^ p)"
      using bu(2) uv pw [of "expo u"] by (simp add: divide_le_eq mult.commute)
    from round_even_mono [OF this] have "round_even (u / 2 powi (expo u - int p)) \<le> 2 ^ p" by (simp only: round_even_of_int)
    then have "of_int (round_even (u / 2 powi (expo u - int p))) \<le> (of_int (2 ^ p) :: rat)" by (simp only: of_int_le_iff)
    then have "rnd p u \<le> of_int (2 ^ p) * 2 powi (expo u - int p)" unfolding rnd_def using uv(1) by (simp add: mult_right_mono)
    then have 1: "rnd p u \<le> 2 powi expo u" using pw [of "expo u"] by (simp add: mult.commute)
    have pw2: "(2::rat) powi (expo v - int p) * 2 ^ (p - 1) = 2 powi (expo v - 1)"
      using assms(3) by (simp add: power_int_diff power_diff)
    have "of_int (2 ^ (p - 1)) \<le> v / 2 powi (expo v - int p)"
      using bv(1) uv pw2 by (simp add: le_divide_eq mult.commute)
    from round_even_mono [OF this] have "2 ^ (p - 1) \<le> round_even (v / 2 powi (expo v - int p))" by (simp only: round_even_of_int)
    then have "(of_int (2 ^ (p - 1)) :: rat) \<le> of_int (round_even (v / 2 powi (expo v - int p)))" by (simp only: of_int_le_iff)
    then have "of_int (2 ^ (p - 1)) * 2 powi (expo v - int p) \<le> rnd p v" unfolding rnd_def using uv(2) by (simp add: mult_right_mono)
    then have 2: "2 powi (expo v - 1) \<le> rnd p v" using pw2 by (simp add: mult.commute)
    have "(2::rat) powi expo u \<le> 2 powi (expo v - 1)" using e by (intro power_int_increasing) auto
    with 1 2 show ?thesis by linarith
  qed
qed

lemma rnd_mono: "u \<le> v \<Longrightarrow> 1 \<le> p \<Longrightarrow> rnd p u \<le> rnd p v"
proof -
  assume a: "u \<le> v" "1 \<le> p"
  consider "0 < u" | "v < 0" | "u \<le> 0" "0 \<le> v" by linarith
  then show ?thesis
  proof cases
    case 1
    then show ?thesis using a by (rule_tac rnd_mono_pos)
  next
    case 2
    then have "rnd p (- v) \<le> rnd p (- u)" using a by (intro rnd_mono_pos) auto
    then show ?thesis by (simp add: rnd_uminus)
  next
    case 3
    have "rnd p u \<le> 0" using 3(1) rnd_pos_iff [OF a(2), of u] by linarith
    moreover have "0 \<le> rnd p v" using 3(2) rnd_pos_iff [OF a(2), of "- v"] by (simp add: rnd_uminus)
    ultimately show ?thesis by linarith
  qed
qed

lemma score_mono: "a \<le> b \<Longrightarrow> score a \<le> score b"
  unfolding score_def by (intro rnd_mono) auto

lemma score_nonneg: "0 \<le> t \<Longrightarrow> 0 \<le> score t"
  using score_mono [of 0 t] by (simp add: score_def)

section \<open>The limit is kept\<close>

text \<open>
  What holds after requests at increasing times, the last at \<open>t\<close>: the set has the time of every request
  that a window ending at \<open>t\<close> or later still counts, and of those let pass no more than allowed are in it.
\<close>

definition in_window :: "RateLimiter \<Rightarrow> int \<Rightarrow> int \<Rightarrow> bool" where
  "in_window rl t m \<longleftrightarrow> score (t - window rl) < score m"

definition limiter_inv :: "RateLimiter \<Rightarrow> int list \<Rightarrow> int \<Rightarrow> zset \<times> int list \<Rightarrow> bool" where
  "limiter_inv rl ts t st \<longleftrightarrow>
     distinct (map fst (fst st)) \<and> fst ` set (fst st) \<subseteq> set ts \<and> (\<forall>(m, s) \<in> set (fst st). s = score m)
   \<and> (\<forall>m \<in> set ts. in_window rl t m \<longrightarrow> (m, score m) \<in> set (fst st))
   \<and> distinct (snd st) \<and> set (snd st) \<subseteq> set ts
   \<and> int (length (filter (in_window rl t) (snd st))) \<le> maxRequests rl"

lemma in_window_later: "t \<le> t' \<Longrightarrow> in_window rl t' m \<Longrightarrow> in_window rl t m"
  using score_mono [of "t - window rl" "t' - window rl"] unfolding in_window_def by linarith

lemma limiter_inv_later:
  assumes "limiter_inv rl ts t st" and "t \<le> t'"
  shows "limiter_inv rl ts t' st"
proof -
  have "length (filter (in_window rl t') (snd st)) \<le> length (filter (in_window rl t) (snd st))"
  proof -
    have "filter (in_window rl t') (snd st) = filter (in_window rl t') (filter (in_window rl t) (snd st))"
      using in_window_later [OF assms(2)] by (auto intro: filter_cong)
    then show ?thesis by (metis length_filter_le)
  qed
  with assms show ?thesis using in_window_later [OF assms(2)] by (fastforce simp: limiter_inv_def)
qed

lemma kept_entries:
  assumes "limiter_inv rl ts t st" and "\<forall>m \<in> set ts. 0 \<le> m"
  shows "ZRemRangeByScore 0 (score (t - window rl)) (fst st) = filter (\<lambda>(m, s). in_window rl t m) (fst st)"
  unfolding ZRemRangeByScore_def
proof (rule filter_cong)
  fix x
  assume x: "x \<in> set (fst st)"
  then have "fst x \<in> set ts" "snd x = score (fst x)" using assms(1) by (force simp: limiter_inv_def)+
  moreover from this have "0 \<le> score (fst x)" using assms(2) by (intro score_nonneg) auto
  ultimately show "(case x of (m, s) \<Rightarrow> \<not> (0 \<le> s \<and> s \<le> score (t - window rl))) = (case x of (m, s) \<Rightarrow> in_window rl t m)"
    by (auto simp: in_window_def split: prod.splits)
qed simp

lemma length_le_image:
  assumes "distinct xs" and "set xs \<subseteq> f ` set ys"
  shows "length xs \<le> length ys"
proof -
  have "length xs = card (set xs)" using assms(1) by (simp add: distinct_card)
  also have "\<dots> \<le> card (f ` set ys)" using assms(2) by (intro card_mono) auto
  also have "\<dots> \<le> card (set ys)" by (intro card_image_le) simp
  also have "\<dots> \<le> length ys" by (rule card_length)
  finally show ?thesis .
qed

text \<open>The set counts at least the requests that were made, and those let pass, and are in the window.\<close>

lemma requests_le_count:
  assumes "limiter_inv rl ts t st" and "distinct ms" and "set ms \<subseteq> set ts"
  shows "length (filter (in_window rl t) ms) \<le> length (filter (\<lambda>(m, s). in_window rl t m) (fst st))"
proof (rule length_le_image)
  show "distinct (filter (in_window rl t) ms)" using assms(2) by simp
  show "set (filter (in_window rl t) ms) \<subseteq> fst ` set (filter (\<lambda>(m, s). in_window rl t m) (fst st))"
  proof
    fix m
    assume "m \<in> set (filter (in_window rl t) ms)"
    then have "(m, score m) \<in> set (filter (\<lambda>(m, s). in_window rl t m) (fst st))" using assms(1,3) by (auto simp: limiter_inv_def)
    then show "m \<in> fst ` set (filter (\<lambda>(m, s). in_window rl t m) (fst st))" by (metis fst_conv image_eqI)
  qed
qed

lemma passed_le_count:
  "limiter_inv rl ts t st \<Longrightarrow> length (filter (in_window rl t) (snd st)) \<le> length (filter (\<lambda>(m, s). in_window rl t m) (fst st))"
  by (rule requests_le_count) (auto simp: limiter_inv_def)

lemma request_at_inv:
  assumes inv: "limiter_inv rl ts t0 st" and "t0 \<le> t" and nn: "\<forall>m \<in> set ts. 0 \<le> m" and new: "t \<notin> set ts" and mx: "0 \<le> maxRequests rl"
  shows "limiter_inv rl (ts @ [t]) t (request_at rl st t)"
proof -
  have inv1: "limiter_inv rl ts t st" by (rule limiter_inv_later [OF inv \<open>t0 \<le> t\<close>])
  let ?zs = "filter (\<lambda>(m, s). in_window rl t m) (fst st)"
  have fresh: "t \<notin> fst ` set ?zs" using inv1 new by (force simp: limiter_inv_def)
  let ?blocked = "maxRequests rl \<le> int (length ?zs)"
  have st: "request_at rl st t = (?zs @ [(t, score t)], if ?blocked then snd st else snd st @ [t])"
    using fresh by (auto simp: request_at_def Middleware_def Let_def kept_entries [OF inv1 nn] ZAdd_def)
  have n: "int (length (filter (in_window rl t) (snd (request_at rl st t)))) \<le> maxRequests rl"
    using passed_le_count [OF inv1] inv1 by (auto simp: st limiter_inv_def)
  have d: "distinct (map fst ?zs)" using inv1 by (simp add: limiter_inv_def distinct_map_filter)
  have k: "(m, score m) \<in> set ?zs" if "m \<in> set ts" "in_window rl t m" for m
    using inv1 that by (auto simp: limiter_inv_def)
  have s: "\<forall>(m, s) \<in> set ?zs. s = score m" and f: "fst ` set ?zs \<subseteq> set ts"
    and a: "distinct (snd st)" "set (snd st) \<subseteq> set ts" using inv1 by (auto simp: limiter_inv_def)
  have a1: "distinct (snd (request_at rl st t))" "set (snd (request_at rl st t)) \<subseteq> set (ts @ [t])"
    using a new by (auto simp: st)
  have z1: "distinct (map fst (fst (request_at rl st t)))" "fst ` set (fst (request_at rl st t)) \<subseteq> set (ts @ [t])"
    "\<forall>(m, s) \<in> set (fst (request_at rl st t)). s = score m"
    "\<forall>m \<in> set (ts @ [t]). in_window rl t m \<longrightarrow> (m, score m) \<in> set (fst (request_at rl st t))"
    using d fresh f s k by (auto simp: st)
  show ?thesis unfolding limiter_inv_def using n a1 z1 by blast
qed

lemma requests_inv:
  assumes "sorted_wrt (<) ts" and "\<forall>m \<in> set ts. 0 \<le> m" and "ts \<noteq> []" and "0 \<le> maxRequests rl"
  shows "limiter_inv rl ts (last ts) (requests rl ts)"
  using assms
proof (induction ts rule: rev_induct)
  case (snoc t ts)
  have r: "requests rl (ts @ [t]) = request_at rl (requests rl ts) t" by (simp add: requests_def)
  show ?case
  proof (cases "ts = []")
    case True
    have "limiter_inv rl [] t ([], [])" using snoc.prems(4) by (simp add: limiter_inv_def)
    from request_at_inv [OF this order_refl _ _ snoc.prems(4)] show ?thesis using True r by (simp add: requests_def)
  next
    case False
    have "\<forall>x \<in> set ts. x < t" using snoc.prems(1) by (simp add: sorted_wrt_append)
    with False have "last ts \<le> t" "t \<notin> set ts" by (auto simp: order_less_imp_le)
    with snoc False show ?thesis unfolding r by (auto intro!: request_at_inv simp: sorted_wrt_append)
  qed
qed simp

text \<open>A score is less than 256 nanoseconds off, until the year 2043.\<close>

lemma score_near:
  assumes "\<bar>x\<bar> < 2 ^ 61"
  shows "\<bar>score x - of_int x\<bar> \<le> 256"
proof -
  have "\<bar>of_int x :: rat\<bar> \<le> 2 ^ 61" using assms by (metis less_imp_le of_int_abs of_int_le_iff of_int_numeral of_int_power)
  then have "\<bar>of_int x :: rat\<bar> / 2 ^ 53 \<le> 256" by simp
  with rnd_error [of 53 "of_int x"] show ?thesis unfolding score_def by linarith
qed

lemma in_window_time:
  assumes "\<bar>t - window rl\<bar> < 2 ^ 61" and "\<bar>m\<bar> < 2 ^ 61"
  shows "t - window rl + 512 < m \<Longrightarrow> in_window rl t m" and "in_window rl t m \<Longrightarrow> t - window rl - 512 \<le> m"
proof -
  note e = score_near [OF assms(1)] score_near [OF assms(2)]
  show "in_window rl t m" if "t - window rl + 512 < m"
  proof -
    have "(of_int (t - window rl + 512) :: rat) < of_int m" using that by (simp only: of_int_less_iff)
    then have "(of_int (t - window rl) :: rat) + 512 < of_int m" by simp
    with e show ?thesis unfolding in_window_def abs_le_iff by linarith
  qed
  show "t - window rl - 512 \<le> m" if "in_window rl t m"
  proof -
    have "(of_int (t - window rl) :: rat) - 512 \<le> of_int m" using that e unfolding in_window_def abs_le_iff by linarith
    then have "(of_int (t - window rl - 512) :: rat) \<le> of_int m" by simp
    then show ?thesis by (simp only: of_int_le_iff)
  qed
qed

text \<open>The set counts no request that is long gone.\<close>

lemma count_le_requests:
  assumes "limiter_inv rl ts t st" and "\<And>m. m \<in> set ts \<Longrightarrow> in_window rl t m \<Longrightarrow> P m"
  shows "length (filter (\<lambda>(m, s). in_window rl t m) (fst st)) \<le> length (filter P ts)"
proof -
  let ?zs = "filter (\<lambda>(m, s). in_window rl t m) (fst st)"
  have "distinct (map fst ?zs)" using assms(1) by (simp add: limiter_inv_def distinct_map_filter)
  moreover have "set (map fst ?zs) \<subseteq> id ` set (filter P ts)" using assms by (force simp: limiter_inv_def)
  ultimately have "length (map fst ?zs) \<le> length (filter P ts)" by (rule length_le_image)
  then show ?thesis by simp
qed

text \<open>
  Property C20. Requests of one key at increasing times, in nanoseconds and as long as Redis works. In no
  window are more than \<^verbatim>\<open>maxRequests\<close> let pass: at every later time \<open>t\<close>, at most that many of those let pass
  were made in the window that ends at \<open>t\<close>, but for its first 512 nanoseconds, which the \<^verbatim>\<open>float64\<close> scores blur.
  And none is refused without need: if fewer were made in the window that ends at \<open>t\<close> and the 512
  nanoseconds before it, whether let pass or not, the request at \<open>t\<close> is let pass.
\<close>

theorem rate_limit_kept:
  assumes "sorted_wrt (<) ts" and "\<forall>m \<in> set ts. 0 \<le> m" and "ts \<noteq> []" and "last ts \<le> t" and "0 \<le> maxRequests rl"
    and "t < 2 ^ 61" and "0 \<le> window rl" and "window rl < 2 ^ 61"
  shows "int (length (filter (\<lambda>m. t - window rl + 512 < m) (snd (requests rl ts)))) \<le> maxRequests rl
    \<and> (int (length (filter (\<lambda>m. t - window rl - 512 \<le> m) ts)) < maxRequests rl
         \<longrightarrow> fst (Middleware rl None t (fst (requests rl ts))) \<noteq> Block)"
proof -
  have inv: "limiter_inv rl ts t (requests rl ts)" using limiter_inv_later [OF requests_inv [OF assms(1-3,5)] assms(4)] .
  have "m \<le> last ts" if "m \<in> set ts" for m
    using that assms(1,3) by (induction ts rule: rev_induct) (auto simp: sorted_wrt_append)
  then have m: "\<bar>m\<bar> < 2 ^ 61" if "m \<in> set ts" for m using that assms(2,4,6) by fastforce
  have "0 \<le> t" using assms(2,3,4) by (metis last_in_set order_trans)
  then have w: "\<bar>t - window rl\<bar> < 2 ^ 61" using assms(6-8) by simp
  have sub: "set (snd (requests rl ts)) \<subseteq> set ts" using inv by (simp add: limiter_inv_def)
  have "length (filter (\<lambda>m. t - window rl + 512 < m) (snd (requests rl ts)))
      \<le> length (filter (in_window rl t) (snd (requests rl ts)))"
  proof -
    have "filter (\<lambda>m. t - window rl + 512 < m) (snd (requests rl ts))
        = filter (\<lambda>m. t - window rl + 512 < m) (filter (in_window rl t) (snd (requests rl ts)))"
      using in_window_time(1) [OF w m] sub by (auto intro!: filter_cong)
    then show ?thesis by (metis length_filter_le)
  qed
  then have 1: "int (length (filter (\<lambda>m. t - window rl + 512 < m) (snd (requests rl ts)))) \<le> maxRequests rl"
    using inv by (simp add: limiter_inv_def)
  have "length (filter (\<lambda>(m, s). in_window rl t m) (fst (requests rl ts))) \<le> length (filter (\<lambda>m. t - window rl - 512 \<le> m) ts)"
    using in_window_time(2) [OF w m] by (intro count_le_requests [OF inv]) auto
  then show ?thesis using 1 by (auto simp: Middleware_def Let_def kept_entries [OF inv assms(2)])
qed

theorem rate_limit_kept_witness:
  "int (length (filter (\<lambda>m. minute < m) (snd (requests loginRL (map (\<lambda>i. minute + 1000 * i) [1..13]))))) \<le> 10
   \<and> fst (Middleware loginRL None (3 * minute) (fst (requests loginRL (map (\<lambda>i. minute + 1000 * i) [1..13])))) \<noteq> Block"
proof -
  let ?ts = "map (\<lambda>i. minute + 1000 * i) [1..13]"
  have ts: "?ts = [60000001000, 60000002000, 60000003000, 60000004000, 60000005000, 60000006000, 60000007000, 60000008000,
      60000009000, 60000010000, 60000011000, 60000012000, 60000013000]" by code_simp
  have l: "window loginRL = 60000000000" "maxRequests loginRL = 10" by (simp_all add: loginRL_def minute_def)
  have "int (length (filter (\<lambda>m. 120000000000 - window loginRL + 512 < m) (snd (requests loginRL ?ts)))) \<le> 10"
    using rate_limit_kept [of ?ts 120000000000 loginRL] unfolding ts by (simp add: l)
  moreover have "filter (\<lambda>m. 120000000000 - window loginRL + 512 < m) (snd (requests loginRL ?ts))
      = filter (\<lambda>m. minute < m) (snd (requests loginRL ?ts))"
  proof (rule filter_cong [OF refl])
    fix m assume "m \<in> set (snd (requests loginRL ?ts))"
    moreover have "limiter_inv loginRL ?ts (last ?ts) (requests loginRL ?ts)" unfolding ts by (rule requests_inv) (simp_all add: l)
    ultimately have "m \<in> set ?ts" by (auto simp: limiter_inv_def)
    then show "(120000000000 - window loginRL + 512 < m) = (minute < m)" unfolding ts by (auto simp: l minute_def)
  qed
  moreover have "fst (Middleware loginRL None (3 * minute) (fst (requests loginRL ?ts))) \<noteq> Block"
    using rate_limit_kept [of ?ts "3 * minute" loginRL] unfolding ts by (simp add: l minute_def)
  ultimately show ?thesis by simp
qed

text \<open>
  Requests that are blocked count as well: a client that goes on asking is not let in again, however
  long it waits in between, as long as it asks often enough.
\<close>

lemma blocked_requests_count:
  assumes "limiter_inv rl ts t st" and "\<forall>m \<in> set ts. 0 \<le> m" and "t \<notin> set ts"
    and "maxRequests rl \<le> int (length (filter (in_window rl t) ts))" and "distinct ts"
  shows "snd (request_at rl st t) = snd st"
proof -
  have "maxRequests rl \<le> int (length (filter (\<lambda>(m, s). in_window rl t m) (fst st)))"
    using requests_le_count [OF assms(1,5) order_refl] assms(4) by linarith
  then show ?thesis by (simp add: request_at_def Middleware_def Let_def kept_entries [OF assms(1,2)])
qed

end
