(* ===== verification/EngineLoop.thy ===== *)
theory EngineLoop
  imports Engine
begin

text \<open>
  The loop of the matching engine (engine.go, \<^verbatim>\<open>processOrder\<close>) and the status it gives to filled
  orders (matcher.go, \<^verbatim>\<open>newStatus\<close>). An order is marked \<^verbatim>\<open>FILLED\<close> only when it is filled; with whole
  quantities it is marked whenever it is, and then the loop always ends. With fractions the 128-bit
  sum may fall short of the 128-bit quantity: an order with nothing left stays open, and the loop
  never ends for the next order that meets it.
\<close>

section \<open>The computed status\<close>

text \<open>
  The status is sound: amounts that fit the columns are marked \<^verbatim>\<open>FILLED\<close> only if the
  quantity is filled; and for whole quantities it is exact.
\<close>

theorem newStatus_sound:
  assumes "0 \<le> f" "0 \<le> n" "f + n \<le> 10 ^ 20" "0 \<le> q" "q \<le> 10 ^ 20"
  shows "(status_after f n q = OrderStatusFilled \<longrightarrow> q \<le> f + n)
    \<and> (10 ^ 8 dvd f \<and> 10 ^ 8 dvd n \<and> 10 ^ 8 dvd q \<longrightarrow> (status_after f n q = OrderStatusFilled \<longleftrightarrow> q \<le> f + n))"
proof (intro conjI impI)
  assume "status_after f n q = OrderStatusFilled"
  then show "q \<le> f + n" using assms by (intro status_after_sound) simp_all
next
  assume d: "10 ^ 8 dvd f \<and> 10 ^ 8 dvd n \<and> 10 ^ 8 dvd q"
  have "status_after f n q = (if q \<le> f + n then OrderStatusFilled else OrderStatusPartiallyFilled)"
    by (rule status_after_whole [OF conjunct1 [OF d] conjunct1 [OF conjunct2 [OF d]] conjunct2 [OF conjunct2 [OF d]] assms])
  then show "status_after f n q = OrderStatusFilled \<longleftrightarrow> q \<le> f + n" by simp
qed

theorem newStatus_sound_witness: "status_after 100000000 200000000 300000000 = OrderStatusFilled"
  using newStatus_sound [of 100000000 200000000 300000000] by simp

lemma load_01: "load 128 10000000 = 272225893536750770770699685945414569165 / 2 ^ 131"
proof -
  have "rnd 128 (of_int 10000000 / 10 ^ 8 :: rat) = of_int 272225893536750770770699685945414569165 * 2 powi (- 3 - int 128)"
    by (rule rnd_eqI) (simp_all add: power_int_def power_one_over)
  then show ?thesis by (simp add: load_def power_int_def field_simps)
qed

lemma load_21: "load 128 210000000 = 178648242633492693318271668901678311014 / 2 ^ 126"
proof -
  have "rnd 128 (of_int 210000000 / 10 ^ 8 :: rat) = of_int 178648242633492693318271668901678311014 * 2 powi (2 - int 128)"
    by (rule rnd_eqI) (simp_all add: power_int_def power_one_over)
  then show ?thesis by (simp add: load_def power_int_def field_simps)
qed

lemma load_22: "load 128 220000000 = 187155301806516154904856034087472516301 / 2 ^ 126"
proof -
  have "rnd 128 (of_int 220000000 / 10 ^ 8 :: rat) = of_int 187155301806516154904856034087472516301 * 2 powi (2 - int 128)"
    by (rule rnd_eqI) (simp_all add: power_int_def power_one_over)
  then show ?thesis by (simp add: load_def power_int_def field_simps)
qed

text \<open>
  The status is not complete: an order of 2.2 of which 0.1 was filled and that is now
  filled with the remaining 2.1 stays \<^verbatim>\<open>PARTIALLY_FILLED\<close>.
\<close>

theorem newStatus_misses_fill:
  "10000000 + 210000000 = (220000000 :: numeric) \<and> status_after 10000000 210000000 220000000 = OrderStatusPartiallyFilled"
proof -
  have "rnd 128 (load 128 10000000 + load 128 210000000) = of_int 187155301806516154904856034087472516300 * 2 powi (2 - int 128)"
    by (rule rnd_eqI) (simp_all add: power_int_def power_one_over load_01 load_21)
  then have "rnd 128 (load 128 10000000 + load 128 210000000) < load 128 220000000"
    by (simp add: load_22 power_int_def power_one_over)
  then show ?thesis by (simp add: status_after_def newStatus_def)
qed


section \<open>A loop that never ends\<close>

lemma processOrder_stays:
  assumes "process_step i w = (Inr True, w)"
  shows "processOrder i w = None"
proof -
  have "\<And>y. processOrder i w = Some y \<Longrightarrow> process_step i w \<noteq> (Inr True, w)"
  proof -
    fix y
    have "processOrder i w = Some y \<Longrightarrow> process_step i w = (Inr True, w) \<longrightarrow> False"
      by (rule processOrder.raw_induct [where P = "\<lambda>i w y. process_step i w = (Inr True, w) \<longrightarrow> False"])
        (auto split: prod.splits sum.splits if_splits)
    then show "processOrder i w = Some y \<Longrightarrow> process_step i w \<noteq> (Inr True, w)" by blast
  qed
  with assms show ?thesis by (cases "processOrder i w") auto
qed

text \<open>The order the engine picks for an order of the book, and its side of the book.\<close>

definition opposite :: "string \<Rightarrow> string" where
  "opposite side = (if side = OrderSideSell then OrderSideBuy else OrderSideSell)"

definition best :: "tables \<Rightarrow> numeric order \<Rightarrow> numeric order option" where
  "best d r = find (\<lambda>c. o_UserID c \<noteq> o_UserID r \<and> crosses r c) (open_orders (o_AssetID r) (opposite (o_Side r)) d)"

lemma best_Some:
  assumes "best d r = Some k"
  shows "k \<in> set (orders d) \<and> order_open k \<and> o_AssetID k = o_AssetID r \<and> o_UserID k \<noteq> o_UserID r \<and> crosses r k"
  using find_SomeD [OF assms [unfolded best_def]] by (auto simp: set_open_orders)

lemma process_step_eval:
  assumes "schema_ok (db w) (seqs w)" and "faults w = []" and "r \<in> set (orders (db w))" and "o_ID i = o_ID r"
    and "o_Side i = o_Side r" and "o_AssetID i = o_AssetID r" and "order_open r" and "0 < o_RemainingQuantity r"
  shows "process_step i w = (case best (db w) r of
      None \<Rightarrow> (Inr False, w)
    | Some k \<Rightarrow> bindE (executeTrade (scan_order r) (scan_order k)) (\<lambda>matched.
        if \<not> matched then
          bindE (wrapE ''processOrder: check incoming after unmatched'' (order_GetByID (o_ID i))) (\<lambda>fresh. ret (isOpen (o_Status fresh)))
        else bindE (wrapE ''processOrder: re-fetch after fill'' (order_GetByID (o_ID i))) (\<lambda>current2.
          ret (o_Status current2 \<noteq> OrderStatusFilled))) w)"
proof -
  have f: "find (\<lambda>x. o_ID x = o_ID r) (orders (db w)) = Some r"
    using assms(1,3) by (auto simp: schema_ok_def orders_ok_def intro!: find_key)
  have st: "o_Status r \<noteq> OrderStatusFilled" "o_Status r \<noteq> OrderStatusCancelled" using assms(7) by (auto simp: order_open_def)
  have pos: "\<not> load 128 (o_RemainingQuantity r) \<le> 0" using assms(8) load_pos_iff [of 128 "o_RemainingQuantity r"] by simp
  show ?thesis
    using findBestCandidate_eval [OF assms(1,2,3), of "o_AssetID r" "opposite (o_Side r)"] f st pos
    by (simp add: process_step_def assms(4,5,6) bindE_def wrapE_def order_GetByID_eval [OF assms(2)] ret_def bigZero_def new_float_def
        best_def opposite_def split: option.split)
qed

lemma executeTrade_nothing_left:
  assumes "schema_ok (db w) (seqs w)" and "faults w = []" and "r \<in> set (orders (db w))" and "k \<in> set (orders (db w))"
    and "o_UserID k \<noteq> o_UserID r" and "0 \<le> o_FilledQuantity r" "0 \<le> o_FilledQuantity k" and "o_RemainingQuantity k \<le> 0"
  shows "executeTrade (scan_order r) (scan_order k) w = (Inr False, w)"
proof -
  have ok: "order_row_ok r" "order_row_ok k" using assms(1,3,4) by (auto simp: schema_ok_def orders_ok_def)
  then have b: "\<bar>o_Price r\<bar> \<le> 10 ^ 20" "\<bar>o_Price k\<bar> \<le> 10 ^ 20" "\<bar>o_RemainingQuantity r\<bar> \<le> 10 ^ 20" "\<bar>o_RemainingQuantity k\<bar> \<le> 10 ^ 20"
    using assms(6,7) by (auto simp: order_row_ok_def numeric_fits_def)
  have ids: "o_ID k \<noteq> o_ID r" using order_by_id [OF assms(1,3,4)] assms(5) by auto
  have f: "find (\<lambda>x. o_ID x = o_ID r) (orders (db w)) = Some r" "find (\<lambda>x. o_ID x = o_ID k) (orders (db w)) = Some k"
    using assms(1,3,4) by (auto simp: schema_ok_def orders_ok_def intro!: find_key)
  have l: "lock_orders (scan_order (buyer_of r k)) (scan_order (seller_of r k)) w = (Inr (scan_order (buyer_of r k), scan_order (seller_of r k)), w)"
    using lock_orders_eval [OF assms(2)] f ids by (simp add: buyer_of_def seller_of_def)
  have q: "fill_quantity (scan_order (buyer_of r k)) (scan_order (seller_of r k)) = ret None"
    using fill_quantity_eval [OF b] fill_quantity_eval [OF b(2,1,4,3)] assms(8) by (simp add: buyer_of_def seller_of_def)
  have "executeTrade_tx (scan_order (buyer_of r k)) (scan_order (seller_of r k)) (numeric_out (o_Price k)) w = (Inr None, w)"
    using l q by (simp add: executeTrade_tx_def bindE_def ret_def)
  from trade_transaction_eval(2) [OF assms(2), of "executeTrade_tx (scan_order (buyer_of r k)) (scan_order (seller_of r k)) (numeric_out (o_Price k))" w] this
  show ?thesis unfolding executeTrade_unfold by (simp add: bindE_def ret_def)
qed

text \<open>
  Property C17. If the best candidate for an open order is an order of the book with nothing left to
  trade, the engine never comes back from that order: it finds the same candidate, trades nothing
  and starts again, for ever, and no order behind it in the queue is matched any more.
\<close>

theorem processOrder_hangs:
  assumes "schema_ok (db w) (seqs w)" and "faults w = []" and "r \<in> set (orders (db w))" and "order_open r"
    and "0 < o_RemainingQuantity r" and "0 \<le> o_FilledQuantity r"
    and "best (db w) r = Some k" and "o_RemainingQuantity k \<le> 0" and "0 \<le> o_FilledQuantity k"
  shows "processOrder (scan_order r) w = None"
proof (rule processOrder_stays)
  have k: "k \<in> set (orders (db w))" "o_UserID k \<noteq> o_UserID r" using best_Some [OF assms(7)] by auto
  have f: "find (\<lambda>x. o_ID x = o_ID r) (orders (db w)) = Some r"
    using assms(1,3) by (auto simp: schema_ok_def orders_ok_def intro!: find_key)
  show "process_step (scan_order r) w = (Inr True, w)"
    using process_step_eval [OF assms(1-3) scan_order_simps(1,4,3) assms(4,5)] assms(7)
      executeTrade_nothing_left [OF assms(1-3) k assms(6,9,8)] f assms(4)
    by (simp add: bindE_def wrapE_def order_GetByID_eval [OF assms(2)] ret_def isOpen_def order_open_def)
qed

definition stuck_order :: "numeric order" where
  "stuck_order = (ex_order 1 2 ''SELL'' 1000000000 220000000)\<lparr>o_FilledQuantity := 220000000, o_RemainingQuantity := 0, o_Status := ''PARTIALLY_FILLED''\<rparr>"

definition stuck_world :: world where
  "stuck_world = ex_world\<lparr>db := ex_tables\<lparr>orders := [stuck_order, ex_order 2 1 ''BUY'' 1200000000 100000000]\<rparr>\<rparr>"

theorem processOrder_hangs_witness: "processOrder (scan_order (ex_order 2 1 ''BUY'' 1200000000 100000000)) stuck_world = None"
proof (rule processOrder_hangs [where k = stuck_order])
  show "schema_ok (db stuck_world) (seqs stuck_world)"
    using ex_world_ok
    by (simp add: stuck_world_def stuck_order_def schema_defs ex_defs numeric_fits_def order_row_ok_def idempotency_keys_def)
  show "best (db stuck_world) (ex_order 2 1 ''BUY'' 1200000000 100000000) = Some stuck_order"
    by (simp add: best_def open_orders_def stuck_world_def stuck_order_def ex_defs opposite_def crosses_def const_defs)
qed (simp_all add: stuck_world_def stuck_order_def ex_defs order_open_def const_defs)

section \<open>What a trade does to the book\<close>

text \<open>The settlement of money and asset leaves orders and trades alone.\<close>

lemma settlement_frame:
  "preserves (\<lambda>d s. orders d = os \<and> trades d = ts) (debit_buyer b c)"
  "preserves (\<lambda>d s. orders d = os \<and> trades d = ts) (credit_seller b c)"
  "preserves (\<lambda>d s. orders d = os \<and> trades d = ts) (move_asset b s q p)"
proof -
  let ?I = "\<lambda>d (s :: string \<Rightarrow> int). orders d = os \<and> trades d = ts"
  have ub: "preserves ?I (UpdateBalance i n v)" for i n v
    unfolding UpdateBalance_def
    by (intro preserves_bindE [OF preserves_wrapE [OF preserves_sql]] preserves_check)
      (auto simp: preserves_def monad_defs split: option.splits if_splits)
  have it: "preserves ?I (InsertTransaction t)" for t
    unfolding InsertTransaction_def
    by (intro preserves_wrapE preserves_sql) (auto simp: preserves_def monad_defs Let_def split: option.splits if_splits)
  have uh: "preserves ?I (UpsertBuyerHolding u a q p)" for u a q p
    unfolding UpsertBuyerHolding_def
    by (intro preserves_wrapE preserves_sql) (auto simp: preserves_def monad_defs split: option.splits if_splits)
  have rh: "preserves ?I (ReduceSellerHolding u a q)" for u a q
    unfolding ReduceSellerHolding_def
    by (intro preserves_wrapE preserves_sql) (auto simp: preserves_def monad_defs split: option.splits if_splits)
  show "preserves ?I (debit_buyer b c)" "preserves ?I (credit_seller b c)" "preserves ?I (move_asset b s q p)"
    unfolding debit_buyer_def credit_seller_def move_asset_def
    by (intro preserves_rules big_rules GetByUserIDForUpdate_preserves ub it uh rh)+
qed

text \<open>Two orders of the book of different users, with amounts that fit.\<close>

definition pair_ok :: "tables \<Rightarrow> numeric order \<Rightarrow> numeric order \<Rightarrow> bool" where
  "pair_ok d b s \<longleftrightarrow> b \<in> set (orders d) \<and> s \<in> set (orders d) \<and> o_UserID b \<noteq> o_UserID s \<and> o_AssetID b = o_AssetID s
     \<and> 0 \<le> o_FilledQuantity b \<and> 0 \<le> o_FilledQuantity s"

lemma executeTrade_tx_book:
  assumes ok: "schema_ok (db w) (seqs w)" and q: "faults w = []" and p: "pair_ok (db w) b s" and c: "0 < c" "numeric_fits c"
    and run: "executeTrade_tx (scan_order b) (scan_order s) (numeric_out c) w = (Inr (Some st), w')"
  shows "\<exists>n. matching (db w) b s n c \<and> orders (db w') = orders (db (orders_filled b s n c w))
    \<and> trades (db w') = trades (db w) @ [trade_row b s n c w]"
proof -
  have mem: "b \<in> set (orders (db w))" "s \<in> set (orders (db w))" "o_UserID b \<noteq> o_UserID s" using p by (auto simp: pair_ok_def)
  then have ids: "o_ID b \<noteq> o_ID s" using order_by_id [OF ok, of s b] by auto
  have f: "find (\<lambda>x. o_ID x = o_ID b) (orders (db w)) = Some b" "find (\<lambda>x. o_ID x = o_ID s) (orders (db w)) = Some s"
    using ok mem by (auto simp: schema_ok_def orders_ok_def intro!: find_key)
  have row: "order_row_ok b" "order_row_ok s" using ok mem by (auto simp: schema_ok_def orders_ok_def)
  then have bd: "\<bar>o_Price b\<bar> \<le> 10 ^ 20" "\<bar>o_Price s\<bar> \<le> 10 ^ 20" "\<bar>o_RemainingQuantity b\<bar> \<le> 10 ^ 20" "\<bar>o_RemainingQuantity s\<bar> \<le> 10 ^ 20"
    using p by (auto simp: order_row_ok_def numeric_fits_def pair_ok_def)
  define n where "n = min (o_RemainingQuantity b) (o_RemainingQuantity s)"
  have l: "lock_orders (scan_order b) (scan_order s) w = (Inr (scan_order b, scan_order s), w)"
    using lock_orders_eval [OF q] f ids by simp
  note fq = fill_quantity_eval [OF bd, folded n_def]
  have op: "order_open b \<and> order_open s \<and> o_Price s \<le> o_Price b \<and> 0 < n"
    using run l fq by (auto simp: executeTrade_tx_def bindE_def ret_def split: if_splits)
  then have m: "matching (db w) b s n c" using p ids c by (auto simp: matching_def pair_ok_def n_def)
  obtain w1 where
    u: "update_orders (scan_order b) (scan_order s) (Fin 128 False (load 128 n)) (Fin 128 False (load 128 c)) w = (Inr (scan_trade (trade_row b s n c w)), w1)"
    and w1: "w1 = orders_filled b s n c w"
    using update_orders_eval [OF ok q m] by blast
  from run l fq op u obtain v x2 x3 w2 w3 where
    d: "debit_buyer (scan_order b) v w1 = (Inr x2, w2)" and cr: "credit_seller (scan_order s) v w2 = (Inr x3, w3)"
    and mv: "move_asset (scan_order b) (scan_order s) (Fin 128 False (load 128 n)) (Fin 128 False (load 128 c)) w3 = (Inr (), w')"
    by (auto simp: executeTrade_tx_def bindE_Inr)
  have "orders (db w2) = orders (db w1) \<and> trades (db w2) = trades (db w1)" using preservesD [OF settlement_frame(1) d] by simp
  moreover have "orders (db w3) = orders (db w2) \<and> trades (db w3) = trades (db w2)" using preservesD [OF settlement_frame(2) cr] by simp
  moreover have "orders (db w') = orders (db w3) \<and> trades (db w') = trades (db w3)" using preservesD [OF settlement_frame(3) mv] by simp
  ultimately show ?thesis using m w1 by (intro exI [of _ n]) (simp add: orders_filled_def)
qed

lemma quiet_same: "faults w = [] \<Longrightarrow> w\<lparr>faults := []\<rparr> = w"
  by (cases w) simp

lemma executeTrade_book:
  assumes ok: "schema_ok (db w) (seqs w)" and q: "faults w = []" and p: "pair_ok (db w) (buyer_of i k) (seller_of i k)"
    and k: "k \<in> set (orders (db w))" and run: "executeTrade (scan_order i) (scan_order k) w = (Inr x, w')"
  shows "if x then \<exists>n. matching (db w) (buyer_of i k) (seller_of i k) n (o_Price k)
        \<and> orders (db w') = orders (db (orders_filled (buyer_of i k) (seller_of i k) n (o_Price k) w))
        \<and> trades (db w') = trades (db w) @ [trade_row (buyer_of i k) (seller_of i k) n (o_Price k) w]
      else db w' = db w \<and> \<not> (order_open i \<and> order_open k \<and> o_Price (seller_of i k) \<le> o_Price (buyer_of i k)
        \<and> 0 < o_RemainingQuantity i \<and> 0 < o_RemainingQuantity k)"
proof -
  let ?b = "buyer_of i k" and ?s = "seller_of i k"
  let ?body = "executeTrade_tx (scan_order ?b) (scan_order ?s) (numeric_out (o_Price k))"
  have c: "0 < o_Price k" "numeric_fits (o_Price k)" using ok k by (auto simp: schema_ok_def orders_ok_def order_row_ok_def)
  from run obtain y w1 where t: "trade_transaction ?body w = (Inr y, w1)" unfolding executeTrade_unfold by (auto simp: bindE_Inr)
  show ?thesis
  proof (cases y)
    case None
    with run t have x: "x = False" "w' = w1" unfolding executeTrade_unfold by (auto simp: bindE_def ret_def)
    have "db w1 = db w" using trade_transaction_cases [OF t] None by auto
    moreover have "\<not> (order_open i \<and> order_open k \<and> o_Price ?s \<le> o_Price ?b \<and> 0 < o_RemainingQuantity i \<and> 0 < o_RemainingQuantity k)"
    proof
      assume a: "order_open i \<and> order_open k \<and> o_Price ?s \<le> o_Price ?b \<and> 0 < o_RemainingQuantity i \<and> 0 < o_RemainingQuantity k"
      let ?n = "min (o_RemainingQuantity ?b) (o_RemainingQuantity ?s)"
      have ids: "o_ID ?b \<noteq> o_ID ?s" using order_by_id [OF ok, of ?s ?b] p by (auto simp: pair_ok_def)
      have m: "matching (db w) ?b ?s ?n (o_Price k)" using a p ids c by (auto simp: matching_def pair_ok_def buyer_of_def seller_of_def)
      note ma = matching_amounts [OF ok m]
      have l: "lock_orders (scan_order ?b) (scan_order ?s) w = (Inr (scan_order ?b, scan_order ?s), w)"
        using lock_orders_eval [OF q] ma ids by simp
      have f: "fill_quantity (scan_order ?b) (scan_order ?s) = ret (Some (Fin 128 False (load 128 ?n)))"
        using fill_quantity_eval [OF ma(7-10)] m by (simp add: matching_def)
      obtain r v where body: "?body w = (r, v)" by fastforce
      have "r \<noteq> Inr None"
        using body l f by (auto simp: executeTrade_tx_def bindE_def ret_def raise_def orPanic_def split: prod.splits sum.splits option.splits)
      with body t q None show False
        by (auto simp: trade_transaction_def bindE_def wrapE_def ret_def split: prod.splits sum.splits option.splits)
    qed
    ultimately show ?thesis using x by simp
  next
    case (Some st)
    with run t have x: "x = True" "db w' = db w1"
      unfolding executeTrade_unfold by (auto simp: bindE_Inr dest!: publish_db)
    from trade_transaction_cases [OF t] Some obtain fs fs' w2 where
      "?body (w\<lparr>faults := fs\<rparr>) = (Inr (Some st), w2)" "w1 = w2\<lparr>faults := fs'\<rparr>" by auto
    moreover from obliviousD [OF executeTrade_tx_rules(2) this(1)] have "?body w = (Inr (Some st), w2\<lparr>faults := []\<rparr>)"
      by (simp add: quiet_same [OF q])
    ultimately show ?thesis using executeTrade_tx_book [OF ok q p c] x by simp
  qed
qed

section \<open>The loop ends on a book of whole quantities\<close>

definition known_status :: "'n order \<Rightarrow> bool" where
  "known_status r \<longleftrightarrow> o_Status r = OrderStatusPending \<or> o_Status r = OrderStatusPartiallyFilled
     \<or> o_Status r = OrderStatusFilled \<or> o_Status r = OrderStatusCancelled"

definition whole_order :: "numeric order \<Rightarrow> bool" where
  "whole_order r \<longleftrightarrow> 10 ^ 8 dvd o_Quantity r \<and> 10 ^ 8 dvd o_FilledQuantity r \<and> 0 \<le> o_FilledQuantity r \<and> known_status r
     \<and> (order_open r \<longrightarrow> 0 < o_RemainingQuantity r)"

definition whole_book :: "tables \<Rightarrow> bool" where
  "whole_book d \<longleftrightarrow> (\<forall>r \<in> set (orders d). whole_order r)"

text \<open>A row with \<open>n\<close> more filled, and the rows after a trade.\<close>

definition filled_row :: "numeric \<Rightarrow> int \<Rightarrow> numeric order \<Rightarrow> numeric order" where
  "filled_row n t r = r\<lparr>o_FilledQuantity := o_FilledQuantity r + n, o_RemainingQuantity := o_Quantity r - (o_FilledQuantity r + n),
     o_Status := status_after (o_FilledQuantity r) n (o_Quantity r), o_UpdatedAt := t\<rparr>"

lemma orders_filled_rows:
  assumes "schema_ok (db w) (seqs w)" and "matching (db w) b s n c"
  shows "orders (db (orders_filled b s n c w)) =
    map (\<lambda>r. if r = b \<or> r = s then filled_row n (now w) r else r) (orders (db w))"
proof -
  have e: "o_ID r = o_ID b \<longleftrightarrow> r = b" "o_ID r = o_ID s \<longleftrightarrow> r = s" if "r \<in> set (orders (db w))" for r
    using that order_by_id [OF assms(1)] assms(2) by (auto simp: matching_def)
  have ids: "o_ID b \<noteq> o_ID s" using assms(2) by (simp add: matching_def)
  show ?thesis unfolding orders_filled_def add_fill_def upd_where_def
    using e ids by (auto simp: filled_row_def)
qed

lemma whole_filled_row:
  assumes "order_row_ok r" and "whole_order r" and "10 ^ 8 dvd n" and "0 < n" and "o_FilledQuantity r + n \<le> o_Quantity r"
  shows "whole_order (filled_row n t r)"
proof -
  have w: "10 ^ 8 dvd o_Quantity r" "10 ^ 8 dvd o_FilledQuantity r" "0 \<le> o_FilledQuantity r" using assms(2) by (simp_all only: whole_order_def)
  have b: "0 \<le> o_Quantity r" "o_Quantity r \<le> 10 ^ 20" "o_FilledQuantity r + n \<le> 10 ^ 20"
    using assms(1,5) by (auto simp: order_row_ok_def numeric_fits_def)
  have n: "0 \<le> n" using assms(4) by simp
  have st: "status_after (o_FilledQuantity r) n (o_Quantity r) =
      (if o_Quantity r \<le> o_FilledQuantity r + n then OrderStatusFilled else OrderStatusPartiallyFilled)"
    by (rule status_after_whole [OF w(2) assms(3) w(1) w(3) n b(3) b(1,2)])
  have d: "10 ^ 8 dvd o_FilledQuantity r + n" using w(2) assms(3) by (rule dvd_add)
  show ?thesis unfolding whole_order_def filled_row_def
    using st d w n assms(5) by (simp add: known_status_def order_open_def del: power_numeral)
qed

lemma whole_book_filled:
  assumes "schema_ok (db w) (seqs w)" and "matching (db w) b s n c" and "whole_book (db w)"
  shows "\<forall>r \<in> set (orders (db (orders_filled b s n c w))). whole_order r"
proof -
  note ma = matching_amounts [OF assms(1,2)]
  have mem: "b \<in> set (orders (db w))" "s \<in> set (orders (db w))" using assms(2) by (auto simp: matching_def)
  have row: "order_row_ok b" "order_row_ok s" using assms(1) mem by (auto simp: schema_ok_def orders_ok_def)
  have wh: "whole_order b" "whole_order s" using assms(3) mem by (auto simp: whole_book_def)
  have "10 ^ 8 dvd o_RemainingQuantity r" if "order_row_ok r" "whole_order r" for r
    using that by (simp only: order_row_ok_def whole_order_def dvd_diff)
  with row wh have dvd: "10 ^ 8 dvd n" using assms(2) by (simp only: matching_def min_def split: if_split) metis
  have "whole_order (filled_row n (now w) b)" "whole_order (filled_row n (now w) s)"
    using whole_filled_row [OF row(1) wh(1) dvd ma(2,3)] whole_filled_row [OF row(2) wh(2) dvd ma(2,4)] .
  then show ?thesis using assms(3) by (auto simp: orders_filled_rows [OF assms(1,2)] whole_book_def)
qed

definition remaining_of :: "tables \<Rightarrow> int \<Rightarrow> nat" where
  "remaining_of d i = (case find (\<lambda>r. o_ID r = i) (orders d) of None \<Rightarrow> 0 | Some r \<Rightarrow> nat (o_RemainingQuantity r))"

text \<open>A queued order and its row.\<close>

definition queued :: "tables \<Rightarrow> string order \<Rightarrow> bool" where
  "queued d i \<longleftrightarrow> (\<exists>r \<in> set (orders d). o_ID r = o_ID i \<and> o_Side r = o_Side i \<and> o_AssetID r = o_AssetID i)"

lemma pair_ok_best:
  assumes "whole_book d" and "r \<in> set (orders d)" and "best d r = Some k"
  shows "pair_ok d (buyer_of r k) (seller_of r k) \<and> k \<in> set (orders d) \<and> order_open k \<and> 0 < o_RemainingQuantity k
    \<and> o_Price (seller_of r k) \<le> o_Price (buyer_of r k)"
  using best_Some [OF assms(3)] assms(1,2)
  by (auto simp: pair_ok_def buyer_of_def seller_of_def whole_book_def whole_order_def crosses_def)

lemma process_step_progress:
  assumes ok: "schema_ok (db w) (seqs w)" and q: "faults w = []" and wb: "whole_book (db w)" and qd: "queued (db w) i"
    and run: "process_step i w = (Inr True, w')"
  shows "whole_book (db w') \<and> queued (db w') i \<and> remaining_of (db w') (o_ID i) < remaining_of (db w) (o_ID i)"
proof -
  obtain r where r: "r \<in> set (orders (db w))" "o_ID i = o_ID r" "o_Side i = o_Side r" "o_AssetID i = o_AssetID r"
    using qd by (auto simp: queued_def)
  have f: "find (\<lambda>x. o_ID x = o_ID r) (orders (db w)) = Some r"
    using ok r(1) by (auto simp: schema_ok_def orders_ok_def intro!: find_key)
  have wr: "whole_order r" using wb r(1) by (simp add: whole_book_def)
  have "\<not> (o_Status r = OrderStatusFilled \<or> o_Status r = OrderStatusCancelled)"
    using run f by (auto simp: process_step_def r(2) bindE_def wrapE_def order_GetByID_eval [OF q] ret_def)
  with wr have op: "order_open r" "0 < o_RemainingQuantity r" by (auto simp: whole_order_def known_status_def order_open_def)
  note st = process_step_eval [OF ok q r op]
  obtain k where k: "best (db w) r = Some k" using run st by (cases "best (db w) r") auto
  from pair_ok_best [OF wb r(1) k] have pk: "pair_ok (db w) (buyer_of r k) (seller_of r k)" "k \<in> set (orders (db w))"
    "order_open k" "0 < o_RemainingQuantity k" "o_Price (seller_of r k) \<le> o_Price (buyer_of r k)" by auto
  from run st k obtain x w1 where e: "executeTrade (scan_order r) (scan_order k) w = (Inr x, w1)"
    by (auto simp: bindE_Inr)
  from executeTrade_book [OF ok q pk(1,2) e] pk op have x: "x = True" by (auto split: if_splits)
  with executeTrade_book [OF ok q pk(1,2) e] obtain n where
    m: "matching (db w) (buyer_of r k) (seller_of r k) n (o_Price k)"
    and os: "orders (db w1) = orders (db (orders_filled (buyer_of r k) (seller_of r k) n (o_Price k) w))" by auto
  have keep: "db v' = db v" if "order_GetByID j v = (y, v')" for j v y v'
    using preservesD [OF order_reads_preserve(1) [where I = "\<lambda>d s. d = db v"] that] by simp
  from run st k e x have d: "db w' = db w1" by (auto simp: bindE_Inr dest: keep)
  let ?f = "\<lambda>y. if y = buyer_of r k \<or> y = seller_of r k then filled_row n (now w) y else y"
  have rows: "orders (db w') = map ?f (orders (db w))" using os d orders_filled_rows [OF ok m] by simp
  have key: "o_ID (?f y) = o_ID y \<and> o_Side (?f y) = o_Side y \<and> o_AssetID (?f y) = o_AssetID y" for y by (simp add: filled_row_def)
  have find_map: "find (\<lambda>y. o_ID y = j) (map g ys) = map_option g (find (\<lambda>y. o_ID y = j) ys)"
    if "\<And>y. o_ID (g y) = o_ID y" for g j and ys :: "numeric order list"
    using that by (induction ys) auto
  have "find (\<lambda>y. o_ID y = o_ID r) (orders (db w')) = Some (?f r)" using f key by (simp add: rows find_map)
  moreover have "r = buyer_of r k \<or> r = seller_of r k" by (simp add: buyer_of_def seller_of_def)
  moreover have "o_RemainingQuantity r = o_Quantity r - o_FilledQuantity r" using ok r(1) by (auto simp: schema_ok_def orders_ok_def order_row_ok_def)
  ultimately have "remaining_of (db w') (o_ID i) < remaining_of (db w) (o_ID i)"
    using f op(2) matching_amounts(2) [OF ok m] by (auto simp: remaining_of_def r(2) filled_row_def)
  moreover have "queued (db w') i" unfolding queued_def
    using r key [of r] imageI [OF r(1), of ?f] by (intro bexI [of _ "?f r"]) (simp_all only: rows set_map)
  moreover have "whole_book (db w')" using whole_book_filled [OF ok m wb] os d by (simp add: whole_book_def)
  ultimately show ?thesis by simp
qed

text \<open>
  Property C16. On a book of whole quantities, as orders of whole quantities leave it, processing an
  order always ends, with whatever statements failing: every turn of the loop that goes on has
  traded something of the order.
\<close>

theorem processOrder_terminates:
  assumes "schema_ok (db w) (seqs w)" and "whole_book (db w)" and "queued (db w) i"
  shows "\<exists>res. processOrder i w = Some res"
  using assms
proof (induction "remaining_of (db w) (o_ID i)" arbitrary: w rule: less_induct)
  case (less w)
  obtain x w1 where s: "process_step i w = (x, w1)" by fastforce
  show ?case
  proof (cases "x = Inr True")
    case False
    then show ?thesis using s by (subst processOrder.simps) (auto split: sum.splits)
  next
    case True
    let ?v = "w\<lparr>faults := []\<rparr>"
    from s True have "process_step i ?v = (Inr True, w1\<lparr>faults := []\<rparr>)" using obliviousD [OF process_step_rules(2)] by blast
    from process_step_progress [OF _ _ _ _ this] less.prems
    have "whole_book (db w1) \<and> queued (db w1) i \<and> remaining_of (db w1) (o_ID i) < remaining_of (db w) (o_ID i)" by simp
    moreover have "schema_ok (db w1) (seqs w1)" using preservesD [OF process_step_rules(1) s less.prems(1)] .
    ultimately have "\<exists>res. processOrder i w1 = Some res" using less.hyps by blast
    then show ?thesis using s True by (subst processOrder.simps) auto
  qed
qed

theorem processOrder_terminates_witness:
  "\<exists>res. processOrder (scan_order (ex_order 2 1 ''BUY'' (12 * unit8) (3 * unit8))) ex_world = Some res"
  by (rule processOrder_terminates [OF ex_world_ok])
    (simp_all add: whole_book_def whole_order_def known_status_def queued_def ex_defs order_open_def const_defs)

end
