(* ===== verification/Cron.thy ===== *)
theory Cron
  imports EngineLoop
begin

text \<open>
  internal/cronjobs: the jobs the scheduler runs. \<^verbatim>\<open>ExpireStaleOrders\<close> cancels old open orders;
  \<^verbatim>\<open>ReconcileWallets\<close> compares every balance with the sum of its transactions; \<^verbatim>\<open>VerifyTradeSettlements\<close>
  looks for the two wallet transactions of every trade; \<^verbatim>\<open>SystemHealthCheck\<close> pings the services. The
  jobs log what they find and return a count; a failed statement is logged and counted as their code does.
\<close>

section \<open>order_expiry.go\<close>

definition day :: int where "day = 24 * 3600 * 1000000"

definition stale :: "int \<Rightarrow> numeric order \<Rightarrow> bool" where
  "stale t r \<longleftrightarrow> (o_Status r = ''PENDING'' \<or> o_Status r = ''PARTIALLY_FILLED'') \<and> o_CreatedAt r < t - day"

definition expire :: "int \<Rightarrow> tables \<Rightarrow> tables" where
  "expire t d = d\<lparr>orders := upd_where (stale t) (\<lambda>r. r\<lparr>o_Status := OrderStatusCancelled, o_UpdatedAt := t\<rparr>) (orders d)\<rparr>"

definition ExpireStaleOrders :: "int io" where
  "ExpireStaleOrders =
     bindE (attempt (sql (bindE get_db (\<lambda>d. bindE time_now (\<lambda>t.
       bindE (put_db (expire t d)) (\<lambda>_. ret (int (length (filter (stale t) (orders d)))))))))) (\<lambda>r.
     case r of Inl e \<Rightarrow> ret 0 | Inr rows \<Rightarrow> ret rows)"

section \<open>reconciliation.go\<close>

definition sum_transactions :: "int \<Rightarrow> string io" where
  "sum_transactions walletID = sql (bindE get_db (\<lambda>d. ret (numeric_out (ledger d walletID))))"

text \<open>One wallet: 1 if it is reported. Floats that are parsed into a zero \<^verbatim>\<open>big.Float\<close> have 64 bits.\<close>

definition reconcile_wallet :: "string wallet \<Rightarrow> int io" where
  "reconcile_wallet w = bindE (attempt (sum_transactions (w_ID w))) (\<lambda>r. case r of
     Inl e \<Rightarrow> ret 0
   | Inr sumStr \<Rightarrow> (case (SetString 0 (w_Balance w), SetString 0 sumStr) of
       (Some walletBal, Some txSum) \<Rightarrow>
         bindE (orPanic ''big.ErrNaN'' (Sub 0 walletBal txSum)) (\<lambda>diff.
         bindE (orPanic ''nil pointer dereference'' (SetString 0 ''0.00000001'')) (\<lambda>limit.
         ret (if Cmp (Abs diff) limit > 0 then 1 else 0)))
     | _ \<Rightarrow> ret 0))"

fun reconcile_loop :: "int \<Rightarrow> string wallet list \<Rightarrow> int io" where
  "reconcile_loop discrepanciesCount [] = ret discrepanciesCount"
| "reconcile_loop discrepanciesCount (w # ws) =
     bindE (reconcile_wallet w) (\<lambda>n. reconcile_loop (discrepanciesCount + n) ws)"

definition ReconcileWallets :: "int io" where
  "ReconcileWallets = bindE (attempt (sql (bindE get_db (\<lambda>d. ret (map scan_wallet (wallets d)))))) (\<lambda>r.
     case r of Inl e \<Rightarrow> ret 0 | Inr ws \<Rightarrow> reconcile_loop 0 ws)"

section \<open>settlement.go\<close>

text \<open>
  Whether a wallet of the user has a completed transaction of that type and amount whose description
  contains the text: \<^verbatim>\<open>LIKE '%' || $3 || '%'\<close>.
\<close>

definition has_transaction :: "tables \<Rightarrow> int \<Rightarrow> string \<Rightarrow> numeric \<Rightarrow> string \<Rightarrow> bool" where
  "has_transaction d userID kind n txt = list_ex (\<lambda>x.
     x_TransactionType x = kind \<and> x_Amount x = n \<and> x_Status x = ''COMPLETED''
     \<and> (case x_Description x of None \<Rightarrow> False | Some descr \<Rightarrow> containsStr descr txt)
     \<and> list_ex (\<lambda>r. w_ID r = x_WalletID x \<and> w_UserID r = userID) (wallets d)) (wallet_transactions d)"

definition transaction_exists :: "int \<Rightarrow> string \<Rightarrow> string \<Rightarrow> string \<Rightarrow> bool io" where
  "transaction_exists userID kind costStr txt = sql (bindE get_db (\<lambda>d.
     bindE (to_numeric costStr) (\<lambda>n. ret (has_transaction d userID kind n txt))))"

definition order_text :: "int \<Rightarrow> string" where
  "order_text i = ''order #'' @ show_int i"

definition verify_side :: "int \<Rightarrow> string \<Rightarrow> string \<Rightarrow> int \<Rightarrow> int io" where
  "verify_side userID kind costStr orderID =
     bindE (attempt (transaction_exists userID kind costStr (order_text orderID))) (\<lambda>r.
     ret (case r of Inl e \<Rightarrow> 1 | Inr found \<Rightarrow> if found then 0 else 1))"

definition verify_trade :: "string trade \<Rightarrow> int io" where
  "verify_trade t =
     bindE (orPanic ''nil pointer dereference'' (SetString 0 (t_Price t))) (\<lambda>price.
     bindE (orPanic ''nil pointer dereference'' (SetString 0 (t_Quantity t))) (\<lambda>qty.
     bindE (orPanic ''big.ErrNaN'' (Mul 0 price qty)) (\<lambda>cost.
     bindE (verify_side (t_BuyerID t) ''WITHDRAWAL'' (fmt8f cost) (t_BuyOrderID t)) (\<lambda>b.
     bindE (verify_side (t_SellerID t) ''DEPOSIT'' (fmt8f cost) (t_SellOrderID t)) (\<lambda>s.
     ret (b + s))))))"

fun verify_loop :: "int \<Rightarrow> string trade list \<Rightarrow> int io" where
  "verify_loop discrepancies [] = ret discrepancies"
| "verify_loop discrepancies (t # ts) = bindE (verify_trade t) (\<lambda>n. verify_loop (discrepancies + n) ts)"

definition VerifyTradeSettlements :: "int io" where
  "VerifyTradeSettlements = bindE (attempt (sql (bindE get_db (\<lambda>d. ret (map scan_trade (trades d)))))) (\<lambda>r.
     case r of Inl e \<Rightarrow> ret 0 | Inr ts \<Rightarrow> verify_loop 0 ts)"

section \<open>health_check.go\<close>

text \<open>The answers of the services are arguments: the ping of the database, that of Redis if there is a client, dialling a broker.\<close>

definition SystemHealthCheck :: "bool \<Rightarrow> bool option \<Rightarrow> (string \<Rightarrow> bool) \<Rightarrow> string list \<Rightarrow> string \<times> string \<times> string" where
  "SystemHealthCheck dbPing redisPing dial brokers =
     (if dbPing then ''UP'' else ''DOWN'',
      case redisPing of None \<Rightarrow> ''DISABLED'' | Some ok \<Rightarrow> if ok then ''UP'' else ''DOWN'',
      if list_all dial brokers then ''UP'' else ''DOWN'')"

section \<open>Expiry\<close>

lemma stale_open: "stale t r \<longleftrightarrow> order_open r \<and> o_CreatedAt r < t - day"
  by (simp add: stale_def order_open_def const_defs)

lemma expire_frame [simp]:
  "users (expire t d) = users d" "wallets (expire t d) = wallets d" "wallet_transactions (expire t d) = wallet_transactions d"
  "assets (expire t d) = assets d" "trades (expire t d) = trades d" "portfolios (expire t d) = portfolios d"
  "audit_logs (expire t d) = audit_logs d"
  by (simp_all add: expire_def)

lemma expire_ids [simp]: "map o_ID (orders (expire t d)) = map o_ID (orders d)"
  by (simp add: expire_def map_upd_where_same)

lemma expire_id_set [simp]: "o_ID ` set (orders (expire t d)) = o_ID ` set (orders d)"
  by (metis list.set_map expire_ids)

lemma expire_ok: "schema_ok d s \<Longrightarrow> schema_ok (expire t d) s"
proof -
  assume a: "schema_ok d s"
  have k: "idempotency_keys (orders (expire t d)) = idempotency_keys (orders d)"
    unfolding expire_def idempotency_keys_def by (simp add: upd_where_def filter_map o_def if_distrib cong: if_cong)
  have "\<forall>r \<in> set (orders (expire t d)). o_ID r < s ''orders'' \<and> o_UserID r \<in> u_ID ` set (users d)
      \<and> o_AssetID r \<in> a_ID ` set (assets d) \<and> order_row_ok r"
    using a by (auto simp: schema_ok_def orders_ok_def expire_def set_upd_where order_row_ok_def)
  with a k show ?thesis
    by (simp add: schema_ok_def users_ok_def wallets_ok_def transactions_ok_def assets_ok_def orders_ok_def trades_ok_def portfolios_ok_def portfolio_refs_def audit_ok_def)
qed

lemma ExpireStaleOrders_cases:
  assumes "ExpireStaleOrders w = (r, w')"
  shows "r = Inr 0 \<and> db w' = db w \<and> seqs w' = seqs w \<or> r = Inr (int (length (filter (stale (now w)) (orders (db w))))) \<and> db w' = expire (now w) (db w) \<and> seqs w' = seqs w"
  using assms
  by (auto simp: ExpireStaleOrders_def bindE_def attempt_def sql_def get_db_def time_now_def put_db_def ret_def is_panic_def
      split: list.splits option.splits)

lemma ExpireStaleOrders_preserves: "preserves schema_ok ExpireStaleOrders"
  unfolding preserves_def using ExpireStaleOrders_cases expire_ok by (metis seqs_le_refl)

lemma ExpireStaleOrders_run:
  "faults w = [] \<Longrightarrow> ExpireStaleOrders w = (Inr (int (length (filter (stale (now w)) (orders (db w))))), w\<lparr>db := expire (now w) (db w)\<rparr>)"
  by (simp add: ExpireStaleOrders_def bindE_def attempt_def get_db_def time_now_def put_db_def ret_def)

text \<open>
  Property C27. The expiry job, when its statement does not fail, cancels exactly the open orders that
  are older than 24 hours: it returns their number, changes no other order and no other table, no
  open order older than that is left, and run again at once it finds nothing.
\<close>

theorem ExpireStaleOrders_exact:
  assumes "faults w = []"
  shows "\<exists>w'. ExpireStaleOrders w = (Inr (int (length (filter (\<lambda>r. order_open r \<and> o_CreatedAt r < now w - day) (orders (db w))))), w')
    \<and> db w' = (db w)\<lparr>orders := map (\<lambda>r. if order_open r \<and> o_CreatedAt r < now w - day
         then r\<lparr>o_Status := OrderStatusCancelled, o_UpdatedAt := now w\<rparr> else r) (orders (db w))\<rparr>
    \<and> (\<forall>r \<in> set (orders (db w')). order_open r \<longrightarrow> now w - day \<le> o_CreatedAt r)
    \<and> fst (ExpireStaleOrders w') = Inr 0"
proof -
  let ?w' = "w\<lparr>db := expire (now w) (db w)\<rparr>"
  have o: "orders (db ?w') = map (\<lambda>r. if order_open r \<and> o_CreatedAt r < now w - day
         then r\<lparr>o_Status := OrderStatusCancelled, o_UpdatedAt := now w\<rparr> else r) (orders (db w))"
    by (simp add: expire_def upd_where_def stale_open)
  have young: "\<forall>r \<in> set (orders (db ?w')). order_open r \<longrightarrow> now w - day \<le> o_CreatedAt r"
    unfolding o by (auto simp: order_open_def)
  then have "filter (stale (now ?w')) (orders (db ?w')) = []" by (auto simp: filter_empty_conv stale_open)
  then have "fst (ExpireStaleOrders ?w') = Inr 0" using ExpireStaleOrders_run [of ?w'] assms by simp
  with ExpireStaleOrders_run [OF assms] young show ?thesis by (intro exI [of _ ?w']) (simp add: stale_open expire_def upd_where_def cong: if_cong filter_cong)
qed

theorem ExpireStaleOrders_exact_witness: "fst (ExpireStaleOrders (ex_world\<lparr>now := day + 2\<rparr>)) = Inr 1"
proof -
  have "faults (ex_world\<lparr>now := day + 2\<rparr>) = []" by simp
  from ExpireStaleOrders_exact [OF this] show ?thesis by (auto simp: ex_defs order_open_def const_defs)
qed

section \<open>Reconciliation\<close>

lemma SetString_0: "SetString 0 s = SetString 64 s"
  by (simp add: SetString_def)

lemma SetString_limit: "SetString 0 ''0.00000001'' = Some (Fin 64 False (load 64 1))"
proof -
  have "numeric_out 1 = ''0.00000001''" by code_simp
  then show ?thesis using SetString_load [of 64 1] by (simp add: SetString_0)
qed

definition reported :: "numeric \<Rightarrow> numeric \<Rightarrow> bool" where
  "reported b l \<longleftrightarrow> load 64 1 < \<bar>rnd 64 (load 64 b - load 64 l)\<bar>"

lemma reconcile_wallet_cases:
  assumes "reconcile_wallet (scan_wallet r) w = (x, w')"
  shows "(x = Inr 0 \<or> x = Inr (if reported (w_Balance r) (ledger (db w) (w_ID r)) then 1 else 0)) \<and> (\<exists>fs. w' = w\<lparr>faults := fs\<rparr>)
    \<and> (faults w = [] \<longrightarrow> w' = w \<and> x = Inr (if reported (w_Balance r) (ledger (db w) (w_ID r)) then 1 else 0))"
proof -
  have sub: "Sub 0 (Fin 64 False a) (Fin 64 False b) = Some (Fin 64 False (rnd 64 (a - b)))" for a b by (rule Sub_Fin)
  have "\<exists>fs. w = w\<lparr>faults := fs\<rparr>" by (rule exI [of _ "faults w"]) simp
  then show ?thesis using assms
    by (auto simp: reconcile_wallet_def sum_transactions_def bindE_def attempt_def sql_def get_db_def ret_def is_panic_def SetString_0
        SetString_load orPanic_def SetString_limit [unfolded SetString_0] sub Abs_def reported_def split: list.splits option.splits)
qed

lemma reported_same [simp]: "\<not> reported b b"
  using load_pos_iff [of 64 1] by (simp add: reported_def)

lemma reconcile_loop_clean:
  assumes "\<forall>r \<in> set rs. w_Balance r = ledger (db w) (w_ID r)"
  shows "fst (reconcile_loop n (map scan_wallet rs) w) = Inr n \<and> db (snd (reconcile_loop n (map scan_wallet rs) w)) = db w"
  using assms
proof (induction rs arbitrary: n w)
  case (Cons r rs)
  obtain x w1 where x: "reconcile_wallet (scan_wallet r) w = (x, w1)" by fastforce
  from reconcile_wallet_cases [OF x] Cons.prems obtain fs where "x = Inr 0" "w1 = w\<lparr>faults := fs\<rparr>" by auto
  with Cons.IH [of w1 n] Cons.prems x show ?case by (simp add: bindE_def)
qed (simp add: ret_def)

lemma reconcile_loop_count:
  assumes "faults w = []"
  shows "reconcile_loop n (map scan_wallet rs) w = (Inr (n + int (length (filter (\<lambda>r. reported (w_Balance r) (ledger (db w) (w_ID r))) rs))), w)"
proof (induction rs arbitrary: n)
  case (Cons r rs)
  obtain x w1 where x: "reconcile_wallet (scan_wallet r) w = (x, w1)" by fastforce
  with reconcile_wallet_cases [OF x] assms Cons.IH show ?case by (simp add: bindE_def)
qed (simp add: ret_def)

text \<open>Within \<open>10 ^ 10\<close> USD a difference of two units is reported; one of a single unit may or may not be.\<close>

lemma reported_far:
  assumes "\<bar>b\<bar> \<le> 10 ^ 18" and "\<bar>l\<bar> \<le> 10 ^ 18" and "\<bar>b - l\<bar> \<le> 10 ^ 18" and "2 \<le> \<bar>b - l\<bar>"
  shows "reported b l"
proof -
  have u: "units (rnd 64 (load 64 b - load 64 l)) = b - l" by (rule f64.units_sub [OF assms(1-3)])
  have "units \<bar>rnd 64 (load 64 b - load 64 l)\<bar> = \<bar>b - l\<bar>"
  proof (cases "rnd 64 (load 64 b - load 64 l) < 0")
    case True
    then have "units \<bar>rnd 64 (load 64 b - load 64 l)\<bar> = - (b - l)"
      using u round_even_uminus [of "rnd 64 (load 64 b - load 64 l) * 10 ^ 8"] by (simp add: units_def)
    moreover have "b - l \<le> 0" using True u round_even_mono [of "rnd 64 (load 64 b - load 64 l) * 10 ^ 8" 0] by (simp add: units_def)
    ultimately show ?thesis by simp
  next
    case False
    with u units_nonneg [of "rnd 64 (load 64 b - load 64 l)"] show ?thesis by simp
  qed
  moreover have "units (load 64 1) = 1" by (rule f64.units_load) simp
  ultimately have "\<not> \<bar>rnd 64 (load 64 b - load 64 l)\<bar> \<le> load 64 1"
    using assms(4) round_even_mono [of "\<bar>rnd 64 (load 64 b - load 64 l)\<bar> * 10 ^ 8" "load 64 1 * 10 ^ 8"] by (auto simp: units_def)
  then show ?thesis by (simp add: reported_def)
qed

text \<open>
  Property C28. Reconciliation raises no false alarm: if every balance is the sum of its transactions
  it returns 0, whatever statements fail, and changes nothing. And it misses nothing of weight: when
  nothing fails, for amounts up to \<open>10 ^ 10\<close> USD, the number it returns is at least that of the wallets
  that are two units or more off, and at most that of the wallets that are off at all.
\<close>

theorem ReconcileWallets_sound:
  "(books_balance (db w) \<longrightarrow> fst (ReconcileWallets w) = Inr 0 \<and> db (snd (ReconcileWallets w)) = db w)
   \<and> (faults w = [] \<and> (\<forall>r \<in> set (wallets (db w)). \<bar>w_Balance r\<bar> \<le> 10 ^ 18 \<and> \<bar>ledger (db w) (w_ID r)\<bar> \<le> 10 ^ 18
        \<and> \<bar>w_Balance r - ledger (db w) (w_ID r)\<bar> \<le> 10 ^ 18) \<longrightarrow>
      (\<exists>n. ReconcileWallets w = (Inr n, w)
        \<and> int (length (filter (\<lambda>r. 2 \<le> \<bar>w_Balance r - ledger (db w) (w_ID r)\<bar>) (wallets (db w)))) \<le> n
        \<and> n \<le> int (length (filter (\<lambda>r. w_Balance r \<noteq> ledger (db w) (w_ID r)) (wallets (db w))))))"
proof (intro conjI impI)
  assume "books_balance (db w)"
  then have "fst (reconcile_loop 0 (map scan_wallet (wallets (db v))) v) = Inr 0 \<and> db (snd (reconcile_loop 0 (map scan_wallet (wallets (db v))) v)) = db v"
    if "db v = db w" for v using that by (intro reconcile_loop_clean) (simp add: books_balance_def)
  then show "fst (ReconcileWallets w) = Inr 0" "db (snd (ReconcileWallets w)) = db w"
    by (auto simp: ReconcileWallets_def bindE_def attempt_def sql_def get_db_def ret_def is_panic_def split: list.splits option.splits)
next
  let ?P = "\<lambda>r. reported (w_Balance r) (ledger (db w) (w_ID r))"
  assume a: "faults w = [] \<and> (\<forall>r \<in> set (wallets (db w)). \<bar>w_Balance r\<bar> \<le> 10 ^ 18 \<and> \<bar>ledger (db w) (w_ID r)\<bar> \<le> 10 ^ 18
        \<and> \<bar>w_Balance r - ledger (db w) (w_ID r)\<bar> \<le> 10 ^ 18)"
  have run: "ReconcileWallets w = (Inr (int (length (filter ?P (wallets (db w))))), w)"
    using a reconcile_loop_count [of w 0 "wallets (db w)"]
    by (simp add: ReconcileWallets_def bindE_def attempt_def get_db_def ret_def)
  have le: "length (filter P xs) \<le> length (filter Q xs)" if "\<And>x. x \<in> set xs \<Longrightarrow> P x \<Longrightarrow> Q x" for P Q :: "numeric wallet \<Rightarrow> bool" and xs
    using that by (induction xs) auto
  have "length (filter (\<lambda>r. 2 \<le> \<bar>w_Balance r - ledger (db w) (w_ID r)\<bar>) (wallets (db w))) \<le> length (filter ?P (wallets (db w)))"
    using a by (intro le reported_far) auto
  moreover have "length (filter ?P (wallets (db w))) \<le> length (filter (\<lambda>r. w_Balance r \<noteq> ledger (db w) (w_ID r)) (wallets (db w)))"
    by (intro le) auto
  ultimately show "\<exists>n. ReconcileWallets w = (Inr n, w)
        \<and> int (length (filter (\<lambda>r. 2 \<le> \<bar>w_Balance r - ledger (db w) (w_ID r)\<bar>) (wallets (db w)))) \<le> n
        \<and> n \<le> int (length (filter (\<lambda>r. w_Balance r \<noteq> ledger (db w) (w_ID r)) (wallets (db w))))" using run by auto
qed

theorem ReconcileWallets_sound_witness: "fst (ReconcileWallets (ex_world\<lparr>faults := [None, Some ''lost'']\<rparr>)) = Inr 0"
proof -
  have "books_balance (db (ex_world\<lparr>faults := [None, Some ''lost'']\<rparr>))"
    by (simp add: books_balance_def ledger_def signed_amount_def ex_defs)
  with ReconcileWallets_sound [of "ex_world\<lparr>faults := [None, Some ''lost'']\<rparr>"] show ?thesis by blast
qed

end
