(* ===== verification/Book.thy ===== *)
theory Book
  imports Cron
begin

text \<open>
  The order book as it is meant to be, and that the program implements it. The abstract book is a map
  of orders and a list of fills with three transitions: an order is placed, open orders are withdrawn,
  two open orders of different users whose prices cross trade as much as both have left
  (\<open>book_step\<close>). What follows for every such book is proved once (\<open>book_ok\<close>). The refinement: the
  tables \<^verbatim>\<open>orders\<close> and \<^verbatim>\<open>trades\<close> are a book (\<open>book_of\<close>), and placing, cancelling, expiring and a turn of
  the engine's loop are transitions of it, whatever statements fail.
\<close>

section \<open>The abstract book\<close>

datatype phase = Open | Filled | Cancelled

record entry =
  e_User :: int
  e_Asset :: int
  e_Buys :: bool
  e_Price :: numeric
  e_Quantity :: numeric
  e_Filled :: numeric
  e_Phase :: phase

record fill =
  f_Buy :: int
  f_Sell :: int
  f_Quantity :: numeric
  f_Price :: numeric

record book =
  entries :: "int \<rightharpoonup> entry"
  fills :: "fill list"

definition left :: "entry \<Rightarrow> numeric" where
  "left e = e_Quantity e - e_Filled e"

text \<open>
  An order that takes \<open>n\<close> may be closed only when nothing is left of it. (That it is closed then is
  not promised: \<open>EngineLoop\<close> shows an order for which it is not.)
\<close>

definition takes :: "numeric \<Rightarrow> entry \<Rightarrow> entry \<Rightarrow> bool" where
  "takes n e e' \<longleftrightarrow> (\<exists>p. e' = e\<lparr>e_Filled := e_Filled e + n, e_Phase := p\<rparr> \<and> (p = Open \<or> p = Filled \<and> left e = n))"

definition tradable :: "entry \<Rightarrow> entry \<Rightarrow> bool" where
  "tradable b s \<longleftrightarrow> e_Buys b \<and> \<not> e_Buys s \<and> e_Phase b = Open \<and> e_Phase s = Open \<and> e_User b \<noteq> e_User s
     \<and> e_Asset b = e_Asset s \<and> e_Price s \<le> e_Price b"

inductive book_step :: "book \<Rightarrow> book \<Rightarrow> bool" where
  place: "entries B i = None \<Longrightarrow> 0 < e_Price e \<Longrightarrow> 0 < e_Quantity e \<Longrightarrow> e_Filled e = 0 \<Longrightarrow> e_Phase e = Open \<Longrightarrow>
    book_step B (B\<lparr>entries := (entries B)(i \<mapsto> e)\<rparr>)"
| withdraw: "(\<And>i. i \<in> S \<Longrightarrow> \<exists>e. entries B i = Some e \<and> e_Phase e = Open) \<Longrightarrow>
    book_step B (B\<lparr>entries := (\<lambda>i. if i \<in> S then map_option (e_Phase_update (\<lambda>_. Cancelled)) (entries B i) else entries B i)\<rparr>)"
| trade: "entries B i = Some b \<Longrightarrow> entries B j = Some s \<Longrightarrow> tradable b s \<Longrightarrow> n = min (left b) (left s) \<Longrightarrow> 0 < n \<Longrightarrow>
    c = e_Price b \<or> c = e_Price s \<Longrightarrow> takes n b b' \<Longrightarrow> takes n s s' \<Longrightarrow>
    book_step B (B\<lparr>entries := (entries B)(i \<mapsto> b', j \<mapsto> s'),
      fills := fills B @ [\<lparr>f_Buy = i, f_Sell = j, f_Quantity = n, f_Price = c\<rparr>]\<rparr>)"

definition filled_by :: "fill list \<Rightarrow> int \<Rightarrow> numeric" where
  "filled_by fs i = (\<Sum>f \<leftarrow> filter (\<lambda>f. f_Buy f = i \<or> f_Sell f = i) fs. f_Quantity f)"

definition entry_ok :: "fill list \<Rightarrow> int \<Rightarrow> entry \<Rightarrow> bool" where
  "entry_ok fs i e \<longleftrightarrow> 0 < e_Price e \<and> 0 < e_Quantity e \<and> e_Filled e = filled_by fs i \<and> 0 \<le> e_Filled e
     \<and> e_Filled e \<le> e_Quantity e \<and> (e_Phase e = Filled \<longrightarrow> e_Filled e = e_Quantity e)"

definition fill_ok :: "(int \<rightharpoonup> entry) \<Rightarrow> fill \<Rightarrow> bool" where
  "fill_ok m f \<longleftrightarrow> 0 < f_Quantity f \<and> (\<exists>b s. m (f_Buy f) = Some b \<and> m (f_Sell f) = Some s \<and> e_Buys b \<and> \<not> e_Buys s
     \<and> e_User b \<noteq> e_User s \<and> e_Asset b = e_Asset s \<and> e_Price s \<le> f_Price f \<and> f_Price f \<le> e_Price b)"

definition book_ok :: "book \<Rightarrow> bool" where
  "book_ok B \<longleftrightarrow> (\<forall>i e. entries B i = Some e \<longrightarrow> entry_ok (fills B) i e) \<and> (\<forall>f \<in> set (fills B). fill_ok (entries B) f)"

section \<open>Every book\<close>

lemma filled_by_append [simp]:
  "filled_by (fs @ [f]) i = filled_by fs i + (if f_Buy f = i \<or> f_Sell f = i then f_Quantity f else 0)"
  by (simp add: filled_by_def)

text \<open>Nothing fixed of an order ever changes.\<close>

definition same_order :: "entry \<Rightarrow> entry \<Rightarrow> bool" where
  "same_order e e' \<longleftrightarrow> e_User e' = e_User e \<and> e_Asset e' = e_Asset e \<and> e_Buys e' = e_Buys e \<and> e_Price e' = e_Price e
     \<and> e_Quantity e' = e_Quantity e \<and> e_Filled e \<le> e_Filled e' \<and> (e_Phase e \<noteq> Open \<longrightarrow> e' = e)"

lemma same_order_refl [simp]: "same_order e e"
  by (simp add: same_order_def)

lemma same_order_trans: "same_order e e' \<Longrightarrow> same_order e' e'' \<Longrightarrow> same_order e e''"
  by (auto simp: same_order_def)

lemma takes_same: "takes n e e' \<Longrightarrow> 0 < n \<Longrightarrow> e_Phase e = Open \<Longrightarrow> same_order e e'"
  by (auto simp: takes_def same_order_def)

lemma book_step_keeps_orders:
  assumes "book_step B B'" and "entries B i = Some e"
  shows "\<exists>e'. entries B' i = Some e' \<and> same_order e e'"
  using assms
proof (cases rule: book_step.cases)
  case (withdraw S)
  then show ?thesis using assms(2) by (force simp: same_order_def)
next
  case (trade j b k s n c b' s')
  then show ?thesis using assms(2) takes_same by (auto simp: tradable_def)
qed auto

lemma book_step_fills: "book_step B B' \<Longrightarrow> \<exists>fs. fills B' = fills B @ fs"
  by (cases rule: book_step.cases) auto

lemma fill_ok_mono:
  assumes "book_step B B'" and "fill_ok (entries B) f"
  shows "fill_ok (entries B') f"
proof -
  from assms(2) obtain b s where e: "entries B (f_Buy f) = Some b" "entries B (f_Sell f) = Some s" and
    o: "0 < f_Quantity f" "e_Buys b" "\<not> e_Buys s" "e_User b \<noteq> e_User s" "e_Asset b = e_Asset s" "e_Price s \<le> f_Price f" "f_Price f \<le> e_Price b"
    by (auto simp: fill_ok_def)
  from book_step_keeps_orders [OF assms(1) e(1)] book_step_keeps_orders [OF assms(1) e(2)] obtain b' s' where
    "entries B' (f_Buy f) = Some b'" "same_order b b'" "entries B' (f_Sell f) = Some s'" "same_order s s'" by auto
  then show ?thesis using o by (auto simp: fill_ok_def same_order_def)
qed

lemma takes_entry_ok:
  assumes "entry_ok fs i e" and "takes n e e'" and "0 < n" and "n \<le> left e" and "f_Quantity f = n" and "f_Buy f = i \<or> f_Sell f = i"
  shows "entry_ok (fs @ [f]) i e'"
  using assms by (auto simp: entry_ok_def takes_def left_def)

lemma book_step_ok:
  assumes "book_step B B'" and "book_ok B"
  shows "book_ok B'"
  using assms(1)
proof (cases rule: book_step.cases)
  case (place i e)
  have "f_Buy f \<noteq> i \<and> f_Sell f \<noteq> i" if "f \<in> set (fills B)" for f
    using that assms(2) place(2) by (auto simp: book_ok_def fill_ok_def)
  then have "filled_by (fills B) i = 0" by (simp add: filled_by_def filter_False)
  then have "entry_ok (fills B) i e" using place by (simp add: entry_ok_def)
  then have "\<forall>k x. entries B' k = Some x \<longrightarrow> entry_ok (fills B') k x" using assms(2) place(1) by (simp add: book_ok_def)
  moreover have "\<forall>f \<in> set (fills B'). fill_ok (entries B') f"
    using fill_ok_mono [OF assms(1)] assms(2) place(1) by (auto simp: book_ok_def)
  ultimately show ?thesis by (simp add: book_ok_def)
next
  case (withdraw S)
  have "entry_ok (fills B) k (x\<lparr>e_Phase := Cancelled\<rparr>)" if "entry_ok (fills B) k x" for k x
    using that by (simp add: entry_ok_def)
  then have "\<forall>k x. entries B' k = Some x \<longrightarrow> entry_ok (fills B') k x"
    using assms(2) withdraw(1) by (auto simp: book_ok_def)
  moreover have "\<forall>f \<in> set (fills B'). fill_ok (entries B') f"
    using fill_ok_mono [OF assms(1)] assms(2) withdraw(1) by (auto simp: book_ok_def)
  ultimately show ?thesis by (simp add: book_ok_def)
next
  case (trade i b j s n c b' s')
  have ij: "i \<noteq> j" using trade(2-4) by (auto simp: tradable_def)
  let ?f = "\<lparr>f_Buy = i, f_Sell = j, f_Quantity = n, f_Price = c\<rparr>"
  have ok: "entry_ok (fills B) i b" "entry_ok (fills B) j s" using assms(2) trade(2,3) by (auto simp: book_ok_def)
  have "entry_ok (fills B @ [?f]) i b'" "entry_ok (fills B @ [?f]) j s'"
    using takes_entry_ok [OF ok(1) trade(8) trade(6), of ?f] takes_entry_ok [OF ok(2) trade(9) trade(6), of ?f] trade(5) by auto
  moreover have "entry_ok (fills B @ [?f]) k x" if "entries B k = Some x" "k \<noteq> i" "k \<noteq> j" for k x
  proof -
    have "entry_ok (fills B) k x" using that assms(2) by (simp add: book_ok_def)
    then show ?thesis using that(2,3) by (auto simp: entry_ok_def)
  qed
  ultimately have "\<forall>k x. entries B' k = Some x \<longrightarrow> entry_ok (fills B') k x" using trade(1) by auto
  moreover have "fill_ok (entries B') ?f"
    using trade ij by (auto simp: fill_ok_def tradable_def takes_def)
  then have "\<forall>f \<in> set (fills B'). fill_ok (entries B') f"
    using fill_ok_mono [OF assms(1)] assms(2) trade(1) by (auto simp: book_ok_def)
  ultimately show ?thesis by (simp add: book_ok_def)
qed

lemma book_steps_ok: "book_step\<^sup>*\<^sup>* B B' \<Longrightarrow> book_ok B \<Longrightarrow> book_ok B'"
  by (induction rule: rtranclp_induct) (auto intro: book_step_ok)

section \<open>The tables as a book\<close>

definition phase_of :: "string \<Rightarrow> phase" where
  "phase_of st = (if st = OrderStatusFilled then Filled else if st = OrderStatusCancelled then Cancelled else Open)"

definition entry_of :: "numeric order \<Rightarrow> entry" where
  "entry_of r = \<lparr>e_User = o_UserID r, e_Asset = o_AssetID r, e_Buys = (o_Side r = OrderSideBuy), e_Price = o_Price r,
     e_Quantity = o_Quantity r, e_Filled = o_FilledQuantity r, e_Phase = phase_of (o_Status r)\<rparr>"

definition fill_of :: "numeric trade \<Rightarrow> fill" where
  "fill_of t = \<lparr>f_Buy = t_BuyOrderID t, f_Sell = t_SellOrderID t, f_Quantity = t_Quantity t, f_Price = t_Price t\<rparr>"

definition book_of :: "tables \<Rightarrow> book" where
  "book_of d = \<lparr>entries = (\<lambda>i. map_option entry_of (find (\<lambda>r. o_ID r = i) (orders d))), fills = map fill_of (trades d)\<rparr>"

lemma entry_of_simps [simp]:
  "e_User (entry_of r) = o_UserID r" "e_Asset (entry_of r) = o_AssetID r" "e_Buys (entry_of r) = (o_Side r = OrderSideBuy)"
  "e_Price (entry_of r) = o_Price r" "e_Quantity (entry_of r) = o_Quantity r" "e_Filled (entry_of r) = o_FilledQuantity r"
  "e_Phase (entry_of r) = phase_of (o_Status r)"
  by (simp_all add: entry_of_def)

lemma book_of_cong: "orders d' = orders d \<Longrightarrow> trades d' = trades d \<Longrightarrow> book_of d' = book_of d"
  by (simp add: book_of_def)

lemma order_open_phase: "order_open r \<Longrightarrow> phase_of (o_Status r) = Open"
  by (auto simp: order_open_def phase_of_def const_defs)

lemma find_order: "schema_ok d s \<Longrightarrow> r \<in> set (orders d) \<Longrightarrow> find (\<lambda>x. o_ID x = o_ID r) (orders d) = Some r"
  by (auto simp: schema_ok_def orders_ok_def intro!: find_key)

text \<open>Cancelling the open orders that satisfy a condition.\<close>

lemma cancel_step:
  assumes "schema_ok d s" and "\<And>r. r \<in> set (orders d) \<Longrightarrow> P r \<Longrightarrow> order_open r"
  shows "book_step (book_of d) (book_of (d\<lparr>orders := upd_where P (\<lambda>r. r\<lparr>o_Status := OrderStatusCancelled, o_UpdatedAt := t\<rparr>) (orders d)\<rparr>))"
proof -
  define S where "S = {i. \<exists>r. find (\<lambda>r. o_ID r = i) (orders d) = Some r \<and> P r}"
  let ?d = "d\<lparr>orders := upd_where P (\<lambda>r. r\<lparr>o_Status := OrderStatusCancelled, o_UpdatedAt := t\<rparr>) (orders d)\<rparr>"
  have "entries (book_of ?d) i = (if i \<in> S then map_option (e_Phase_update (\<lambda>_. Cancelled)) (entries (book_of d) i) else entries (book_of d) i)" for i
    by (cases "find (\<lambda>r. o_ID r = i) (orders d)") (auto simp: S_def book_of_def find_upd_where entry_of_def phase_of_def const_defs)
  then have "book_of ?d = (book_of d)\<lparr>entries := (\<lambda>i. if i \<in> S then map_option (e_Phase_update (\<lambda>_. Cancelled)) (entries (book_of d) i)
      else entries (book_of d) i)\<rparr>"
    by (intro book.equality) (auto simp: book_of_def)
  moreover have "\<exists>e. entries (book_of d) i = Some e \<and> e_Phase e = Open" if "i \<in> S" for i
    using that assms(2) find_SomeD order_open_phase by (fastforce simp: S_def book_of_def)
  ultimately show ?thesis using book_step.withdraw [of S "book_of d"] by simp
qed

text \<open>Appending a new row.\<close>

lemma place_step:
  assumes "schema_ok d s" and "s ''orders'' \<le> o_ID r" and "0 < o_Price r" and "0 < o_Quantity r" and "o_FilledQuantity r = 0"
    and "o_Status r = OrderStatusPending"
  shows "book_step (book_of d) (book_of (d\<lparr>orders := orders d @ [r]\<rparr>))"
proof -
  have "o_ID x < s ''orders''" if "x \<in> set (orders d)" for x using that assms(1) by (auto simp: schema_ok_def orders_ok_def)
  then have n: "find (\<lambda>x. o_ID x = o_ID r) (orders d) = None" using assms(2) by (force simp: find_None_iff_set)
  have f: "find P (xs @ [r]) = (case find P xs of None \<Rightarrow> if P r then Some r else None | Some x \<Rightarrow> Some x)" for P and xs :: "numeric order list"
    by (induction xs) auto
  have "book_of (d\<lparr>orders := orders d @ [r]\<rparr>) = (book_of d)\<lparr>entries := (entries (book_of d))(o_ID r \<mapsto> entry_of r)\<rparr>"
    using n by (auto simp: book_of_def f fun_eq_iff split: option.split)
  moreover have "book_step (book_of d) ((book_of d)\<lparr>entries := (entries (book_of d))(o_ID r \<mapsto> entry_of r)\<rparr>)"
    using assms(3-6) n by (intro place) (simp_all add: book_of_def phase_of_def const_defs)
  ultimately show ?thesis by simp
qed

text \<open>A trade, as the engine executes it.\<close>

lemma takes_filled_row:
  assumes "order_row_ok r" and "0 \<le> o_FilledQuantity r" and "0 < n" and "o_FilledQuantity r + n \<le> o_Quantity r"
  shows "takes n (entry_of r) (entry_of (filled_row n t r))"
proof -
  let ?st = "status_after (o_FilledQuantity r) n (o_Quantity r)"
  have "o_Quantity r \<le> o_FilledQuantity r + n" if "?st = OrderStatusFilled"
    using assms that by (intro status_after_sound) (auto simp: order_row_ok_def numeric_fits_def)
  then have "phase_of ?st = Open \<or> phase_of ?st = Filled \<and> left (entry_of r) = n"
    using status_after_cases [of "o_FilledQuantity r" n "o_Quantity r"] assms(4) by (auto simp: phase_of_def left_def const_defs)
  then show ?thesis by (auto simp: takes_def filled_row_def entry_of_def)
qed

lemma trade_step:
  assumes ok: "schema_ok (db w) (seqs w)" and m: "matching (db w) b s n c" and sides: "o_Side b = OrderSideBuy" "o_Side s \<noteq> OrderSideBuy"
    and c: "c = o_Price b \<or> c = o_Price s"
    and os: "orders d' = orders (db (orders_filled b s n c w))" and ts: "trades d' = trades (db w) @ [trade_row b s n c w]"
  shows "book_step (book_of (db w)) (book_of d')"
proof -
  note ma = matching_amounts [OF ok m]
  have mm: "b \<in> set (orders (db w))" "s \<in> set (orders (db w))" "o_ID b \<noteq> o_ID s" "0 \<le> o_FilledQuantity b" "0 \<le> o_FilledQuantity s"
    using m by (auto simp: matching_def)
  have row: "order_row_ok b" "order_row_ok s" using ok mm by (auto simp: schema_ok_def orders_ok_def)
  let ?f = "\<lambda>r. if r = b \<or> r = s then filled_row n (now w) r else r"
  have id: "o_ID (?f r) = o_ID r" for r by (simp add: filled_row_def)
  have fm: "find (\<lambda>x. o_ID x = i) (map ?f xs) = map_option ?f (find (\<lambda>x. o_ID x = i) xs)" for i xs
    by (induction xs) (auto simp: filled_row_def)
  have other: "find (\<lambda>x. o_ID x = i) (orders (db w)) = Some r \<Longrightarrow> i \<noteq> o_ID b \<Longrightarrow> i \<noteq> o_ID s \<Longrightarrow> r \<noteq> b \<and> r \<noteq> s" for i r
    by (auto dest: find_SomeD)
  have "entries (book_of d') i = ((entries (book_of (db w)))(o_ID b \<mapsto> entry_of (filled_row n (now w) b), o_ID s \<mapsto> entry_of (filled_row n (now w) s))) i" for i
    using ma(15,16) mm(3) other [of i]
    by (cases "find (\<lambda>x. o_ID x = i) (orders (db w))") (auto simp: book_of_def os orders_filled_rows [OF ok m] fm)
  then have "book_of d' = (book_of (db w))\<lparr>entries := (entries (book_of (db w)))(o_ID b \<mapsto> entry_of (filled_row n (now w) b), o_ID s \<mapsto> entry_of (filled_row n (now w) s)),
      fills := fills (book_of (db w)) @ [\<lparr>f_Buy = o_ID b, f_Sell = o_ID s, f_Quantity = n, f_Price = c\<rparr>]\<rparr>"
    by (intro book.equality) (auto simp: book_of_def ts fill_of_def trade_row_def)
  moreover have "takes n (entry_of b) (entry_of (filled_row n (now w) b))" "takes n (entry_of s) (entry_of (filled_row n (now w) s))"
    using takes_filled_row row mm(4,5) ma(2-4) by blast+
  moreover have "tradable (entry_of b) (entry_of s)" using m sides by (auto simp: tradable_def matching_def order_open_phase)
  moreover have "n = min (left (entry_of b)) (left (entry_of s))" using m row by (simp add: matching_def left_def order_row_ok_def)
  moreover have "entries (book_of (db w)) (o_ID b) = Some (entry_of b)" "entries (book_of (db w)) (o_ID s) = Some (entry_of s)"
    using ma(15,16) by (simp_all add: book_of_def)
  moreover have "c = e_Price (entry_of b) \<or> c = e_Price (entry_of s)" using c by simp
  ultimately show ?thesis using book_step.trade [of "book_of (db w)" "o_ID b" "entry_of b" "o_ID s" "entry_of s" n c] ma(2) by simp
qed

section \<open>The program's book\<close>

text \<open>
  The tables satisfy the schema, their orders buy or sell (the binding of the request checks that, the
  table does not) and they are a book that the transitions lead to from \<open>B\<close>.
\<close>

definition side_ok :: "string \<Rightarrow> bool" where
  "side_ok sd \<longleftrightarrow> sd = OrderSideBuy \<or> sd = OrderSideSell"

definition sides_ok :: "tables \<Rightarrow> bool" where
  "sides_ok d \<longleftrightarrow> (\<forall>r \<in> set (orders d). side_ok (o_Side r))"

definition book_from :: "book \<Rightarrow> tables \<Rightarrow> (string \<Rightarrow> int) \<Rightarrow> bool" where
  "book_from B d s \<longleftrightarrow> schema_ok d s \<and> sides_ok d \<and> book_ok B \<and> book_step\<^sup>*\<^sup>* B (book_of d)"

lemma book_from_step:
  "book_from B d s \<Longrightarrow> schema_ok d' s' \<Longrightarrow> sides_ok d' \<Longrightarrow> book_step (book_of d) (book_of d') \<Longrightarrow> book_from B d' s'"
  by (auto simp: book_from_def)

lemma book_from_same: "book_from B d s \<Longrightarrow> schema_ok d' s' \<Longrightarrow> orders d' = orders d \<Longrightarrow> trades d' = trades d \<Longrightarrow> book_from B d' s'"
  using book_of_cong [of d' d] by (simp add: book_from_def sides_ok_def)

lemma book_from_ok: "book_from B d s \<Longrightarrow> schema_ok d s \<and> book_ok (book_of d)"
  by (auto simp: book_from_def book_steps_ok)

interpretation book: table_inv "book_from B" for B
  by unfold_locales (auto simp: book_from_def intro: schema.mono)

text \<open>A computation that keeps the schema and leaves orders and trades alone keeps the book.\<close>

lemma book_from_frame:
  assumes "preserves schema_ok m" and "\<And>os ts. preserves (\<lambda>d s. orders d = os \<and> trades d = ts) m"
  shows "preserves (book_from B) m"
  unfolding preserves_def
proof (intro allI impI)
  fix w r w' assume run: "m w = (r, w')"
  have "orders (db w') = orders (db w) \<and> trades (db w') = trades (db w)"
    using preservesD [OF assms(2) run, of "orders (db w)" "trades (db w)"] by simp
  then show "seqs_le (seqs w) (seqs w') \<and> (book_from B (db w) (seqs w) \<longrightarrow> book_from B (db w') (seqs w'))"
    using preserves_seqs [OF assms(1) run] preservesD [OF assms(1) run] book_of_cong [of "db w'" "db w"] by (simp add: book_from_def sides_ok_def)
qed

lemma order_Create_book:
  assumes "o_Status o1 = OrderStatusPending" and "side_ok (o_Side o1)"
  shows "preserves (book_from B) (order_Create o1)"
  unfolding preserves_def
proof (intro allI impI)
  fix w r w' assume run: "order_Create o1 w = (r, w')"
  have s: "seqs_le (seqs w) (seqs w')" "schema_ok (db w) (seqs w) \<Longrightarrow> schema_ok (db w') (seqs w')"
    using order_Create_preserves run by (auto simp: preserves_def)
  have "db w' = db w \<or> (\<exists>x. db w' = (db w)\<lparr>orders := orders (db w) @ [x]\<rparr> \<and> o_ID x = seqs w ''orders'' \<and> 0 < o_Price x \<and> 0 < o_Quantity x
      \<and> o_FilledQuantity x = 0 \<and> o_Status x = OrderStatusPending \<and> o_Side x = o_Side o1)"
    using run assms
    by (auto simp: order_Create_def mapE_def sql_def to_numeric_def bindE_def nextval_def get_db_def time_now_def put_db_def ret_def raise_def Let_def
        split: list.splits option.splits if_splits prod.splits sum.splits)
  then show "seqs_le (seqs w) (seqs w') \<and> (book_from B (db w) (seqs w) \<longrightarrow> book_from B (db w') (seqs w'))"
  proof (elim disjE exE conjE)
    fix x assume x: "db w' = (db w)\<lparr>orders := orders (db w) @ [x]\<rparr>" "o_ID x = seqs w ''orders''" "0 < o_Price x" "0 < o_Quantity x"
      "o_FilledQuantity x = 0" "o_Status x = OrderStatusPending" "o_Side x = o_Side o1"
    have "book_step (book_of (db w)) (book_of (db w'))" if "schema_ok (db w) (seqs w)"
      unfolding x(1) using place_step [OF that _ x(3-6)] x(2) by simp
    moreover have "sides_ok (db w')" if "sides_ok (db w)" using that x(1,7) assms(2) by (auto simp: sides_ok_def)
    ultimately show ?thesis using s by (auto intro: book_from_step simp: book_from_def)
  qed (use s in \<open>auto simp: book_from_def\<close>)
qed

lemma order_runTx_book: "preserves (book_from B) fn \<Longrightarrow> preserves (book_from B) (order_runTx fn)"
  unfolding order_runTx_def by (rule book.preserves_runner) (auto dest: Commit_frame)

lemma PlaceOrder_validate_order:
  "PlaceOrder_validate u inp w = (Inr o1, w') \<Longrightarrow> o_Status o1 = OrderStatusPending \<and> o_Side o1 = pi_Side inp"
  by (auto simp: PlaceOrder_validate_def bindE_Inr ret_def raise_def split: option.splits)

lemma PlaceOrder_book:
  assumes "side_ok (pi_Side inp)"
  shows "preserves (book_from B) (PlaceOrder u inp)"
proof -
  let ?v = "PlaceOrder_validate u inp"
  have v: "preserves (book_from B) ?v"
    unfolding PlaceOrder_validate_def by (intro preserves_rules order_checks_preserve asset_GetByID_preserves)
  have i: "preserves (book_from B) (PlaceOrder_insert u inp o1)" if "o_Status o1 = OrderStatusPending" "side_ok (o_Side o1)" for o1
    unfolding PlaceOrder_insert_def
    by (intro preserves_rules order_reads_preserve order_checks_preserve order_runTx_book order_Create_book that)
  have e: "PlaceOrder_new u inp = bindE ?v (\<lambda>o1. if o_Status o1 = OrderStatusPending \<and> side_ok (o_Side o1) then PlaceOrder_insert u inp o1 else ret o1)"
    using PlaceOrder_validate_order assms
    by (auto simp: PlaceOrder_new_def bindE_def fun_eq_iff split: prod.splits sum.splits)
  have n: "preserves (book_from B) (PlaceOrder_new u inp)" unfolding e by (intro preserves_bindE [OF v]) (auto intro: i)
  show ?thesis unfolding PlaceOrder_def by (intro preserves_rules order_reads_preserve n)
qed

lemma cancel_book:
  assumes "book_from B d s" and "schema_ok (d\<lparr>orders := upd_where P (\<lambda>r. r\<lparr>o_Status := OrderStatusCancelled, o_UpdatedAt := t\<rparr>) (orders d)\<rparr>) s"
    and "\<And>r. r \<in> set (orders d) \<Longrightarrow> P r \<Longrightarrow> order_open r"
  shows "book_from B (d\<lparr>orders := upd_where P (\<lambda>r. r\<lparr>o_Status := OrderStatusCancelled, o_UpdatedAt := t\<rparr>) (orders d)\<rparr>) s"
proof (rule book_from_step [OF assms(1,2)])
  show "sides_ok (d\<lparr>orders := upd_where P (\<lambda>r. r\<lparr>o_Status := OrderStatusCancelled, o_UpdatedAt := t\<rparr>) (orders d)\<rparr>)"
    using assms(1) by (auto simp: book_from_def sides_ok_def set_upd_where)
qed (use assms(1,3) cancel_step in \<open>auto simp: book_from_def\<close>)

lemma CancelOrder_tx_cases:
  assumes "CancelOrder_tx u i w = (r, w')"
  shows "seqs w' = seqs w \<and> (db w' = db w \<or> (\<exists>x t. find (\<lambda>r. o_ID r = i) (orders (db w)) = Some x \<and> order_open x
    \<and> db w' = set_status i OrderStatusCancelled t (db w)))"
  using assms
  by (auto simp: CancelOrder_tx_def GetByIDForUpdate_def UpdateStatus_def bindE_def mapE_def wrapE_def check_def sql_def get_db_def time_now_def
      put_db_def ret_def raise_def order_open_def split: list.splits option.splits if_splits)

lemma CancelOrder_book: "preserves (book_from B) (CancelOrder u i)"
proof -
  have "preserves (book_from B) (CancelOrder_tx u i)"
    unfolding preserves_def
  proof (intro allI impI)
    fix w r w' assume run: "CancelOrder_tx u i w = (r, w')"
    have "book_from B (db w') (seqs w')" if b: "book_from B (db w) (seqs w)"
      using CancelOrder_tx_cases [OF run]
    proof (elim conjE disjE exE)
      fix x t assume s: "seqs w' = seqs w" and x: "find (\<lambda>r. o_ID r = i) (orders (db w)) = Some x" "order_open x"
        and d: "db w' = set_status i OrderStatusCancelled t (db w)"
      have ok: "schema_ok (db w) (seqs w)" using b by (simp add: book_from_def)
      have o: "order_open r" if "r \<in> set (orders (db w))" "o_ID r = i" for r
        using that x order_by_id [OF ok, of x r] find_SomeD [OF x(1)] by simp
      show ?thesis unfolding d s set_status_def
        by (rule cancel_book [OF b set_status_ok [OF ok, unfolded set_status_def] o])
    qed (use b in simp)
    then show "seqs_le (seqs w) (seqs w') \<and> (book_from B (db w) (seqs w) \<longrightarrow> book_from B (db w') (seqs w'))"
      using CancelOrder_tx_cases [OF run] by auto
  qed
  then show ?thesis unfolding CancelOrder_def by (intro preserves_rules order_runTx_book order_checks_preserve)
qed

lemma ExpireStaleOrders_book: "preserves (book_from B) ExpireStaleOrders"
  unfolding preserves_def
proof (intro allI impI)
  fix w r w' assume run: "ExpireStaleOrders w = (r, w')"
  have e: "book_from B (expire t d) s" if "book_from B d s" for d s t
    using that cancel_book [OF that, of "stale t" t] expire_ok [of d s t] unfolding expire_def book_from_def
    by (auto simp: stale_open)
  from ExpireStaleOrders_cases [OF run]
  show "seqs_le (seqs w) (seqs w') \<and> (book_from B (db w) (seqs w) \<longrightarrow> book_from B (db w') (seqs w'))" by (auto intro: e)
qed

section \<open>The engine's turns\<close>

lemma executeTrade_step:
  assumes b: "book_from B (db w) (seqs w)" and p: "pair_ok (db w) (buyer_of i k) (seller_of i k)" and k: "k \<in> set (orders (db w))"
    and sides: "o_Side (buyer_of i k) = OrderSideBuy" "o_Side (seller_of i k) \<noteq> OrderSideBuy"
    and run: "executeTrade (scan_order i) (scan_order k) w = (x, w')"
  shows "db w' = db w \<or> book_step (book_of (db w)) (book_of (db w')) \<and> sides_ok (db w')"
proof -
  let ?body = "executeTrade_tx (scan_order (buyer_of i k)) (scan_order (seller_of i k)) (numeric_out (o_Price k))"
  let ?v = "w\<lparr>faults := []\<rparr>"
  have ok: "schema_ok (db w) (seqs w)" using b by (simp add: book_from_def)
  obtain y w1 where t: "trade_transaction ?body w = (y, w1)" by fastforce
  have d: "db w' = db w1"
    using run t unfolding executeTrade_unfold
    by (cases x) (auto simp: bindE_Inr bindE_Inl ret_def split: option.splits dest!: publish_db)
  from trade_transaction_cases [OF t] show ?thesis
  proof (elim disjE exE conjE)
    fix st fs fs' w2 assume run2: "?body (w\<lparr>faults := fs\<rparr>) = (Inr (Some st), w2)" and w1: "w1 = w2\<lparr>faults := fs'\<rparr>"
    from obliviousD [OF executeTrade_tx_rules(2) run2] have "?body ?v = (Inr (Some st), w2\<lparr>faults := []\<rparr>)" by simp
    from executeTrade_tx_book [OF _ _ _ _ _ this] ok p k obtain n where
      m: "matching (db ?v) (buyer_of i k) (seller_of i k) n (o_Price k)"
      and os: "orders (db w2) = orders (db (orders_filled (buyer_of i k) (seller_of i k) n (o_Price k) ?v))"
      and ts: "trades (db w2) = trades (db ?v) @ [trade_row (buyer_of i k) (seller_of i k) n (o_Price k) ?v]"
      by (auto simp: schema_ok_def orders_ok_def order_row_ok_def)
    have "book_step (book_of (db ?v)) (book_of (db w2))"
      by (rule trade_step [OF _ m sides _ os ts]) (use ok in \<open>auto simp: buyer_of_def seller_of_def\<close>)
    moreover have "sides_ok (db w2)"
      using b os orders_filled_rows [OF _ m] ok by (auto simp: book_from_def sides_ok_def filled_row_def)
    ultimately show ?thesis using d w1 by simp
  qed (use d in simp)
qed

lemma reads_db: "(\<And>J. preserves J m) \<Longrightarrow> m w = (r, w') \<Longrightarrow> db w' = db w"
  using preservesD [of "\<lambda>d s. d = db w" m w r w'] by blast

lemma book_entry: "schema_ok d s \<Longrightarrow> book_ok (book_of d) \<Longrightarrow> r \<in> set (orders d) \<Longrightarrow> entry_ok (fills (book_of d)) (o_ID r) (entry_of r)"
  using find_order [of d s r] by (auto simp: book_ok_def book_of_def)

text \<open>A turn of the loop changes nothing, or it is the trade with the candidate it found.\<close>

lemma process_step_shape:
  assumes "process_step i w = (x, w')"
  shows "db w' = db w \<or> (\<exists>c w1 k w2 m w3. order_GetByID (o_ID i) w = (Inr c, w1)
    \<and> findBestCandidate (o_AssetID i) (opposite (o_Side i)) c w1 = (Inr (Some k), w2) \<and> executeTrade c k w2 = (m, w3) \<and> db w' = db w3)"
proof -
  note reads = reads_db [OF order_reads_preserve(1)] reads_db [OF findBestCandidate_rules(1)]
  have b: "db v' = db v" if "big s v = (y, v')" for s v y v' using reads_db [OF big_rules(1) that] .
  obtain c1 w1 where g: "order_GetByID (o_ID i) w = (c1, w1)" by fastforce
  show ?thesis
  proof (cases c1)
    case (Inl e)
    with assms g reads(1) [OF g] show ?thesis by (auto simp: process_step_def bindE_def wrapE_def)
  next
    case (Inr c)
    obtain n v1 where n: "big (o_RemainingQuantity c) w1 = (n, v1)" by fastforce
    have v1: "v1 = w1" using n by (auto simp: big_def orPanic_def ret_def raise_def split: option.splits)
    obtain f w2 where f: "findBestCandidate (o_AssetID i) (opposite (o_Side i)) c w1 = (f, w2)" by fastforce
    show ?thesis
    proof (cases "\<exists>k. f = Inr (Some k)")
      case False
      with assms g Inr n v1 f reads(1) [OF g] reads(2) [OF f] show ?thesis
        by (auto simp: process_step_def bindE_def wrapE_def ret_def opposite_def split: sum.splits option.splits if_splits)
    next
      case True
      then obtain k where k: "f = Inr (Some k)" by blast
      obtain m w3 where m: "executeTrade c k w2 = (m, w3)" by fastforce
      have "db w' = db w \<or> db w' = db w3"
        using assms g Inr n v1 f k m reads(1) [OF g]
        by (auto simp: process_step_def bindE_def wrapE_def ret_def opposite_def split: sum.splits option.splits if_splits prod.splits
            dest: reads(1))
      then show ?thesis using g Inr f k m by blast
    qed
  qed
qed

lemma process_step_book:
  assumes b: "book_from B (db w) (seqs w)" and q: "queued (db w) i" and run: "process_step i w = (x, w')"
  shows "db w' = db w \<or> book_step (book_of (db w)) (book_of (db w')) \<and> sides_ok (db w')"
  using process_step_shape [OF run]
proof (elim disjE exE conjE)
  fix c w1 k' w2 m w3
  assume g: "order_GetByID (o_ID i) w = (Inr c, w1)" and f: "findBestCandidate (o_AssetID i) (opposite (o_Side i)) c w1 = (Inr (Some k'), w2)"
    and e: "executeTrade c k' w2 = (m, w3)" and d: "db w' = db w3"
  have ok: "schema_ok (db w) (seqs w)" and bo: "book_ok (book_of (db w))" and so: "sides_ok (db w)"
    using b book_from_ok [OF b] by (auto simp: book_from_def)
  obtain r where r: "r \<in> set (orders (db w))" "o_ID i = o_ID r" "o_Side i = o_Side r" "o_AssetID i = o_AssetID r"
    using q by (auto simp: queued_def)
  note reads = reads_db [OF order_reads_preserve(1) g] reads_db [OF findBestCandidate_rules(1) f]
  have b1: "book_from B (db w1) (seqs w1)" using preservesD [OF order_reads_preserve(1) [where I = "book_from B"] g] b .
  have b2: "book_from B (db w2) (seqs w2)" using preservesD [OF findBestCandidate_rules(1) [where I = "book_from B"] f] b1 .
  have c: "c = scan_order r"
    using obliviousD [OF order_repo_oblivious(2) g] order_GetByID_eval [of "w\<lparr>faults := []\<rparr>" "o_ID r"] find_order [OF ok r(1)]
    by (simp add: r(2))
  have "findBestCandidate (o_AssetID i) (opposite (o_Side i)) (scan_order r) (w1\<lparr>faults := []\<rparr>) = (Inr (Some k'), w2\<lparr>faults := []\<rparr>)"
    using obliviousD [OF findBestCandidate_rules(2) f] c by simp
  with findBestCandidate_eval [of "w1\<lparr>faults := []\<rparr>" r] b1 reads(1) r obtain k where k: "k' = scan_order k" "best (db w) r = Some k"
    by (auto simp: book_from_def best_def)
  note bk = best_Some [OF k(2)]
  have side: "o_Side k = opposite (o_Side r)"
    using find_SomeD [OF k(2) [unfolded best_def]] by (auto simp: set_open_orders)
  have pos: "0 \<le> o_FilledQuantity y" if "y \<in> set (orders (db w))" for y
    using book_entry [OF ok bo that] by (simp add: entry_ok_def)
  have "pair_ok (db w) (buyer_of r k) (seller_of r k)"
    using bk r(1) pos by (auto simp: pair_ok_def buyer_of_def seller_of_def)
  moreover have "o_Side (buyer_of r k) = OrderSideBuy" "o_Side (seller_of r k) \<noteq> OrderSideBuy"
    using side so r(1) by (auto simp: buyer_of_def seller_of_def opposite_def sides_ok_def side_ok_def const_defs split: if_splits)
  ultimately show ?thesis
    using executeTrade_step [OF b2, of r k m w3] e c k(1) bk d reads by simp
qed simp

lemma process_step_keeps_book:
  assumes b: "book_from B (db w) (seqs w)" and q: "queued (db w) i" and run: "process_step i w = (x, w')"
  shows "book_from B (db w') (seqs w')"
proof -
  have s: "schema_ok (db w') (seqs w')" using preservesD [OF process_step_rules(1) run] b by (simp add: book_from_def)
  from process_step_book [OF assms] show ?thesis
  proof
    assume "db w' = db w"
    then show ?thesis using b s book_from_same by auto
  next
    assume "book_step (book_of (db w)) (book_of (db w')) \<and> sides_ok (db w')"
    then show ?thesis using book_from_step [OF b s] by simp
  qed
qed

section \<open>What a book says of its rows\<close>

definition fills_of :: "tables \<Rightarrow> int \<Rightarrow> numeric" where
  "fills_of d i = (\<Sum>t \<leftarrow> filter (\<lambda>t. t_BuyOrderID t = i \<or> t_SellOrderID t = i) (trades d). t_Quantity t)"

lemma filled_by_trades: "filled_by (fills (book_of d)) i = fills_of d i"
proof -
  have "filled_by (map fill_of ts) i = (\<Sum>t \<leftarrow> filter (\<lambda>t. t_BuyOrderID t = i \<or> t_SellOrderID t = i) ts. t_Quantity t)" for ts
    by (induction ts) (simp_all add: filled_by_def fill_of_def)
  then show ?thesis by (simp add: book_of_def fills_of_def)
qed

lemma book_rows:
  assumes "schema_ok d s" and "book_ok (book_of d)" and "r \<in> set (orders d)"
  shows "o_FilledQuantity r = fills_of d (o_ID r) \<and> 0 \<le> o_FilledQuantity r \<and> o_FilledQuantity r \<le> o_Quantity r
    \<and> (o_Status r = OrderStatusFilled \<longrightarrow> o_FilledQuantity r = o_Quantity r)"
  using book_entry [OF assms] unfolding entry_ok_def entry_of_simps filled_by_trades by (auto simp: phase_of_def)

definition fair_trade :: "tables \<Rightarrow> numeric trade \<Rightarrow> bool" where
  "fair_trade d t \<longleftrightarrow> (\<exists>b \<in> set (orders d). \<exists>s \<in> set (orders d). t_BuyOrderID t = o_ID b \<and> t_SellOrderID t = o_ID s
     \<and> o_Side b = OrderSideBuy \<and> o_Side s = OrderSideSell \<and> o_UserID b \<noteq> o_UserID s \<and> o_AssetID b = o_AssetID s
     \<and> o_Price s \<le> t_Price t \<and> t_Price t \<le> o_Price b)"

lemma book_trades:
  assumes "sides_ok d" and "book_ok (book_of d)" and "t \<in> set (trades d)"
  shows "fair_trade d t"
proof -
  have "fill_ok (entries (book_of d)) (fill_of t)" using assms(2,3) by (auto simp: book_ok_def book_of_def)
  then obtain b s where bs: "find (\<lambda>r. o_ID r = t_BuyOrderID t) (orders d) = Some b" "find (\<lambda>r. o_ID r = t_SellOrderID t) (orders d) = Some s"
    and p: "o_Side b = OrderSideBuy" "o_Side s \<noteq> OrderSideBuy" "o_UserID b \<noteq> o_UserID s" "o_AssetID b = o_AssetID s"
      "o_Price s \<le> t_Price t" "t_Price t \<le> o_Price b"
    by (auto simp: fill_ok_def book_of_def fill_of_def)
  have "o_Side s = OrderSideSell" using assms(1) p(2) find_SomeD [OF bs(2)] by (auto simp: sides_ok_def side_ok_def)
  then show ?thesis unfolding fair_trade_def
    using p find_SomeD [OF bs(1)] find_SomeD [OF bs(2)] by (intro bexI [of _ b] bexI [of _ s]) auto
qed

end
