(* ===== verification/User.thy ===== *)
theory User
  imports Wallet
begin

text \<open>
  internal/user: the repository of the table \<^verbatim>\<open>users\<close> (user_repository.go), the service
  (user_service.go) and what they keep. A user with a \<^verbatim>\<open>deleted_at\<close> is not found by any query, but
  keeps the e-mail address it had: the unique constraint is on all rows.
\<close>

section \<open>Repository\<close>

definition live :: "user \<Rightarrow> bool" where
  "live u \<longleftrightarrow> u_DeletedAt u = None"

definition too_long :: "nat \<Rightarrow> error" where
  "too_long n = DBError (''pq: value too long for type character varying('' @ show_nat n @ '')'')"

definition CreateUser :: "user \<Rightarrow> user io" where
  "CreateUser u = wrapE ''create user'' (sql
     (bindE (nextval ''users'') (\<lambda>i.
      bindE get_db (\<lambda>d.
      bindE time_now (\<lambda>t.
        if char_length (u_Email u) > 255 \<or> char_length (u_PasswordHash u) > 255 then raise (too_long 255)
        else if char_length (u_Role u) > 50 then raise (too_long 50)
        else if list_ex (\<lambda>r. u_Email r = u_Email u) (users d) then raise (unique_violation ''users_email_key'')
        else let r = \<lparr>u_ID = i, u_Email = u_Email u, u_PasswordHash = u_PasswordHash u, u_Role = u_Role u,
               u_Status = UserStatusActive, u_CreatedAt = t, u_UpdatedAt = t, u_DeletedAt = None\<rparr>
          in bindE (put_db (d\<lparr>users := users d @ [r]\<rparr>)) (\<lambda>_. ret r))))))"

definition GetUserByEmail :: "string \<Rightarrow> user io" where
  "GetUserByEmail email =
     bindE (wrapE ''get user by email'' (sql (bindE get_db (\<lambda>d. ret (find (\<lambda>r. u_Email r = email \<and> live r) (users d))))))
       (\<lambda>r. case r of None \<Rightarrow> raise ErrUserNotFound | Some r \<Rightarrow> ret r)"

definition GetUserByID :: "int \<Rightarrow> user io" where
  "GetUserByID i =
     bindE (wrapE ''get user by id'' (sql (bindE get_db (\<lambda>d. ret (find (\<lambda>r. u_ID r = i \<and> live r) (users d))))))
       (\<lambda>r. case r of None \<Rightarrow> raise ErrUserNotFound | Some r \<Rightarrow> ret r)"

text \<open>The filter of the listing: an empty string filters nothing.\<close>

definition user_matches :: "string \<Rightarrow> string \<Rightarrow> user \<Rightarrow> bool" where
  "user_matches role status r \<longleftrightarrow> live r \<and> (role = [] \<or> u_Role r = role) \<and> (status = [] \<or> u_Status r = status)"

definition repo_ListUsers :: "string \<Rightarrow> string \<Rightarrow> int \<Rightarrow> int \<Rightarrow> user list io" where
  "repo_ListUsers role status lmt off = wrapE ''list users'' (sql
     (bindE get_db (\<lambda>d.
      limit_offset lmt off (sort_key (\<lambda>r. - u_CreatedAt r) (filter (user_matches role status) (users d))))))"

definition CountUsers :: "string \<Rightarrow> string \<Rightarrow> int io" where
  "CountUsers role status = wrapE ''count users'' (sql
     (bindE get_db (\<lambda>d. ret (int (length (filter (user_matches role status) (users d)))))))"

definition set_user_status :: "int \<Rightarrow> string \<Rightarrow> int \<Rightarrow> tables \<Rightarrow> tables" where
  "set_user_status i st t d = d\<lparr>users := upd_where (\<lambda>r. u_ID r = i \<and> live r)
     (\<lambda>r. r\<lparr>u_Status := st, u_UpdatedAt := t\<rparr>) (users d)\<rparr>"

definition repo_UpdateUserStatus :: "int \<Rightarrow> string \<Rightarrow> user io" where
  "repo_UpdateUserStatus i status =
     bindE (wrapE ''update user status'' (sql
       (bindE get_db (\<lambda>d.
        bindE time_now (\<lambda>t.
          case find (\<lambda>r. u_ID r = i \<and> live r) (users d) of
            None \<Rightarrow> ret None
          | Some r \<Rightarrow>
              if char_length status > 20 then raise (too_long 20)
              else bindE (put_db (set_user_status i status t d)) (\<lambda>_.
                   ret (Some (r\<lparr>u_Status := status, u_UpdatedAt := t\<rparr>))))))))
       (\<lambda>r. case r of None \<Rightarrow> raise ErrUserNotFound | Some r \<Rightarrow> ret r)"

section \<open>Service\<close>

definition user_GetUserByID :: "int \<Rightarrow> user io" where
  "user_GetUserByID i = GetUserByID i"

section \<open>The repository keeps the constraints\<close>

lemma set_user_status_frame [simp]:
  "wallets (set_user_status i st t d) = wallets d"
  "wallet_transactions (set_user_status i st t d) = wallet_transactions d"
  "assets (set_user_status i st t d) = assets d" "orders (set_user_status i st t d) = orders d"
  "trades (set_user_status i st t d) = trades d" "portfolios (set_user_status i st t d) = portfolios d"
  "audit_logs (set_user_status i st t d) = audit_logs d"
  by (simp_all add: set_user_status_def)

lemma set_user_status_keys [simp]:
  "map u_ID (users (set_user_status i st t d)) = map u_ID (users d)"
  "map u_Email (users (set_user_status i st t d)) = map u_Email (users d)"
  by (simp_all add: set_user_status_def map_upd_where_same)

lemma set_user_status_ids [simp]: "u_ID ` set (users (set_user_status i st t d)) = u_ID ` set (users d)"
  by (metis list.set_map set_user_status_keys(1))

lemma set_user_status_ok: "schema_ok d s \<Longrightarrow> schema_ok (set_user_status i st t d) s"
proof -
  assume a: "schema_ok d s"
  then have "\<forall>u \<in> set (users (set_user_status i st t d)). u_ID u < s ''users''"
    by (auto simp: schema_ok_def users_ok_def set_user_status_def set_upd_where)
  with a show ?thesis by (simp add: schema_defs)
qed

lemma new_user_ok:
  assumes "schema_ok d s" and "u_ID r = s ''users''" and "\<not> list_ex (\<lambda>x. u_Email x = u_Email r) (users d)"
  shows "schema_ok (d\<lparr>users := users d @ [r]\<rparr>) (s(''users'' := s ''users'' + 1))"
proof -
  have "u_ID r \<notin> u_ID ` set (users d)" using assms(1,2) by (fastforce simp: schema_ok_def users_ok_def)
  moreover have "u_Email r \<notin> u_Email ` set (users d)" using assms(3) by (auto simp: list_ex_iff)
  ultimately have "users_ok (d\<lparr>users := users d @ [r]\<rparr>) (s(''users'' := s ''users'' + 1))"
    using assms(1,2) by (auto simp: schema_ok_def users_ok_def)
  then show ?thesis using assms(1) by (auto simp: schema_defs)
qed

lemma CreateUser_preserves: "preserves schema_ok (CreateUser u)"
  unfolding CreateUser_def
  by (intro preserves_wrapE preserves_sql)
    (auto simp: preserves_def monad_defs Let_def intro: new_user_ok schema.mono)

lemma user_reads_preserve:
  "preserves I (GetUserByEmail e)" "preserves I (GetUserByID i)" "preserves I (CountUsers r st)"
  unfolding GetUserByEmail_def GetUserByID_def CountUsers_def by (intro preserves_rules)+

lemma UpdateUserStatus_preserves: "preserves schema_ok (repo_UpdateUserStatus i st)"
proof -
  have "preserves schema_ok (bindE get_db (\<lambda>d. bindE time_now (\<lambda>t.
          case find (\<lambda>r. u_ID r = i \<and> live r) (users d) of
            None \<Rightarrow> ret None
          | Some r \<Rightarrow> if char_length st > 20 then raise (too_long 20)
              else bindE (put_db (set_user_status i st t d)) (\<lambda>_. ret (Some (r\<lparr>u_Status := st, u_UpdatedAt := t\<rparr>))))))"
    by (auto simp: preserves_def monad_defs split: option.splits if_splits intro: set_user_status_ok)
  from preserves_wrapE [OF preserves_sql [OF this]] show ?thesis
    unfolding repo_UpdateUserStatus_def by (rule preserves_bindE) (intro preserves_rules)
qed

section \<open>Evaluation\<close>

lemma GetUserByEmail_eval:
  "faults w = [] \<Longrightarrow> GetUserByEmail e w =
     (case find (\<lambda>r. u_Email r = e \<and> live r) (users (db w)) of None \<Rightarrow> Inl ErrUserNotFound | Some r \<Rightarrow> Inr r, w)"
  by (simp add: GetUserByEmail_def monad_defs split: option.split)

lemma GetUserByID_eval:
  "faults w = [] \<Longrightarrow> GetUserByID i w =
     (case find (\<lambda>r. u_ID r = i \<and> live r) (users (db w)) of None \<Rightarrow> Inl ErrUserNotFound | Some r \<Rightarrow> Inr r, w)"
  by (simp add: GetUserByID_def monad_defs split: option.split)

lemma GetUserByEmail_Inr:
  assumes "GetUserByEmail e w = (Inr u, w')"
  shows "find (\<lambda>r. u_Email r = e \<and> live r) (users (db w)) = Some u \<and> (\<exists>fs. w' = w\<lparr>faults := fs\<rparr>)"
  using query_Inr [OF assms [unfolded GetUserByEmail_def]] by (auto simp: ret_def raise_def split: option.splits)

lemma GetUserByID_Inr:
  assumes "GetUserByID i w = (Inr u, w')"
  shows "find (\<lambda>r. u_ID r = i \<and> live r) (users (db w)) = Some u \<and> (\<exists>fs. w' = w\<lparr>faults := fs\<rparr>)"
  using query_Inr [OF assms [unfolded GetUserByID_def]] by (auto simp: ret_def raise_def split: option.splits)

lemma GetUserByEmail_missing:
  assumes "GetUserByEmail e w = (Inl x, w')" and "errors_Is x ErrUserNotFound"
  shows "find (\<lambda>r. u_Email r = e \<and> live r) (users (db w)) = None \<and> (\<exists>fs. w' = w\<lparr>faults := fs\<rparr>)"
  using query_Inl [OF assms(1) [unfolded GetUserByEmail_def]] assms(2)
  by (auto simp: ret_def raise_def split: option.splits)

lemma CreateUser_Inr:
  assumes "CreateUser u w = (Inr r, w')"
  shows "users (db w') = users (db w) @ [r] \<and> \<not> list_ex (\<lambda>x. u_Email x = u_Email u) (users (db w))
    \<and> u_ID r = seqs w ''users'' \<and> u_Email r = u_Email u \<and> u_PasswordHash r = u_PasswordHash u \<and> u_Role r = u_Role u
    \<and> u_Status r = UserStatusActive \<and> u_DeletedAt r = None \<and> now w' = now w"
proof -
  from assms obtain q where "sql q w = (Inr r, w')" and q: "q = bindE (nextval ''users'') (\<lambda>i. bindE get_db (\<lambda>d. bindE time_now (\<lambda>t.
        if char_length (u_Email u) > 255 \<or> char_length (u_PasswordHash u) > 255 then raise (too_long 255)
        else if char_length (u_Role u) > 50 then raise (too_long 50)
        else if list_ex (\<lambda>r. u_Email r = u_Email u) (users d) then raise (unique_violation ''users_email_key'')
        else let r = \<lparr>u_ID = i, u_Email = u_Email u, u_PasswordHash = u_PasswordHash u, u_Role = u_Role u,
               u_Status = UserStatusActive, u_CreatedAt = t, u_UpdatedAt = t, u_DeletedAt = None\<rparr>
          in bindE (put_db (d\<lparr>users := users d @ [r]\<rparr>)) (\<lambda>_. ret r))))"
    by (simp add: CreateUser_def)
  then obtain fs where "q (w\<lparr>faults := fs\<rparr>) = (Inr r, w')" by (auto dest: sql_Inr)
  then show ?thesis by (auto simp: q monad_defs Let_def split: if_splits)
qed

lemma CreateUser_eval:
  assumes "faults w = []" and "char_length (u_Email u) \<le> 255" and "char_length (u_PasswordHash u) \<le> 255" and "char_length (u_Role u) \<le> 50"
    and "\<not> list_ex (\<lambda>x. u_Email x = u_Email u) (users (db w))"
  shows "CreateUser u w = (let r = \<lparr>u_ID = seqs w ''users'', u_Email = u_Email u, u_PasswordHash = u_PasswordHash u, u_Role = u_Role u,
           u_Status = UserStatusActive, u_CreatedAt = now w, u_UpdatedAt = now w, u_DeletedAt = None\<rparr>
     in (Inr r, w\<lparr>db := (db w)\<lparr>users := users (db w) @ [r]\<rparr>, seqs := (seqs w)(''users'' := seqs w ''users'' + 1)\<rparr>))"
  using assms by (simp add: CreateUser_def monad_defs Let_def)

end
