(* ===== verification/Auth.thy ===== *)
theory Auth
  imports User "HOL-Library.Countable"
begin

text \<open>
  pkg/jwt, pkg/password and internal/auth/service: tokens, passwords, registration, login and
  refresh. The token library (golang-jwt) and bcrypt are not part of the repository: they are the
  records \<open>jwt_lib\<close> and \<open>bcrypt_lib\<close>, arguments of the functions that call them, and \<open>jwt_ok\<close> and
  \<open>bcrypt_ok\<close> are the documented behaviour that the theorems need.
\<close>

section \<open>pkg/jwt\<close>

definition TokenTypeAccess :: string where "TokenTypeAccess = ''access''"
definition TokenTypeRefresh :: string where "TokenTypeRefresh = ''refresh''"

lemma token_types_distinct [simp]: "TokenTypeAccess \<noteq> TokenTypeRefresh" "TokenTypeRefresh \<noteq> TokenTypeAccess"
  by (simp_all add: TokenTypeAccess_def TokenTypeRefresh_def)

record Claims =
  c_UserID :: int
  c_Role :: string
  c_TokenType :: string
  c_IssuedAt :: int
  c_ExpiresAt :: int
  c_Issuer :: string

record TokenPair =
  AccessToken :: string
  RefreshToken :: string

record JWTService =
  jwt_secret :: string
  accessExpiry :: int
  refreshExpiry :: int

text \<open>
  The library: \<^verbatim>\<open>jwt.NewNumericDate\<close>, signing claims with HS256 and a key, and \<^verbatim>\<open>ParseWithClaims\<close>,
  which asks the key function for the key of the token's algorithm; its errors are told apart by
  \<^verbatim>\<open>errors.Is(err, jwt.ErrTokenExpired)\<close> only, and a parsed token has a flag \<^verbatim>\<open>Valid\<close>. \<open>Verifies k alg c
  tok\<close> says that \<open>tok\<close> carries the claims \<open>c\<close> with a signature that is right for key and algorithm.
\<close>

datatype jwt_error = JwtExpired | JwtOther

record jwt_lib =
  NewNumericDate :: "int \<Rightarrow> int"
  SignedString :: "string \<Rightarrow> Claims \<Rightarrow> error + string"
  Verifies :: "string \<Rightarrow> string \<Rightarrow> Claims \<Rightarrow> string \<Rightarrow> bool"
  ParseWithClaims :: "(string \<Rightarrow> error + string) \<Rightarrow> int \<Rightarrow> string \<Rightarrow> jwt_error + Claims \<times> bool"

definition is_HMAC :: "string \<Rightarrow> bool" where
  "is_HMAC alg \<longleftrightarrow> alg \<in> {''HS256'', ''HS384'', ''HS512''}"

definition generateToken :: "jwt_lib \<Rightarrow> JWTService \<Rightarrow> int \<Rightarrow> string \<Rightarrow> string \<Rightarrow> int \<Rightarrow> string io" where
  "generateToken L s userID role tokenType expiry =
     bindE time_now (\<lambda>t.
       case SignedString L (jwt_secret s) \<lparr>c_UserID = userID, c_Role = role, c_TokenType = tokenType,
              c_IssuedAt = NewNumericDate L t, c_ExpiresAt = NewNumericDate L (t + expiry), c_Issuer = ''tradeverse''\<rparr> of
         Inl e \<Rightarrow> raise (Wrapf ''sign token'' e)
       | Inr tok \<Rightarrow> ret tok)"

definition GenerateTokenPair :: "jwt_lib \<Rightarrow> JWTService \<Rightarrow> int \<Rightarrow> string \<Rightarrow> TokenPair io" where
  "GenerateTokenPair L s userID role =
     bindE (wrapE ''generate access token'' (generateToken L s userID role TokenTypeAccess (accessExpiry s))) (\<lambda>a.
     bindE (wrapE ''generate refresh token'' (generateToken L s userID role TokenTypeRefresh (refreshExpiry s))) (\<lambda>r.
     ret \<lparr>AccessToken = a, RefreshToken = r\<rparr>))"

definition token_key :: "JWTService \<Rightarrow> string \<Rightarrow> error + string" where
  "token_key s alg = (if is_HMAC alg then Inr (jwt_secret s) else Inl (ErrorString (''unexpected signing method: '' @ alg)))"

definition ParseToken :: "jwt_lib \<Rightarrow> JWTService \<Rightarrow> string \<Rightarrow> Claims io" where
  "ParseToken L s tokenStr = bindE time_now (\<lambda>t. case ParseWithClaims L (token_key s) t tokenStr of
     Inl JwtExpired \<Rightarrow> raise ErrTokenExpired
   | Inl JwtOther \<Rightarrow> raise ErrTokenInvalid
   | Inr (claims, valid) \<Rightarrow> if \<not> valid then raise ErrTokenInvalid else ret claims)"

text \<open>
  What is relied on. A \<^verbatim>\<open>NumericDate\<close> keeps a time to the precision of the library, and a token keeps the
  claims with their times as such dates (\<open>kept_claims\<close>). Complete: a token signed with the key that the key
  function gives, not yet expired, is parsed to the claims it keeps. Sound: a token that is parsed as valid
  is not expired, and its signature is right for the key that the key function gave for its algorithm.
\<close>

definition kept_claims :: "jwt_lib \<Rightarrow> Claims \<Rightarrow> Claims" where
  "kept_claims L c = c\<lparr>c_IssuedAt := NewNumericDate L (c_IssuedAt c), c_ExpiresAt := NewNumericDate L (c_ExpiresAt c)\<rparr>"

definition jwt_ok :: "jwt_lib \<Rightarrow> bool" where
  "jwt_ok L \<longleftrightarrow>
     (\<forall>t. NewNumericDate L (NewNumericDate L t) = NewNumericDate L t)
   \<and> (\<forall>kf t k c tok. SignedString L k c = Inr tok \<and> kf ''HS256'' = Inr k \<and> t < NewNumericDate L (c_ExpiresAt c)
        \<longrightarrow> ParseWithClaims L kf t tok = Inr (kept_claims L c, True))
   \<and> (\<forall>kf t tok c. ParseWithClaims L kf t tok = Inr (c, True)
        \<longrightarrow> t < c_ExpiresAt c \<and> (\<exists>alg k. kf alg = Inr k \<and> Verifies L k alg c tok))"

section \<open>pkg/password\<close>

record bcrypt_lib =
  GenerateFromPassword :: "string \<Rightarrow> error + string"
  CompareHashAndPassword :: "string \<Rightarrow> string \<Rightarrow> bool"

definition Hash :: "bcrypt_lib \<Rightarrow> string \<Rightarrow> error + string" where
  "Hash B password = GenerateFromPassword B password"

text \<open>Whether \<^verbatim>\<open>Verify\<close> returns nil.\<close>

definition Verify :: "bcrypt_lib \<Rightarrow> string \<Rightarrow> string \<Rightarrow> bool" where
  "Verify B hashedPassword password = CompareHashAndPassword B hashedPassword password"

definition bcrypt_ok :: "bcrypt_lib \<Rightarrow> bool" where
  "bcrypt_ok B \<longleftrightarrow> (\<forall>p h. GenerateFromPassword B p = Inr h \<longrightarrow> CompareHashAndPassword B h p \<and> length h \<le> 255)"

section \<open>internal/auth/service\<close>

record RegisterRequest =
  rr_Email :: string
  rr_Username :: string
  rr_Password :: string
  rr_ConfirmPassword :: string
  rr_Role :: string

record LoginRequest =
  lr_Email :: string
  lr_Password :: string

definition validRoles :: "string list" where
  "validRoles = [RoleAdmin, RoleBroker, RoleTrader, RoleSupport]"

record AuthService =
  as_jwtLib :: jwt_lib
  as_bcrypt :: bcrypt_lib
  as_jwtService :: JWTService
  walletCreator :: "(int \<Rightarrow> unit io) option"

abbreviation token_pair :: "AuthService \<Rightarrow> int \<Rightarrow> string \<Rightarrow> TokenPair io" where
  "token_pair s \<equiv> GenerateTokenPair (as_jwtLib s) (as_jwtService s)"

text \<open>A wallet that cannot be created is logged, no more.\<close>

definition create_wallet :: "AuthService \<Rightarrow> int \<Rightarrow> unit io" where
  "create_wallet s i = (case walletCreator s of
     None \<Rightarrow> ret ()
   | Some f \<Rightarrow> bindE (attempt (f i)) (\<lambda>_. ret ()))"

definition Register :: "AuthService \<Rightarrow> RegisterRequest \<Rightarrow> (user \<times> TokenPair) io" where
  "Register s input =
     (if rr_Role input \<notin> set validRoles then raise ErrInvalidRole
      else bindE (attempt (GetUserByEmail (rr_Email input))) (\<lambda>r.
        case r of
          Inr u \<Rightarrow> raise ErrEmailAlreadyExists
        | Inl e \<Rightarrow>
            if \<not> errors_Is e ErrUserNotFound then raise (Wrapf ''register: lookup user'' e)
            else case Hash (as_bcrypt s) (rr_Password input) of
              Inl he \<Rightarrow> raise (Wrapf ''register: hash password'' he)
            | Inr hash \<Rightarrow>
                bindE (wrapE ''register: create user'' (CreateUser \<lparr>u_ID = 0, u_Email = rr_Email input,
                  u_PasswordHash = hash, u_Role = rr_Role input, u_Status = [], u_CreatedAt = zero_time,
                  u_UpdatedAt = zero_time, u_DeletedAt = None\<rparr>)) (\<lambda>created.
                bindE (wrapE ''register: generate tokens'' (token_pair s (u_ID created) (u_Role created))) (\<lambda>tokens.
                bindE (create_wallet s (u_ID created)) (\<lambda>_.
                ret (created, tokens))))))"

definition Login :: "AuthService \<Rightarrow> LoginRequest \<Rightarrow> (user \<times> TokenPair) io" where
  "Login s input =
     bindE (attempt (GetUserByEmail (lr_Email input))) (\<lambda>r.
       case r of
         Inl e \<Rightarrow> if errors_Is e ErrUserNotFound then raise ErrInvalidCredentials else raise (Wrapf ''login: lookup user'' e)
       | Inr u \<Rightarrow>
           if \<not> Verify (as_bcrypt s) (u_PasswordHash u) (lr_Password input) then raise ErrInvalidCredentials
           else if u_Status u = UserStatusSuspended then raise ErrAccountSuspended
           else bindE (wrapE ''login: generate tokens'' (token_pair s (u_ID u) (u_Role u))) (\<lambda>tokens.
                ret (u, tokens)))"

definition RefreshTokens :: "AuthService \<Rightarrow> string \<Rightarrow> TokenPair io" where
  "RefreshTokens s refreshTokenStr =
     bindE (ParseToken (as_jwtLib s) (as_jwtService s) refreshTokenStr) (\<lambda>claims.
       if c_TokenType claims \<noteq> TokenTypeRefresh then raise ErrAuthTokenInvalid
       else bindE (attempt (GetUserByID (c_UserID claims))) (\<lambda>r.
         case r of
           Inl e \<Rightarrow> if errors_Is e ErrUserNotFound then raise ErrAuthTokenInvalid else raise (Wrapf ''refresh: lookup user'' e)
         | Inr u \<Rightarrow> wrapE ''refresh: generate tokens'' (token_pair s (u_ID u) (u_Role u))))"

section \<open>Tokens\<close>

definition jwt_signs :: "jwt_lib \<Rightarrow> bool" where
  "jwt_signs L \<longleftrightarrow> (\<forall>k c. \<exists>tok. SignedString L k c = Inr tok)"

text \<open>The claims of the tokens the service makes at time \<open>t\<close>.\<close>

definition claims_for :: "jwt_lib \<Rightarrow> int \<Rightarrow> int \<Rightarrow> string \<Rightarrow> string \<Rightarrow> int \<Rightarrow> Claims" where
  "claims_for L t i role kind expiry = \<lparr>c_UserID = i, c_Role = role, c_TokenType = kind,
     c_IssuedAt = NewNumericDate L t, c_ExpiresAt = NewNumericDate L (t + expiry), c_Issuer = ''tradeverse''\<rparr>"

lemma claims_for_simps [simp]:
  "c_UserID (claims_for L t i role kind x) = i" "c_Role (claims_for L t i role kind x) = role"
  "c_TokenType (claims_for L t i role kind x) = kind" "c_ExpiresAt (claims_for L t i role kind x) = NewNumericDate L (t + x)"
  by (simp_all add: claims_for_def)

lemma generateToken_Inr:
  "generateToken L s i role kind x w = (Inr tok, w') \<longleftrightarrow>
     SignedString L (jwt_secret s) (claims_for L (now w) i role kind x) = Inr tok \<and> w' = w"
  by (auto simp: generateToken_def claims_for_def bindE_def time_now_def ret_def raise_def split: sum.splits)

lemma GenerateTokenPair_Inr:
  "GenerateTokenPair L s i role w = (Inr p, w') \<longleftrightarrow> w' = w
     \<and> SignedString L (jwt_secret s) (claims_for L (now w) i role TokenTypeAccess (accessExpiry s)) = Inr (AccessToken p)
     \<and> SignedString L (jwt_secret s) (claims_for L (now w) i role TokenTypeRefresh (refreshExpiry s)) = Inr (RefreshToken p)"
  by (auto simp: GenerateTokenPair_def bindE_Inr generateToken_Inr ret_def)

lemma GenerateTokenPair_total: "jwt_signs L \<Longrightarrow> \<exists>p. GenerateTokenPair L s i role w = (Inr p, w)"
proof -
  assume a: "jwt_signs L"
  obtain ta tr where "SignedString L (jwt_secret s) (claims_for L (now w) i role TokenTypeAccess (accessExpiry s)) = Inr ta"
    "SignedString L (jwt_secret s) (claims_for L (now w) i role TokenTypeRefresh (refreshExpiry s)) = Inr tr"
    using a by (meson jwt_signs_def)
  then show ?thesis
    by (intro exI [of _ "\<lparr>AccessToken = ta, RefreshToken = tr\<rparr>"]) (simp add: GenerateTokenPair_Inr)
qed

lemma token_key_HS256 [simp]: "token_key s ''HS256'' = Inr (jwt_secret s)"
  by (simp add: token_key_def is_HMAC_def)

lemma kept_claims_simps [simp]:
  "c_UserID (kept_claims L c) = c_UserID c" "c_Role (kept_claims L c) = c_Role c" "c_TokenType (kept_claims L c) = c_TokenType c"
  by (simp_all add: kept_claims_def)

lemma ParseToken_signed:
  assumes "jwt_ok L" and "SignedString L (jwt_secret s) c = Inr tok" and "now w < NewNumericDate L (c_ExpiresAt c)"
  shows "ParseToken L s tok w = (Inr (kept_claims L c), w)"
proof -
  have "ParseWithClaims L (token_key s) (now w) tok = Inr (kept_claims L c, True)"
    using assms token_key_HS256 [of s] unfolding jwt_ok_def by blast
  then show ?thesis by (simp add: ParseToken_def bindE_def time_now_def ret_def)
qed

lemma ParseToken_Inr:
  assumes "ParseToken L s tok w = (Inr c, w')"
  shows "ParseWithClaims L (token_key s) (now w) tok = Inr (c, True) \<and> w' = w"
  using assms
  by (auto simp: ParseToken_def bindE_def time_now_def ret_def raise_def split: sum.splits jwt_error.splits if_splits)

lemma ParseToken_genuine:
  assumes "jwt_ok L" and "ParseToken L s tok w = (Inr c, w')"
  shows "now w < c_ExpiresAt c \<and> (\<exists>alg. is_HMAC alg \<and> Verifies L (jwt_secret s) alg c tok)"
proof -
  from ParseToken_Inr [OF assms(2)] assms(1) obtain alg k where
    "now w < c_ExpiresAt c" "token_key s alg = Inr k" "Verifies L k alg c tok"
    unfolding jwt_ok_def by blast
  then show ?thesis by (auto simp: token_key_def split: if_splits)
qed

section \<open>Libraries that behave as documented\<close>

text \<open>
  A token library and a password library that meet the assumptions: a token is the number of the
  pair of key and claims, a hash is the password behind a dollar sign.
\<close>

definition claims_tuple :: "Claims \<Rightarrow> int \<times> string \<times> string \<times> int \<times> int \<times> string" where
  "claims_tuple c = (c_UserID c, c_Role c, c_TokenType c, c_IssuedAt c, c_ExpiresAt c, c_Issuer c)"

definition tuple_claims :: "int \<times> string \<times> string \<times> int \<times> int \<times> string \<Rightarrow> Claims" where
  "tuple_claims x = (case x of (i, r, k, a, e, s) \<Rightarrow>
     \<lparr>c_UserID = i, c_Role = r, c_TokenType = k, c_IssuedAt = a, c_ExpiresAt = e, c_Issuer = s\<rparr>)"

lemma tuple_claims_tuple [simp]: "tuple_claims (claims_tuple c) = c"
  by (simp add: claims_tuple_def tuple_claims_def)

definition encode_token :: "string \<Rightarrow> Claims \<Rightarrow> string" where
  "encode_token k c = show_nat (to_nat (k, claims_tuple c))"

definition ex_jwt :: jwt_lib where
  "ex_jwt = \<lparr>NewNumericDate = (\<lambda>t. t), SignedString = (\<lambda>k c. Inr (encode_token k c)),
     Verifies = (\<lambda>k alg c tok. alg = ''HS256'' \<and> tok = encode_token k c),
     ParseWithClaims = (\<lambda>kf t tok. case from_nat (digits_val 0 tok) of (k, x) \<Rightarrow>
       if kf ''HS256'' \<noteq> Inr k \<or> tok \<noteq> encode_token k (tuple_claims x) then Inl JwtOther
       else if t < c_ExpiresAt (tuple_claims x) then Inr (tuple_claims x, True) else Inl JwtExpired)\<rparr>"

lemma ex_jwt_ok: "jwt_ok ex_jwt" "jwt_signs ex_jwt"
proof -
  have "ParseWithClaims ex_jwt kf t (encode_token k c) = Inr (c, True)" if "kf ''HS256'' = Inr k" "t < c_ExpiresAt c" for kf t k c
    using that by (simp add: ex_jwt_def encode_token_def)
  moreover have "t < c_ExpiresAt c \<and> (\<exists>alg k. kf alg = Inr k \<and> Verifies ex_jwt k alg c tok)"
    if "ParseWithClaims ex_jwt kf t tok = Inr (c, True)" for kf t tok c
    using that by (fastforce simp: ex_jwt_def split: prod.splits if_splits)
  ultimately show "jwt_ok ex_jwt" unfolding jwt_ok_def by (simp add: ex_jwt_def kept_claims_def)
  show "jwt_signs ex_jwt" by (simp add: jwt_signs_def ex_jwt_def)
qed

definition ex_bcrypt :: bcrypt_lib where
  "ex_bcrypt = \<lparr>GenerateFromPassword = (\<lambda>p. if length p \<le> 72 then Inr (CHR ''$'' # p) else Inl (ErrorString ''password too long'')),
     CompareHashAndPassword = (\<lambda>h p. h = CHR ''$'' # p)\<rparr>"

lemma ex_bcrypt_ok: "bcrypt_ok ex_bcrypt"
  by (auto simp: bcrypt_ok_def ex_bcrypt_def split: if_splits)

definition ex_auth :: AuthService where
  "ex_auth = \<lparr>as_jwtLib = ex_jwt, as_bcrypt = ex_bcrypt,
     as_jwtService = \<lparr>jwt_secret = ''s'', accessExpiry = 900, refreshExpiry = 86400\<rparr>, walletCreator = Some CreateWalletForUser\<rparr>"

lemma ex_auth_simps [simp]:
  "as_jwtLib ex_auth = ex_jwt" "as_bcrypt ex_auth = ex_bcrypt" "walletCreator ex_auth = Some CreateWalletForUser"
  by (simp_all add: ex_auth_def)

section \<open>Registration and login\<close>

definition request_user :: "RegisterRequest \<Rightarrow> string \<Rightarrow> user" where
  "request_user input hash = \<lparr>u_ID = 0, u_Email = rr_Email input, u_PasswordHash = hash, u_Role = rr_Role input,
     u_Status = [], u_CreatedAt = zero_time, u_UpdatedAt = zero_time, u_DeletedAt = None\<rparr>"

lemma request_user_simps [simp]:
  "u_Email (request_user i h) = rr_Email i" "u_PasswordHash (request_user i h) = h" "u_Role (request_user i h) = rr_Role i"
  by (simp_all add: request_user_def)

text \<open>The service as main.go puts it together: wallets are made by the wallet service.\<close>

definition wired :: "AuthService \<Rightarrow> bool" where
  "wired s \<longleftrightarrow> walletCreator s = Some CreateWalletForUser"

lemma create_wallet_users:
  assumes "wired s" and "create_wallet s i w = (r, w')"
  shows "users (db w') = users (db w)"
proof -
  have "preserves (\<lambda>d s. users d = users (db w)) (CreateWalletForUser j)" for j
    unfolding CreateWalletForUser_def CreateWallet_def preserves_def
    by (auto simp: bindE_def wrapE_def sql_def get_db_def time_now_def nextval_def raise_def ret_def put_db_def Let_def
        split: prod.splits sum.splits list.splits option.splits if_splits)
  then have "preserves (\<lambda>d s. users d = users (db w)) (create_wallet s i)"
    unfolding create_wallet_def using assms(1) by (auto simp: wired_def intro!: preserves_rules)
  from preservesD [OF this assms(2)] show ?thesis by simp
qed

lemma create_wallet_eval:
  assumes "wired s" and "faults w = []" and "i \<in> u_ID ` set (users (db w))" and "find (\<lambda>r. w_UserID r = i) (wallets (db w)) = None"
  shows "\<exists>w'. create_wallet s i w = (Inr (), w') \<and> users (db w') = users (db w) \<and> orders (db w') = orders (db w)
    \<and> portfolios (db w') = portfolios (db w) \<and> balance_of (db w') = (balance_of (db w))(i \<mapsto> 0)"
proof -
  let ?r = "\<lparr>w_ID = seqs w ''wallets'', w_UserID = i, w_Balance = 0, w_Currency = ''USD'', w_Version = 1,
    w_CreatedAt = now w, w_UpdatedAt = now w\<rparr>"
  let ?w' = "w\<lparr>db := (db w)\<lparr>wallets := wallets (db w) @ [?r]\<rparr>, seqs := (seqs w)(''wallets'' := seqs w ''wallets'' + 1)\<rparr>"
  have "list_ex (\<lambda>u. u_ID u = i) (users (db w))" "\<not> list_ex (\<lambda>r. w_UserID r = i) (wallets (db w))"
    using assms(3,4) by (auto simp: list_ex_iff find_None_iff)
  then have "create_wallet s i w = (Inr (), ?w')"
    using assms(1,2) by (simp add: create_wallet_def wired_def CreateWalletForUser_def CreateWallet_def monad_defs Let_def)
  moreover have "find (\<lambda>r. w_UserID r = j) (wallets (db w) @ [?r]) =
      (if j = i then Some ?r else find (\<lambda>r. w_UserID r = j) (wallets (db w)))" for j
    using assms(4) by (simp add: find_append_new find_append_other)
  ultimately show ?thesis by (intro exI [of _ ?w']) (auto simp: balance_of_def fun_eq_iff)
qed

lemma Register_Inr:
  assumes "wired s" and "Register s input w = (Inr (u, p), w')"
  shows "\<exists>w0 hash. rr_Role input \<in> set validRoles \<and> db w0 = db w \<and> now w0 = now w
    \<and> find (\<lambda>r. u_Email r = rr_Email input \<and> live r) (users (db w)) = None
    \<and> Hash (as_bcrypt s) (rr_Password input) = Inr hash \<and> (\<exists>w1. CreateUser (request_user input hash) w0 = (Inr u, w1)
        \<and> token_pair s (u_ID u) (u_Role u) w1 = (Inr p, w1) \<and> users (db w') = users (db w1))"
proof -
  from assms(2) have role: "rr_Role input \<in> set validRoles" by (auto simp: Register_def raise_def split: if_splits)
  from assms(2) [unfolded Register_def, folded request_user_def] role
  obtain r w0 where g: "attempt (GetUserByEmail (rr_Email input)) w = (Inr r, w0)"
    and k: "(case r of Inr u \<Rightarrow> raise ErrEmailAlreadyExists
        | Inl e \<Rightarrow> if \<not> errors_Is e ErrUserNotFound then raise (Wrapf ''register: lookup user'' e)
            else case Hash (as_bcrypt s) (rr_Password input) of
              Inl he \<Rightarrow> raise (Wrapf ''register: hash password'' he)
            | Inr hash \<Rightarrow>
                bindE (wrapE ''register: create user'' (CreateUser (request_user input hash))) (\<lambda>created.
                bindE (wrapE ''register: generate tokens'' (token_pair s (u_ID created) (u_Role created))) (\<lambda>tokens.
                bindE (create_wallet s (u_ID created)) (\<lambda>_. ret (created, tokens))))) w0 = (Inr (u, p), w')"
    by (auto simp: bindE_Inr)
  from k obtain e hash where e: "r = Inl e" "errors_Is e ErrUserNotFound" and h: "Hash (as_bcrypt s) (rr_Password input) = Inr hash"
    by (auto split: sum.splits if_splits)
  from g e have "GetUserByEmail (rr_Email input) w = (Inl e, w0)"
    by (auto simp: attempt_def split: prod.splits sum.splits if_splits)
  from GetUserByEmail_missing [OF this e(2)] obtain fs where
    n: "find (\<lambda>r. u_Email r = rr_Email input \<and> live r) (users (db w)) = None" and w0: "w0 = w\<lparr>faults := fs\<rparr>" by auto
  from k e h obtain w1 x w2 where c: "CreateUser (request_user input hash) w0 = (Inr u, w1)"
    and tp: "token_pair s (u_ID u) (u_Role u) w1 = (Inr p, w1)" and cw: "create_wallet s (u_ID u) w1 = (x, w2)" "w' = w2"
    by (auto simp: bindE_Inr GenerateTokenPair_Inr)
  from create_wallet_users [OF assms(1) cw(1)] cw(2) have "users (db w') = users (db w1)" by simp
  with role n w0 h c tp show ?thesis by (intro exI [of _ w0] exI [of _ hash]) auto
qed

lemma Register_eval:
  assumes "schema_ok (db w) (seqs w)" and "faults w = []" and "wired s" and "bcrypt_ok (as_bcrypt s)" and "jwt_signs (as_jwtLib s)"
    and "rr_Role input \<in> set validRoles" and "rr_Email input \<notin> u_Email ` set (users (db w))" and "char_length (rr_Email input) \<le> 255"
    and "Hash (as_bcrypt s) (rr_Password input) = Inr hash"
  shows "\<exists>u p w'. Register s input w = (Inr (u, p), w') \<and> users (db w') = users (db w) @ [u]
    \<and> u_Email u = rr_Email input \<and> u_Role u = rr_Role input \<and> u_PasswordHash u = hash \<and> u_Status u = UserStatusActive
    \<and> balance_of (db w') = (balance_of (db w))(u_ID u \<mapsto> 0) \<and> orders (db w') = orders (db w) \<and> portfolios (db w') = portfolios (db w)"
proof -
  let ?u = "\<lparr>u_ID = seqs w ''users'', u_Email = rr_Email input, u_PasswordHash = hash, u_Role = rr_Role input,
     u_Status = UserStatusActive, u_CreatedAt = now w, u_UpdatedAt = now w, u_DeletedAt = None\<rparr>"
  let ?w1 = "w\<lparr>db := (db w)\<lparr>users := users (db w) @ [?u]\<rparr>, seqs := (seqs w)(''users'' := seqs w ''users'' + 1)\<rparr>"
  have n: "find (\<lambda>r. u_Email r = rr_Email input \<and> live r) (users (db w)) = None"
    and fresh: "\<not> list_ex (\<lambda>x. u_Email x = rr_Email input) (users (db w))"
    using assms(7) by (force simp: find_None_iff list_ex_iff)+
  have "char_length hash \<le> 255" using assms(4,9) by (auto simp: bcrypt_ok_def Hash_def)
  then have c: "CreateUser (request_user input hash) w = (Inr ?u, ?w1)"
    using CreateUser_eval [OF assms(2), of "request_user input hash"] assms(4,6,8,9) fresh
    by (auto simp: bcrypt_ok_def Hash_def Let_def validRoles_def const_defs)
  obtain p where p: "token_pair s (u_ID ?u) (u_Role ?u) ?w1 = (Inr p, ?w1)" using GenerateTokenPair_total [OF assms(5)] by blast
  have new: "find (\<lambda>r. w_UserID r = seqs w ''users'') (wallets (db w)) = None"
    using assms(1) by (force simp: find_None_iff schema_ok_def wallets_ok_def users_ok_def)
  obtain w' where cw: "create_wallet s (u_ID ?u) ?w1 = (Inr (), w')" and d: "users (db w') = users (db ?w1)"
    "orders (db w') = orders (db w)" "portfolios (db w') = portfolios (db w)" "balance_of (db w') = (balance_of (db w))(seqs w ''users'' \<mapsto> 0)"
    using create_wallet_eval [of s ?w1 "u_ID ?u"] assms(2,3) new by (auto simp: balance_of_def [abs_def])
  have "Register s input w = (Inr (?u, p), w')"
    using assms(6) n c p cw assms(9)
    by (simp add: Register_def bindE_def attempt_def GetUserByEmail_eval [OF assms(2)] wrapE_def ret_def is_panic_def
        flip: request_user_def)
  with d show ?thesis by auto
qed

text \<open>
  A registration with a valid role and an e-mail address that no row has, when nothing
  fails, adds exactly one user, active, with that role and the hash of the password, and a wallet
  with a balance of 0 for that user; no other balance changes.
\<close>

theorem Register_creates:
  assumes "schema_ok (db w) (seqs w)" and "faults w = []" and "wired s" and "bcrypt_ok (as_bcrypt s)" and "jwt_signs (as_jwtLib s)"
    and "rr_Role input \<in> set validRoles" and "rr_Email input \<notin> u_Email ` set (users (db w))" and "char_length (rr_Email input) \<le> 255"
    and "Hash (as_bcrypt s) (rr_Password input) = Inr hash"
  shows "\<exists>u p w'. Register s input w = (Inr (u, p), w') \<and> users (db w') = users (db w) @ [u]
    \<and> u_Email u = rr_Email input \<and> u_Role u = rr_Role input \<and> u_PasswordHash u = hash \<and> u_Status u = UserStatusActive
    \<and> balance_of (db w') = (balance_of (db w))(u_ID u \<mapsto> 0) \<and> orders (db w') = orders (db w) \<and> portfolios (db w') = portfolios (db w)"
  using assms by (rule Register_eval)

definition ex_register :: RegisterRequest where
  "ex_register = \<lparr>rr_Email = ''a@b.c'', rr_Username = ''ann'', rr_Password = ''Passw0rd'', rr_ConfirmPassword = ''Passw0rd'', rr_Role = ''trader''\<rparr>"

lemma ex_wired: "wired ex_auth" "rr_Role ex_register \<in> set validRoles" "rr_Email ex_register \<notin> u_Email ` set (users (db ex_world))"
  "char_length (rr_Email ex_register) \<le> 255" "Hash (as_bcrypt ex_auth) (rr_Password ex_register) = Inr ''$Passw0rd''"
  by (simp_all add: wired_def ex_register_def validRoles_def const_defs ex_defs show_int_def show_nat.simps digit_char_def
      Hash_def ex_bcrypt_def)

lemma ex_registered: "\<exists>u p w'. Register ex_auth ex_register ex_world = (Inr (u, p), w') \<and> u_PasswordHash u = ''$Passw0rd''"
  using Register_eval [OF ex_world_ok ex_world_quiet ex_wired(1) _ _ ex_wired(2-5)] ex_bcrypt_ok ex_jwt_ok(2) by (metis ex_auth_simps(1,2))

theorem Register_creates_witness:
  "\<exists>u p w'. Register ex_auth ex_register ex_world = (Inr (u, p), w') \<and> length (users (db w')) = 3 \<and> balance_of (db w') (u_ID u) = Some 0"
  using Register_creates [OF ex_world_ok ex_world_quiet, of ex_auth ex_register "''$Passw0rd''"] ex_wired ex_bcrypt_ok ex_jwt_ok(2)
  by (auto simp: ex_defs)

lemma Login_after:
  assumes "bcrypt_ok (as_bcrypt s)" and "jwt_signs (as_jwtLib s)" and "wired s" and "Register s input w = (Inr (u, p), w')"
  shows "u_Role u = rr_Role input \<and> (\<exists>q. Login s \<lparr>lr_Email = rr_Email input, lr_Password = rr_Password input\<rparr> (w'\<lparr>faults := []\<rparr>)
    = (Inr (u, q), w'\<lparr>faults := []\<rparr>))"
proof -
  from Register_Inr [OF assms(3,4)] obtain w0 hash w1 where
    w0: "db w0 = db w" and n: "find (\<lambda>r. u_Email r = rr_Email input \<and> live r) (users (db w)) = None"
    and h: "Hash (as_bcrypt s) (rr_Password input) = Inr hash" and c: "CreateUser (request_user input hash) w0 = (Inr u, w1)"
    and us: "users (db w') = users (db w1)" by auto
  note cu = CreateUser_Inr [OF c]
  have f: "find (\<lambda>r. u_Email r = rr_Email input \<and> live r) (users (db w')) = Some u"
    using n cu us w0 by (simp add: find_append_new live_def)
  have v: "Verify (as_bcrypt s) (u_PasswordHash u) (rr_Password input)"
    using assms(1) h cu by (auto simp: bcrypt_ok_def Hash_def Verify_def)
  obtain q where "token_pair s (u_ID u) (u_Role u) (w'\<lparr>faults := []\<rparr>) = (Inr q, w'\<lparr>faults := []\<rparr>)"
    using GenerateTokenPair_total [OF assms(2)] by blast
  then show ?thesis using f v cu
    by (simp add: Login_def bindE_def attempt_def GetUserByEmail_eval wrapE_def ret_def const_defs)
qed

text \<open>
  Property C21. Whoever has registered can log in: after a registration that succeeded, whatever
  failed on the way, a login with the same e-mail address and password gives the same user, with
  the role asked for, and a new pair of tokens.
\<close>

theorem Register_then_Login:
  assumes "bcrypt_ok (as_bcrypt s)" and "jwt_signs (as_jwtLib s)" and "wired s" and "Register s input w = (Inr (u, p), w')"
  shows "u_Role u = rr_Role input \<and> (\<exists>q. Login s \<lparr>lr_Email = rr_Email input, lr_Password = rr_Password input\<rparr> (w'\<lparr>faults := []\<rparr>)
    = (Inr (u, q), w'\<lparr>faults := []\<rparr>))"
  using assms by (rule Login_after)

theorem Register_then_Login_witness:
  "\<exists>u q w'. Login ex_auth \<lparr>lr_Email = rr_Email ex_register, lr_Password = rr_Password ex_register\<rparr> w' = (Inr (u, q), w') \<and> u_Role u = ''trader''"
proof -
  obtain u p w' where "Register ex_auth ex_register ex_world = (Inr (u, p), w')" using ex_registered by blast
  from Register_then_Login [OF _ _ ex_wired(1) this] ex_bcrypt_ok ex_jwt_ok(2) show ?thesis by (auto simp: ex_register_def)
qed

text \<open>
  Property C12. A login gives tokens only to a user of the table that is not deleted, has that e-mail
  address, whose stored hash matches the password and who is not suspended; both tokens carry the
  identity and the role of that row, the access token for the access lifetime and the refresh token for
  the refresh lifetime from now on, and neither the tables nor the outgoing events change.
\<close>

theorem Login_sound:
  assumes "Login s input w = (Inr (u, p), w')"
  shows "u \<in> set (users (db w)) \<and> u_Email u = lr_Email input \<and> u_DeletedAt u = None
    \<and> CompareHashAndPassword (as_bcrypt s) (u_PasswordHash u) (lr_Password input) \<and> u_Status u \<noteq> UserStatusSuspended
    \<and> SignedString (as_jwtLib s) (jwt_secret (as_jwtService s))
        \<lparr>c_UserID = u_ID u, c_Role = u_Role u, c_TokenType = ''access'', c_IssuedAt = NewNumericDate (as_jwtLib s) (now w),
         c_ExpiresAt = NewNumericDate (as_jwtLib s) (now w + accessExpiry (as_jwtService s)), c_Issuer = ''tradeverse''\<rparr>
        = Inr (AccessToken p)
    \<and> SignedString (as_jwtLib s) (jwt_secret (as_jwtService s))
        \<lparr>c_UserID = u_ID u, c_Role = u_Role u, c_TokenType = ''refresh'', c_IssuedAt = NewNumericDate (as_jwtLib s) (now w),
         c_ExpiresAt = NewNumericDate (as_jwtLib s) (now w + refreshExpiry (as_jwtService s)), c_Issuer = ''tradeverse''\<rparr>
        = Inr (RefreshToken p)
    \<and> db w' = db w \<and> out w' = out w"
proof -
  from assms obtain r w0 where g: "attempt (GetUserByEmail (lr_Email input)) w = (Inr r, w0)"
    and k: "(case r of
         Inl e \<Rightarrow> if errors_Is e ErrUserNotFound then raise ErrInvalidCredentials else raise (Wrapf ''login: lookup user'' e)
       | Inr u \<Rightarrow>
           if \<not> Verify (as_bcrypt s) (u_PasswordHash u) (lr_Password input) then raise ErrInvalidCredentials
           else if u_Status u = UserStatusSuspended then raise ErrAccountSuspended
           else bindE (wrapE ''login: generate tokens'' (token_pair s (u_ID u) (u_Role u))) (\<lambda>tokens.
                ret (u, tokens))) w0 = (Inr (u, p), w')"
    by (auto simp: Login_def bindE_Inr)
  from k have r: "r = Inr u" "Verify (as_bcrypt s) (u_PasswordHash u) (lr_Password input)" "u_Status u \<noteq> UserStatusSuspended"
    and tp: "token_pair s (u_ID u) (u_Role u) w0 = (Inr p, w')"
    by (auto simp: bindE_Inr split: sum.splits if_splits)
  from g r(1) have "GetUserByEmail (lr_Email input) w = (Inr u, w0)"
    by (auto simp: attempt_def split: prod.splits sum.splits if_splits)
  from GetUserByEmail_Inr [OF this] r tp show ?thesis
    by (auto dest!: find_SomeD simp: live_def Verify_def GenerateTokenPair_Inr claims_for_def TokenTypeAccess_def TokenTypeRefresh_def)
qed

theorem Login_sound_witness:
  "\<exists>u q w'. Login ex_auth \<lparr>lr_Email = ''a@b.c'', lr_Password = ''Passw0rd''\<rparr> w' = (Inr (u, q), w')
     \<and> CompareHashAndPassword ex_bcrypt (u_PasswordHash u) ''Passw0rd''
     \<and> AccessToken q = encode_token ''s'' \<lparr>c_UserID = u_ID u, c_Role = u_Role u, c_TokenType = ''access'', c_IssuedAt = now w',
          c_ExpiresAt = now w' + 900, c_Issuer = ''tradeverse''\<rparr>
     \<and> RefreshToken q = encode_token ''s'' \<lparr>c_UserID = u_ID u, c_Role = u_Role u, c_TokenType = ''refresh'', c_IssuedAt = now w',
          c_ExpiresAt = now w' + 86400, c_Issuer = ''tradeverse''\<rparr>"
proof -
  obtain u p w' where r: "Register ex_auth ex_register ex_world = (Inr (u, p), w')" "u_PasswordHash u = ''$Passw0rd''"
    using ex_registered by blast
  then obtain q where "Login ex_auth \<lparr>lr_Email = rr_Email ex_register, lr_Password = rr_Password ex_register\<rparr> (w'\<lparr>faults := []\<rparr>)
      = (Inr (u, q), w'\<lparr>faults := []\<rparr>)" using Login_after [OF _ _ ex_wired(1) r(1)] ex_bcrypt_ok ex_jwt_ok(2) by auto
  with Login_sound [OF this] show ?thesis
    by (intro exI [of _ u] exI [of _ q] exI [of _ "w'\<lparr>faults := []\<rparr>"]) (simp add: ex_register_def ex_auth_def ex_jwt_def)
qed

section \<open>Refreshing\<close>

lemma RefreshTokens_eval:
  assumes "jwt_ok (as_jwtLib s)" and "jwt_signs (as_jwtLib s)" and "faults w = []"
    and "SignedString (as_jwtLib s) (jwt_secret (as_jwtService s)) c = Inr tok"
    and "now w < NewNumericDate (as_jwtLib s) (c_ExpiresAt c)"
  shows "if c_TokenType c \<noteq> TokenTypeRefresh then RefreshTokens s tok w = (Inl ErrAuthTokenInvalid, w)
    else case find (\<lambda>r. u_ID r = c_UserID c \<and> live r) (users (db w)) of
      None \<Rightarrow> RefreshTokens s tok w = (Inl ErrAuthTokenInvalid, w)
    | Some u \<Rightarrow> \<exists>p. RefreshTokens s tok w = (Inr p, w) \<and> token_pair s (u_ID u) (u_Role u) w = (Inr p, w)"
proof -
  have t: "ParseToken (as_jwtLib s) (as_jwtService s) tok w = (Inr (kept_claims (as_jwtLib s) c), w)"
    by (rule ParseToken_signed [OF assms(1,4,5)])
  show ?thesis
  proof (cases "find (\<lambda>r. u_ID r = c_UserID c \<and> live r) (users (db w))")
    case None
    with t show ?thesis
      by (simp add: RefreshTokens_def bindE_def attempt_def GetUserByID_eval [OF assms(3)] is_panic_def raise_def)
  next
    case (Some u)
    obtain p where "token_pair s (u_ID u) (u_Role u) w = (Inr p, w)" using GenerateTokenPair_total [OF assms(2)] by blast
    with Some t show ?thesis
      by (simp add: RefreshTokens_def bindE_def attempt_def GetUserByID_eval [OF assms(3)] raise_def wrapE_def)
  qed
qed

text \<open>
  Property C33. A suspended user can not log in, but refreshing does not look at the status: with a
  refresh token that has not expired, a suspended user gets a new access token, which carries the
  role of the user, and a new refresh token, and so for ever.
\<close>

theorem RefreshTokens_ignores_suspension:
  assumes "jwt_ok (as_jwtLib s)" and "jwt_signs (as_jwtLib s)" and "faults w = []"
    and "token_pair s i role v = (Inr p, v)" and "now w < NewNumericDate (as_jwtLib s) (now v + refreshExpiry (as_jwtService s))"
    and "find (\<lambda>r. u_ID r = i \<and> live r) (users (db w)) = Some u" and "u_Status u = UserStatusSuspended"
    and "find (\<lambda>r. u_Email r = u_Email u \<and> live r) (users (db w)) = Some u"
  shows "(\<exists>q. RefreshTokens s (RefreshToken p) w = (Inr q, w) \<and> SignedString (as_jwtLib s) (jwt_secret (as_jwtService s))
        (claims_for (as_jwtLib s) (now w) i (u_Role u) TokenTypeAccess (accessExpiry (as_jwtService s))) = Inr (AccessToken q))
    \<and> (\<forall>pw. \<exists>e. Login s \<lparr>lr_Email = u_Email u, lr_Password = pw\<rparr> w = (Inl e, w))"
proof -
  let ?c = "claims_for (as_jwtLib s) (now v) i role TokenTypeRefresh (refreshExpiry (as_jwtService s))"
  have sig: "SignedString (as_jwtLib s) (jwt_secret (as_jwtService s)) ?c = Inr (RefreshToken p)"
    using assms(4) by (simp add: GenerateTokenPair_Inr)
  have i: "u_ID u = i" using find_SomeD [OF assms(6)] by simp
  have "\<exists>q. RefreshTokens s (RefreshToken p) w = (Inr q, w) \<and> token_pair s (u_ID u) (u_Role u) w = (Inr q, w)"
    using RefreshTokens_eval [OF assms(1-3) sig] assms(1,5,6) by (simp add: jwt_ok_def)
  moreover have "\<exists>e. Login s \<lparr>lr_Email = u_Email u, lr_Password = pw\<rparr> w = (Inl e, w)" for pw
    using assms(7,8) by (auto simp: Login_def bindE_def attempt_def GetUserByEmail_eval [OF assms(3)] raise_def)
  ultimately show ?thesis using i by (auto simp: GenerateTokenPair_Inr)
qed

theorem RefreshTokens_ignores_suspension_witness:
  "\<exists>p q. RefreshTokens ex_auth p (ex_world\<lparr>db := (db ex_world)\<lparr>users := [(ex_user 1)\<lparr>u_Status := ''SUSPENDED''\<rparr>]\<rparr>\<rparr>) = q \<and> isl (fst q) = False"
proof -
  let ?w = "ex_world\<lparr>db := (db ex_world)\<lparr>users := [(ex_user 1)\<lparr>u_Status := ''SUSPENDED''\<rparr>]\<rparr>\<rparr>"
  obtain p where p: "token_pair ex_auth 1 ''trader'' ex_world = (Inr p, ex_world)"
    using GenerateTokenPair_total [of "as_jwtLib ex_auth"] ex_jwt_ok(2) by fastforce
  from RefreshTokens_ignores_suspension [OF _ _ _ p, of ?w "(ex_user 1)\<lparr>u_Status := ''SUSPENDED''\<rparr>"] ex_jwt_ok
  obtain q where "RefreshTokens ex_auth (RefreshToken p) ?w = (Inr q, ?w)"
    by (auto simp: ex_world_def ex_user_def live_def const_defs ex_auth_def ex_jwt_def)
  then show ?thesis by (intro exI [of _ "RefreshToken p"] exI [of _ "(Inr q, ?w)"]) simp
qed

end
