(* ===== verification/Admin.thy ===== *)
theory Admin
  imports Auth
begin

text \<open>
  internal/audit/repository and internal/admin/service: the audit log, the listing and suspension
  of users, the reports on the trades and the health of the services. What PostgreSQL does with
  points in time is the argument \<open>pg_time\<close>: truncation to the hour, its text, and going back some
  hours, which fails out of range. The answers of the services that are pinged are arguments.
\<close>

section \<open>internal/audit/repository\<close>

text \<open>The statement is the same inside a transaction and outside.\<close>

definition audit_Create :: "audit_log \<Rightarrow> audit_log io" where
  "audit_Create l = wrapE ''create audit log'' (sql
     (bindE (nextval ''audit_logs'') (\<lambda>i.
      bindE get_db (\<lambda>d.
      bindE time_now (\<lambda>t.
        if char_length (l_Action l) > 100 then raise (too_long 100)
        else if (case l_IPAddress l of None \<Rightarrow> False | Some ip \<Rightarrow> char_length ip > 45) then raise (too_long 45)
        else if (case l_UserID l of None \<Rightarrow> False | Some u \<Rightarrow> \<not> list_ex (\<lambda>r. u_ID r = u) (users d))
          then raise (fk_violation ''audit_logs_user_id_fkey'')
        else let r = \<lparr>l_ID = i, l_UserID = l_UserID l, l_Action = l_Action l, l_Details = l_Details l,
               l_IPAddress = l_IPAddress l, l_CreatedAt = t\<rparr>
          in bindE (put_db (d\<lparr>audit_logs := audit_logs d @ [r]\<rparr>)) (\<lambda>_. ret r))))))"

definition audit_matches :: "int option \<Rightarrow> string \<Rightarrow> audit_log \<Rightarrow> bool" where
  "audit_matches userID action r \<longleftrightarrow>
     (case userID of None \<Rightarrow> True | Some u \<Rightarrow> l_UserID r = Some u) \<and> (action = [] \<or> l_Action r = action)"

definition audit_List :: "int option \<Rightarrow> string \<Rightarrow> int \<Rightarrow> int \<Rightarrow> audit_log list io" where
  "audit_List userID action lmt off = wrapE ''list audit logs'' (sql
     (bindE get_db (\<lambda>d.
      limit_offset lmt off (sort_key (\<lambda>r. - l_CreatedAt r) (filter (audit_matches userID action) (audit_logs d))))))"

definition audit_Count :: "int option \<Rightarrow> string \<Rightarrow> int io" where
  "audit_Count userID action = wrapE ''count audit logs'' (sql
     (bindE get_db (\<lambda>d. ret (int (length (filter (audit_matches userID action) (audit_logs d)))))))"

section \<open>internal/admin/service\<close>

definition admin_ListUsers :: "string \<Rightarrow> string \<Rightarrow> int \<Rightarrow> int \<Rightarrow> user page io" where
  "admin_ListUsers role status page0 pageSize0 =
     (let page = clampPage page0; pageSize = clampPageSize pageSize0; offset = pageOffset page pageSize in
      bindE (repo_ListUsers role status pageSize offset) (\<lambda>us.
      bindE (CountUsers role status) (\<lambda>count.
      ret \<lparr>p_Data = us, p_Total = count, p_Page = page, p_PageSize = pageSize,
           p_TotalPages = totalPages count pageSize\<rparr>)))"

definition status_log :: "int \<Rightarrow> int \<Rightarrow> string \<Rightarrow> audit_log" where
  "status_log adminUserID targetUserID status = \<lparr>l_ID = 0, l_UserID = Some adminUserID,
     l_Action = (if status = UserStatusSuspended then ''USER_SUSPENDED'' else ''USER_ACTIVATED''),
     l_Details = Some (''Admin #'' @ show_int adminUserID @ '' set user #'' @ show_int targetUserID @ '' status to '' @ status),
     l_IPAddress = None, l_CreatedAt = zero_time\<rparr>"

definition UpdateUserStatus :: "int \<Rightarrow> int \<Rightarrow> string \<Rightarrow> user io" where
  "UpdateUserStatus adminUserID targetUserID status =
     (if status \<noteq> UserStatusActive \<and> status \<noteq> UserStatusSuspended then raise ErrInvalidStatus
      else bindE (attempt (repo_UpdateUserStatus targetUserID status)) (\<lambda>r. case r of
          Inl e \<Rightarrow> if errors_Is e ErrUserNotFound then raise ErrUserNotFound else raise (Wrapf ''update user status'' e)
        | Inr u \<Rightarrow> bindE (attempt (audit_Create (status_log adminUserID targetUserID status))) (\<lambda>_. ret u)))"

record pg_time =
  date_trunc_hour :: "int \<Rightarrow> int"
  to_char_hour :: "int \<Rightarrow> string"
  minus_hours :: "int \<Rightarrow> int \<Rightarrow> int option"

text \<open>The start of the window: \<^verbatim>\<open>NOW() - ($1 * INTERVAL '1 hour')\<close>.\<close>

definition window_start :: "pg_time \<Rightarrow> int \<Rightarrow> int io" where
  "window_start P hours = bindE time_now (\<lambda>t. case minus_hours P t hours of
     None \<Rightarrow> raise (DBError ''pq: interval out of range'') | Some x \<Rightarrow> ret x)"

record VolumePoint =
  vp_Period :: string
  vp_Trades :: int
  vp_Volume :: string

text \<open>The text of a \<^verbatim>\<open>NUMERIC\<close> that is a sum of products of two columns: 16 decimals.\<close>

definition numeric16_out :: "int \<Rightarrow> string" where
  "numeric16_out n = (if n < 0 then ''-'' else []) @ show_nat (nat \<bar>n\<bar> div 10 ^ 16) @ ''.'' @ show_width 16 (nat \<bar>n\<bar> mod 10 ^ 16)"

definition trade_volume :: "numeric trade list \<Rightarrow> int" where
  "trade_volume ts = sum_list (map (\<lambda>t. t_Price t * t_Quantity t) ts)"

definition VolumeAnalytics :: "pg_time \<Rightarrow> int \<Rightarrow> VolumePoint list io" where
  "VolumeAnalytics P hours0 =
     (let hours = (if hours0 \<le> 0 \<or> hours0 > 720 then 24 else hours0) in
      wrapE ''volume analytics'' (sql (bindE get_db (\<lambda>d. bindE (window_start P hours) (\<lambda>since.
        let ts = filter (\<lambda>t. since \<le> t_CreatedAt t) (trades d);
            hour = (\<lambda>t. date_trunc_hour P (t_CreatedAt t))
        in ret (map (\<lambda>h. let g = filter (\<lambda>t. hour t = h) ts in
             \<lparr>vp_Period = to_char_hour P h, vp_Trades = int (length g), vp_Volume = numeric16_out (trade_volume g)\<rparr>)
           (sort (remdups (map hour ts)))))))))"

record SuspiciousUser =
  su_UserID :: int
  su_Email :: string
  su_TradeCount :: int

text \<open>How often a user is a buyer or a seller of a trade since then; a trade with oneself counts twice.\<close>

definition trade_count :: "int \<Rightarrow> numeric trade list \<Rightarrow> int \<Rightarrow> int" where
  "trade_count since ts u = int (length (filter (\<lambda>t. since \<le> t_CreatedAt t \<and> t_BuyerID t = u) ts))
     + int (length (filter (\<lambda>t. since \<le> t_CreatedAt t \<and> t_SellerID t = u) ts))"

text \<open>The join drops users without a trade; \<^verbatim>\<open>HAVING COUNT(t.id) > $2\<close>.\<close>

definition SuspiciousUsers :: "pg_time \<Rightarrow> int \<Rightarrow> int \<Rightarrow> SuspiciousUser list io" where
  "SuspiciousUsers P windowHours0 threshold0 =
     (let windowHours = (if windowHours0 \<le> 0 then 1 else windowHours0);
          threshold = (if threshold0 \<le> 0 then 10 else threshold0) in
      wrapE ''suspicious users'' (sql (bindE get_db (\<lambda>d. bindE (window_start P windowHours) (\<lambda>since.
        ret (sort_key (\<lambda>s. - su_TradeCount s)
          (map (\<lambda>u. \<lparr>su_UserID = u_ID u, su_Email = u_Email u, su_TradeCount = trade_count since (trades d) (u_ID u)\<rparr>)
            (filter (\<lambda>u. 0 < trade_count since (trades d) (u_ID u) \<and> threshold < trade_count since (trades d) (u_ID u)) (users d)))))))))"

definition ListAuditLogs :: "int option \<Rightarrow> string \<Rightarrow> int \<Rightarrow> int \<Rightarrow> (audit_log list \<times> int) io" where
  "ListAuditLogs userID action page0 pageSize0 =
     (let page = clampPage page0; pageSize = clampPageSize pageSize0; offset = pageOffset page pageSize in
      bindE (audit_List userID action pageSize offset) (\<lambda>logs.
      bindE (audit_Count userID action) (\<lambda>count.
      ret (logs, count))))"

record SystemHealth =
  sh_Database :: string
  sh_Redis :: string
  sh_Kafka :: string

fun dial_all :: "(string \<Rightarrow> bool) \<Rightarrow> string list \<Rightarrow> bool" where
  "dial_all dial [] = True"
| "dial_all dial (b # bs) = (if dial b then dial_all dial bs else False)"

definition Health :: "bool \<Rightarrow> bool option \<Rightarrow> (string \<Rightarrow> bool) \<Rightarrow> string list \<Rightarrow> SystemHealth" where
  "Health dbPing redisPing dial brokers =
     \<lparr>sh_Database = (if dbPing then ''UP'' else ''DOWN''),
      sh_Redis = (case redisPing of Some ok \<Rightarrow> if ok then ''UP'' else ''DOWN'' | None \<Rightarrow> ''DISABLED''),
      sh_Kafka = (if brokers = [] then ''DISABLED'' else if dial_all dial brokers then ''UP'' else ''DOWN'')\<rparr>"

section \<open>The audit log\<close>

lemma audit_Create_frame:
  assumes "audit_Create l w = (r, w')"
  shows "\<exists>rows. db w' = (db w)\<lparr>audit_logs := audit_logs (db w) @ rows\<rparr> \<and> now w' = now w \<and> out w' = out w"
proof -
  have "\<exists>rows. db w' = (db w)\<lparr>audit_logs := audit_logs (db w) @ rows\<rparr> \<and> now w' = now w \<and> out w' = out w"
    if "sql (bindE (nextval ''audit_logs'') (\<lambda>i. bindE get_db (\<lambda>d. bindE time_now (\<lambda>t.
        if char_length (l_Action l) > 100 then raise (too_long 100)
        else if (case l_IPAddress l of None \<Rightarrow> False | Some ip \<Rightarrow> char_length ip > 45) then raise (too_long 45)
        else if (case l_UserID l of None \<Rightarrow> False | Some u \<Rightarrow> \<not> list_ex (\<lambda>r. u_ID r = u) (users d))
          then raise (fk_violation ''audit_logs_user_id_fkey'')
        else let r = \<lparr>l_ID = i, l_UserID = l_UserID l, l_Action = l_Action l, l_Details = l_Details l,
               l_IPAddress = l_IPAddress l, l_CreatedAt = t\<rparr>
          in bindE (put_db (d\<lparr>audit_logs := audit_logs d @ [r]\<rparr>)) (\<lambda>_. ret r))))) w = (x, w')" for x
    using that
    by (auto simp: sql_def monad_defs Let_def intro: exI [of _ "[]"] split: list.splits option.splits if_splits)
  with assms show ?thesis by (auto simp: audit_Create_def wrapE_def split: prod.splits sum.splits)
qed

lemma audit_Create_eval:
  assumes "faults w = []" and "char_length (l_Action l) \<le> 100" and "l_IPAddress l = None" and "l_UserID l = Some u"
    and "u \<in> u_ID ` set (users (db w))"
  shows "audit_Create l w = (let r = \<lparr>l_ID = seqs w ''audit_logs'', l_UserID = Some u, l_Action = l_Action l,
             l_Details = l_Details l, l_IPAddress = None, l_CreatedAt = now w\<rparr>
     in (Inr r, w\<lparr>db := (db w)\<lparr>audit_logs := audit_logs (db w) @ [r]\<rparr>,
                  seqs := (seqs w)(''audit_logs'' := seqs w ''audit_logs'' + 1)\<rparr>))"
  using assms by (auto simp: audit_Create_def monad_defs Let_def list_ex_iff)

lemma new_log_ok:
  assumes "schema_ok d s" and "l_ID l = s ''audit_logs''" and "\<And>u. l_UserID l = Some u \<Longrightarrow> list_ex (\<lambda>r. u_ID r = u) (users d)"
  shows "schema_ok (d\<lparr>audit_logs := audit_logs d @ [l]\<rparr>) (s(''audit_logs'' := s ''audit_logs'' + 1))"
proof -
  have "l_ID x < l_ID l" if "x \<in> set (audit_logs d)" for x using that assms(1,2) by (simp add: schema_ok_def audit_ok_def)
  then have "l_ID l \<notin> l_ID ` set (audit_logs d)" by fastforce
  moreover have "u \<in> u_ID ` set (users d)" if "l_UserID l = Some u" for u
    using assms(3) [OF that] by (force simp: list_ex_iff)
  ultimately have "audit_ok (d\<lparr>audit_logs := audit_logs d @ [l]\<rparr>) (s(''audit_logs'' := s ''audit_logs'' + 1))"
    using assms(1,2) by (auto simp: schema_ok_def audit_ok_def)
  then show ?thesis using assms(1)
    by (simp add: schema_ok_def users_ok_def wallets_ok_def transactions_ok_def assets_ok_def orders_ok_def trades_ok_def portfolios_ok_def portfolio_refs_def)
qed

lemma audit_Create_preserves: "preserves schema_ok (audit_Create l)"
  unfolding audit_Create_def
  by (intro preserves_wrapE preserves_sql)
    (auto simp: preserves_def monad_defs Let_def split: option.splits if_splits intro!: new_log_ok intro: schema.mono)

section \<open>Suspending and activating\<close>

lemma repo_UpdateUserStatus_eval:
  assumes "faults w = []" and "char_length st \<le> 20"
  shows "repo_UpdateUserStatus i st w = (case find (\<lambda>r. u_ID r = i \<and> live r) (users (db w)) of
      None \<Rightarrow> (Inl ErrUserNotFound, w)
    | Some r \<Rightarrow> (Inr (r\<lparr>u_Status := st, u_UpdatedAt := now w\<rparr>), w\<lparr>db := set_user_status i st (now w) (db w)\<rparr>))"
  using assms by (simp add: repo_UpdateUserStatus_def monad_defs split: option.split)

lemma status_lengths [simp]: "length UserStatusActive = 6" "length UserStatusSuspended = 9"
  by (simp_all add: UserStatusActive_def UserStatusSuspended_def)

lemma status_log_simps [simp]:
  "l_UserID (status_log a i st) = Some a" "l_IPAddress (status_log a i st) = None" "char_length (l_Action (status_log a i st)) = 14"
  by (simp_all add: status_log_def)

lemma UpdateUserStatus_eval:
  assumes "faults w = []" and "st = UserStatusActive \<or> st = UserStatusSuspended"
    and "find (\<lambda>r. u_ID r = i \<and> live r) (users (db w)) = Some u" and "a \<in> u_ID ` set (users (db w))"
  shows "UpdateUserStatus a i st w = (Inr (u\<lparr>u_Status := st, u_UpdatedAt := now w\<rparr>),
     w\<lparr>db := (set_user_status i st (now w) (db w))\<lparr>audit_logs := audit_logs (db w) @
          [(status_log a i st)\<lparr>l_ID := seqs w ''audit_logs'', l_CreatedAt := now w\<rparr>]\<rparr>,
       seqs := (seqs w)(''audit_logs'' := seqs w ''audit_logs'' + 1)\<rparr>)"
proof -
  have 1: "repo_UpdateUserStatus i st w = (Inr (u\<lparr>u_Status := st, u_UpdatedAt := now w\<rparr>), w\<lparr>db := set_user_status i st (now w) (db w)\<rparr>)"
    using assms by (subst repo_UpdateUserStatus_eval) auto
  have 2: "audit_Create (status_log a i st) (w\<lparr>db := set_user_status i st (now w) (db w)\<rparr>)
      = (Inr ((status_log a i st)\<lparr>l_ID := seqs w ''audit_logs'', l_CreatedAt := now w\<rparr>),
         w\<lparr>db := (set_user_status i st (now w) (db w))\<lparr>audit_logs := audit_logs (db w) @
          [(status_log a i st)\<lparr>l_ID := seqs w ''audit_logs'', l_CreatedAt := now w\<rparr>]\<rparr>,
       seqs := (seqs w)(''audit_logs'' := seqs w ''audit_logs'' + 1)\<rparr>)"
    using assms by (subst audit_Create_eval [where u = a]) (simp_all add: Let_def status_log_def)
  show ?thesis
    using assms(2) by (auto simp: UpdateUserStatus_def bindE_def attempt_def 1 2 ret_def)
qed

lemma find_key_live:
  "distinct (map k rs) \<Longrightarrow> r \<in> set rs \<Longrightarrow> Q r \<Longrightarrow> find (\<lambda>x. k x = k r \<and> Q x) rs = Some r"
  by (induction rs) (auto simp: image_iff)

lemma upd_where_only_live:
  assumes "schema_ok d s" and "find (\<lambda>r. u_ID r = i \<and> live r) (users d) = Some u"
  shows "upd_where (\<lambda>r. u_ID r = i \<and> live r) f (users d) = map (\<lambda>r. if u_ID r = i then f r else r) (users d)"
proof -
  have "inj_on u_ID (set (users d))" using assms(1) by (simp add: schema_ok_def users_ok_def distinct_map)
  then have "live r" if "r \<in> set (users d)" "u_ID r = i" for r
    using that find_SomeD [OF assms(2)] by (auto dest: inj_onD)
  then show ?thesis by (auto simp: upd_where_def)
qed

lemma suspended_email:
  assumes "schema_ok d s" and "find (\<lambda>r. u_ID r = i \<and> live r) (users d) = Some u"
  shows "find (\<lambda>r. u_Email r = u_Email u \<and> live r) (users (set_user_status i st t d)) = Some (u\<lparr>u_Status := st, u_UpdatedAt := t\<rparr>)"
proof -
  from assms(2) have u: "u \<in> set (users d)" "u_ID u = i" "live u" by (auto dest: find_SomeD)
  have "find (\<lambda>r. u_Email r = u_Email u \<and> live r) (users d) = Some u"
    using assms(1) u by (auto simp: schema_ok_def users_ok_def intro: find_key_live)
  then show ?thesis
    using u by (simp add: set_user_status_def live_def find_upd_where)
qed

lemma Login_found:
  assumes "jwt_signs (as_jwtLib s)" and "faults w = []" and "find (\<lambda>r. u_Email r = lr_Email input \<and> live r) (users (db w)) = Some u"
    and "Verify (as_bcrypt s) (u_PasswordHash u) (lr_Password input)"
  shows "u_Status u = UserStatusSuspended \<Longrightarrow> Login s input w = (Inl ErrAccountSuspended, w)"
    and "u_Status u \<noteq> UserStatusSuspended \<Longrightarrow> \<exists>q. Login s input w = (Inr (u, q), w)"
proof -
  obtain q where "token_pair s (u_ID u) (u_Role u) w = (Inr q, w)"
    using GenerateTokenPair_total [OF assms(1)] by blast
  then show "u_Status u = UserStatusSuspended \<Longrightarrow> Login s input w = (Inl ErrAccountSuspended, w)"
    and "u_Status u \<noteq> UserStatusSuspended \<Longrightarrow> \<exists>q. Login s input w = (Inr (u, q), w)"
    using assms by (simp_all add: Login_def bindE_def attempt_def GetUserByEmail_eval wrapE_def ret_def raise_def)
qed

lemma UpdateUserStatus_login:
  assumes "schema_ok (db w) (seqs w)" and "faults w = []" and "jwt_signs (as_jwtLib s)" and "a \<in> u_ID ` set (users (db w))"
    and "find (\<lambda>r. u_ID r = i \<and> live r) (users (db w)) = Some u"
    and "Verify (as_bcrypt s) (u_PasswordHash u) pw" and st: "st = ''ACTIVE'' \<or> st = ''SUSPENDED''"
  shows "\<exists>w' l. UpdateUserStatus a i st w = (Inr (u\<lparr>u_Status := st, u_UpdatedAt := now w\<rparr>), w')
        \<and> users (db w') = map (\<lambda>r. if u_ID r = i then r\<lparr>u_Status := st, u_UpdatedAt := now w\<rparr> else r) (users (db w))
        \<and> audit_logs (db w') = audit_logs (db w) @ [l] \<and> l_UserID l = Some a
        \<and> l_Action l = (if st = ''ACTIVE'' then ''USER_ACTIVATED'' else ''USER_SUSPENDED'') \<and> l_CreatedAt l = now w
        \<and> (if st = ''SUSPENDED'' then Login s \<lparr>lr_Email = u_Email u, lr_Password = pw\<rparr> w' = (Inl ErrAccountSuspended, w')
           else \<exists>v q. Login s \<lparr>lr_Email = u_Email u, lr_Password = pw\<rparr> w' = (Inr (v, q), w') \<and> u_ID v = i)"
proof -
  let ?u = "u\<lparr>u_Status := st, u_UpdatedAt := now w\<rparr>"
  let ?l = "(status_log a i st)\<lparr>l_ID := seqs w ''audit_logs'', l_CreatedAt := now w\<rparr>"
  let ?w = "w\<lparr>db := (set_user_status i st (now w) (db w))\<lparr>audit_logs := audit_logs (db w) @ [?l]\<rparr>,
       seqs := (seqs w)(''audit_logs'' := seqs w ''audit_logs'' + 1)\<rparr>"
  have e: "UpdateUserStatus a i st w = (Inr ?u, ?w)"
    using st by (intro UpdateUserStatus_eval assms) (auto simp: const_defs)
  have f: "find (\<lambda>r. u_Email r = lr_Email \<lparr>lr_Email = u_Email u, lr_Password = pw\<rparr> \<and> live r) (users (db ?w)) = Some ?u"
    using suspended_email [OF assms(1,5)] by simp
  have u: "u_ID u = i" "live u" using find_SomeD [OF assms(5)] by auto
  note login = Login_found [OF assms(3) _ f]
  have same: "users (db ?w) = map (\<lambda>r. if u_ID r = i then r\<lparr>u_Status := st, u_UpdatedAt := now w\<rparr> else r) (users (db w))"
    using assms(1) assms(5) by (simp add: set_user_status_def upd_where_only_live)
  have act: "l_Action ?l = (if st = ''ACTIVE'' then ''USER_ACTIVATED'' else ''USER_SUSPENDED'')"
    using st by (auto simp: status_log_def const_defs)
  have lg: "if st = ''SUSPENDED'' then Login s \<lparr>lr_Email = u_Email u, lr_Password = pw\<rparr> ?w = (Inl ErrAccountSuspended, ?w)
      else \<exists>v q. Login s \<lparr>lr_Email = u_Email u, lr_Password = pw\<rparr> ?w = (Inr (v, q), ?w) \<and> u_ID v = i"
    using login assms(2,6) u(1) by (auto simp: const_defs)
  show ?thesis
    by (rule exI [of _ ?w], rule exI [of _ ?l]) (intro conjI e same act lg, simp_all)
qed

text \<open>
  Property C22. An administrator's change of a user's status changes that user's status and nothing
  else of the users, leaves one entry in the audit log that names the administrator, and decides
  about the next login with the right password: a suspended user is refused, an active one gets in. A
  status that is neither, and a user who does not exist, are refused and change nothing.
\<close>

theorem UpdateUserStatus_decides_login:
  assumes "schema_ok (db w) (seqs w)" and "faults w = []" and "jwt_signs (as_jwtLib s)" and "a \<in> u_ID ` set (users (db w))"
  shows "if st \<noteq> ''ACTIVE'' \<and> st \<noteq> ''SUSPENDED'' then UpdateUserStatus a i st w = (Inl ErrInvalidStatus, w)
    else case find (\<lambda>r. u_ID r = i \<and> live r) (users (db w)) of
      None \<Rightarrow> UpdateUserStatus a i st w = (Inl ErrUserNotFound, w)
    | Some u \<Rightarrow> \<forall>pw. Verify (as_bcrypt s) (u_PasswordHash u) pw \<longrightarrow>
       (\<exists>w' l. UpdateUserStatus a i st w = (Inr (u\<lparr>u_Status := st, u_UpdatedAt := now w\<rparr>), w')
        \<and> users (db w') = map (\<lambda>r. if u_ID r = i then r\<lparr>u_Status := st, u_UpdatedAt := now w\<rparr> else r) (users (db w))
        \<and> audit_logs (db w') = audit_logs (db w) @ [l] \<and> l_UserID l = Some a
        \<and> l_Action l = (if st = ''ACTIVE'' then ''USER_ACTIVATED'' else ''USER_SUSPENDED'') \<and> l_CreatedAt l = now w
        \<and> (if st = ''SUSPENDED'' then Login s \<lparr>lr_Email = u_Email u, lr_Password = pw\<rparr> w' = (Inl ErrAccountSuspended, w')
           else \<exists>v q. Login s \<lparr>lr_Email = u_Email u, lr_Password = pw\<rparr> w' = (Inr (v, q), w') \<and> u_ID v = i))"
proof (cases "st = ''ACTIVE'' \<or> st = ''SUSPENDED''")
  case False
  then show ?thesis by (simp add: UpdateUserStatus_def raise_def const_defs)
next
  case st: True
  show ?thesis
  proof (cases "find (\<lambda>r. u_ID r = i \<and> live r) (users (db w))")
    case None
    then show ?thesis
      using st assms(2) by (auto simp: UpdateUserStatus_def bindE_def attempt_def repo_UpdateUserStatus_eval raise_def is_panic_def const_defs)
  next
    case (Some u)
    show ?thesis using UpdateUserStatus_login [OF assms Some _ st] st Some by auto
  qed
qed

definition ex_admin_world :: world where
  "ex_admin_world = ex_world\<lparr>db := ex_tables\<lparr>users := [(ex_user 1)\<lparr>u_PasswordHash := ''$p''\<rparr>, (ex_user 2)\<lparr>u_Role := ''admin''\<rparr>]\<rparr>\<rparr>"

lemma ex_admin_world_ok: "schema_ok (db ex_admin_world) (seqs ex_admin_world)" "faults ex_admin_world = []"
  by (simp_all add: ex_admin_world_def schema_defs ex_defs order_row_ok_def idempotency_keys_def numeric_fits_def show_int_def
      show_nat.simps digit_char_def)

theorem UpdateUserStatus_decides_login_witness:
  "\<exists>w'. Login ex_auth \<lparr>lr_Email = ''1@x'', lr_Password = ''p''\<rparr> w' = (Inl ErrAccountSuspended, w') \<and> length (audit_logs (db w')) = 1"
proof -
  have f: "find (\<lambda>r. u_ID r = 1 \<and> live r) (users (db ex_admin_world)) = Some ((ex_user 1)\<lparr>u_PasswordHash := ''$p''\<rparr>)"
    by (simp add: ex_admin_world_def ex_user_def live_def)
  have "Verify (as_bcrypt ex_auth) ''$p'' ''p''" by (simp add: Verify_def ex_bcrypt_def)
  moreover have "2 \<in> u_ID ` set (users (db ex_admin_world))" by (simp add: ex_admin_world_def ex_user_def)
  ultimately obtain w' l where w': "audit_logs (db w') = audit_logs (db ex_admin_world) @ [l]"
      "Login ex_auth \<lparr>lr_Email = u_Email (ex_user 1), lr_Password = ''p''\<rparr> w' = (Inl ErrAccountSuspended, w')"
    using UpdateUserStatus_decides_login [OF ex_admin_world_ok, where s = ex_auth and a = 2 and i = 1 and st = "''SUSPENDED''"]
      f ex_jwt_ok(2) by auto
  have "u_Email (ex_user 1) = ''1@x''" by code_simp
  moreover have "audit_logs (db ex_admin_world) = []" by (simp add: ex_admin_world_def ex_defs)
  ultimately show ?thesis using w' by (intro exI [of _ w']) simp
qed

end
