(* ===== verification/AssetService.thy ===== *)
theory AssetService
  imports Order
begin

text \<open>
  internal/asset: the rest of the repository (asset_repository.go) and the service
  (asset_service.go). Prices and quantities go to the database as the broker wrote them, after a
  check with \<^verbatim>\<open>fmt.Sscanf\<close>. Three things are not part of the repository and are arguments: \<open>pgnum\<close>,
  the reading of a text into a \<^verbatim>\<open>NUMERIC(20,8)\<close> column (a message, or a value that may be \<^verbatim>\<open>NaN\<close>), with
  \<open>pg_ok\<close> its documented behaviour; \<open>coll\<close>, the collation of the database; and \<open>getPrice\<close>, what the
  Redis cache answers.
\<close>

section \<open>\<^verbatim>\<open>fmt.Sscanf(s, "%f", &val)\<close>\<close>

text \<open>A \<^verbatim>\<open>float64\<close>: not a number, an infinity with its sign, or a value.\<close>

datatype float64 = F64_NaN | F64_Inf bool | F64 rat

text \<open>The nearest \<^verbatim>\<open>float64\<close>: 53 bits, no bits below \<open>2 ^ - 1074\<close>, infinite from \<open>2 ^ 1024\<close> on.\<close>

definition f64_round :: "rat \<Rightarrow> float64" where
  "f64_round v = (let y = (if \<bar>v\<bar> < 1 / 2 ^ 1022 then of_int (round_even (v * 2 ^ 1074)) / 2 ^ 1074 else rnd 53 v)
     in if \<bar>y\<bar> \<ge> 2 ^ 1024 then F64_Inf (y < 0) else F64 y)"

text \<open>One character, or as many as there are, out of a set; then the rest of the input.\<close>

definition accept1 :: "string \<Rightarrow> string \<Rightarrow> string \<times> string" where
  "accept1 cs s = (case s of [] \<Rightarrow> ([], []) | c # r \<Rightarrow> if c \<in> set cs then ([c], r) else ([], s))"

definition accepts :: "string \<Rightarrow> string \<Rightarrow> string \<times> string" where
  "accepts cs s = (takeWhile (\<lambda>c. c \<in> set cs) s, dropWhile (\<lambda>c. c \<in> set cs) s)"

text \<open>Three characters in a row, as far as they come; whether all three came.\<close>

definition accept3 :: "string \<Rightarrow> string \<Rightarrow> string \<Rightarrow> string \<Rightarrow> bool \<times> string \<times> string" where
  "accept3 a b c s = (case accept1 a s of (x, s1) \<Rightarrow> if x = [] then (False, [], s1) else
     case accept1 b s1 of (y, s2) \<Rightarrow> if y = [] then (False, x, s2) else
     case accept1 c s2 of (z, s3) \<Rightarrow> (z \<noteq> [], x @ y @ z, s3))"

definition float_rest :: "string \<Rightarrow> string" where
  "float_rest s = (case accept1 ''0'' s of (z, s1) \<Rightarrow>
     case (if z = [] then ([], s1) else accept1 ''xX'' s1) of (x, s2) \<Rightarrow>
     let digits = (if x = [] then ''0123456789_'' else ''0123456789aAbBcCdDeEfF_''); ex = (if x = [] then ''eEpP'' else ''pP'') in
     case accepts digits s2 of (d1, s3) \<Rightarrow>
     case accept1 ''.'' s3 of (p, s4) \<Rightarrow>
     case (if p = [] then ([], s4) else accepts digits s4) of (d2, s5) \<Rightarrow>
     case accept1 ex s5 of (e, s6) \<Rightarrow>
     case (if e = [] then ([], s6) else accept1 ''+-'' s6) of (es, s7) \<Rightarrow>
     case (if e = [] then ([], s7) else accepts ''0123456789_'' s7) of (ed, s8) \<Rightarrow>
       z @ x @ d1 @ p @ d2 @ e @ es @ ed)"

definition floatToken :: "string \<Rightarrow> string" where
  "floatToken s = (case accept3 ''nN'' ''aA'' ''nN'' s of (full, n, s1) \<Rightarrow> if full then n else
     case accept1 ''+-'' s1 of (sg, s2) \<Rightarrow>
     case accept3 ''iI'' ''nN'' ''fF'' s2 of (full, i, s3) \<Rightarrow> if full then n @ sg @ i else
       n @ sg @ i @ float_rest s3)"

text \<open>
  \<^verbatim>\<open>strconv.ParseFloat\<close> on such a token: its numbers are those of \<^verbatim>\<open>SetString\<close>, except that a
  hexadecimal one needs its exponent and a decimal one has no binary exponent; out of range is an error.
\<close>

definition hasX :: "string \<Rightarrow> bool" where
  "hasX s \<longleftrightarrow> CHR ''x'' \<in> set s \<or> CHR ''X'' \<in> set s"

definition hasP :: "string \<Rightarrow> bool" where
  "hasP s \<longleftrightarrow> CHR ''p'' \<in> set s \<or> CHR ''P'' \<in> set s"

definition ParseFloat :: "string \<Rightarrow> float64 option" where
  "ParseFloat s = (let neg = (s \<noteq> [] \<and> hd s = CHR ''-'');
       r = (if s \<noteq> [] \<and> (hd s = CHR ''-'' \<or> hd s = CHR ''+'') then tl s else s) in
     if fst (accept3 ''nN'' ''aA'' ''nN'' s) then Some F64_NaN
     else if fst (accept3 ''iI'' ''nN'' ''fF'' r) then Some (F64_Inf neg)
     else if hasX s \<noteq> hasP s then None
     else case parse_exact s of None \<Rightarrow> None
     | Some (n, m) \<Rightarrow> (case f64_round (if n then - m else m) of F64 v \<Rightarrow> Some (F64 v) | _ \<Rightarrow> None))"

text \<open>\<^verbatim>\<open>strconv.Atoi\<close> of the binary exponent, and \<^verbatim>\<open>math.Ldexp\<close>.\<close>

definition atoi :: "string \<Rightarrow> int option" where
  "atoi s = (let neg = (s \<noteq> [] \<and> hd s = CHR ''-'');
       r = (if s \<noteq> [] \<and> (hd s = CHR ''-'' \<or> hd s = CHR ''+'') then tl s else s);
       n = (if neg then - int (digits_val 0 r) else int (digits_val 0 r))
     in if r = [] \<or> \<not> list_all is_digit r \<or> n < - (2 ^ 63) \<or> n > 2 ^ 63 - 1 then None else Some n)"

definition ldexp :: "float64 \<Rightarrow> int \<Rightarrow> float64" where
  "ldexp f m = (case f of F64 v \<Rightarrow> f64_round (v * 2 powi m) | _ \<Rightarrow> f)"

definition convertFloat :: "string \<Rightarrow> float64 option" where
  "convertFloat s = (if CHR ''p'' \<in> set s \<and> \<not> hasX s then
       (case ParseFloat (takeWhile (\<lambda>c. c \<noteq> CHR ''p'') s) of None \<Rightarrow> None
        | Some f \<Rightarrow> (case atoi (tl (dropWhile (\<lambda>c. c \<noteq> CHR ''p'') s)) of None \<Rightarrow> None | Some m \<Rightarrow> Some (ldexp f m)))
     else ParseFloat s)"

text \<open>Leading blanks are skipped; at the end of the input or of the line there is an error; what follows the number is not looked at.\<close>

definition blanks :: string where
  "blanks = [CHR '' '', CHR 0x09, CHR 0x0B, CHR 0x0C, CHR 0x0D]"

definition Sscanf_f :: "string \<Rightarrow> float64 option" where
  "Sscanf_f s = (case dropWhile (\<lambda>c. c \<in> set blanks) s of [] \<Rightarrow> None
     | c # r \<Rightarrow> if c = CHR 0x0A then None else convertFloat (floatToken (c # r)))"

text \<open>\<^verbatim>\<open>val <= 0\<close>, false for \<^verbatim>\<open>NaN\<close>.\<close>

definition f64_le0 :: "float64 \<Rightarrow> bool" where
  "f64_le0 f = (case f of F64_NaN \<Rightarrow> False | F64_Inf neg \<Rightarrow> neg | F64 v \<Rightarrow> v \<le> 0)"

section \<open>Repository\<close>

definition pg_ok :: "(string \<Rightarrow> string + price) \<Rightarrow> bool" where
  "pg_ok pgnum \<longleftrightarrow> (\<forall>s n. pgnum s = Inr (Some n) \<longrightarrow> numeric_fits n)
     \<and> (\<forall>s n. numeric_in s = Some n \<longrightarrow> pgnum s = Inr (Some n)) \<and> pgnum ''NaN'' = Inr None"

definition to_price :: "(string \<Rightarrow> string + price) \<Rightarrow> string \<Rightarrow> price io" where
  "to_price pgnum s = (case pgnum s of Inl msg \<Rightarrow> raise (DBError msg) | Inr p \<Rightarrow> ret p)"

definition price_negative :: "price \<Rightarrow> bool" where
  "price_negative p = (case p of None \<Rightarrow> False | Some n \<Rightarrow> n < 0)"

text \<open>The checks of the columns that an asset row is written to.\<close>

definition asset_checks :: "string asset \<Rightarrow> price \<Rightarrow> price \<Rightarrow> error option" where
  "asset_checks a p q =
     (if char_length (a_Name a) > 255 then Some (DBError ''pq: value too long for type character varying(255)'')
      else if char_length (a_Symbol a) > 50 \<or> char_length (a_Status a) > 50 then Some (DBError ''pq: value too long for type character varying(50)'')
      else if price_negative p then Some (check_violation ''assets_price_check'')
      else if price_negative q then Some (check_violation ''assets_quantity_check'') else None)"

definition asset_Create :: "(string \<Rightarrow> string + price) \<Rightarrow> string asset \<Rightarrow> string asset io" where
  "asset_Create pgnum a = wrapE ''asset create'' (sql
     (bindE (nextval ''assets'') (\<lambda>i.
      bindE get_db (\<lambda>d.
      bindE time_now (\<lambda>t.
      bindE (to_price pgnum (a_Price a)) (\<lambda>p.
      bindE (to_price pgnum (a_Quantity a)) (\<lambda>q.
        case asset_checks a p q of Some e \<Rightarrow> raise e
        | None \<Rightarrow>
            if list_ex (\<lambda>r. a_Symbol r = a_Symbol a) (assets d) then raise (unique_violation ''assets_symbol_key'')
            else if \<not> list_ex (\<lambda>u. u_ID u = a_BrokerID a) (users d) then raise (fk_violation ''assets_broker_id_fkey'')
            else let r = \<lparr>a_ID = i, a_BrokerID = a_BrokerID a, a_Symbol = a_Symbol a, a_Name = a_Name a,
                   a_Description = a_Description a, a_Price = p, a_Quantity = q, a_Status = a_Status a,
                   a_CreatedAt = t, a_UpdatedAt = t\<rparr>
              in bindE (put_db (d\<lparr>assets := assets d @ [r]\<rparr>)) (\<lambda>_. ret (scan_asset r)))))))))"

definition set_asset :: "string asset \<Rightarrow> price \<Rightarrow> price \<Rightarrow> int \<Rightarrow> tables \<Rightarrow> tables" where
  "set_asset a p q t d = d\<lparr>assets := upd_where (\<lambda>r. a_ID r = a_ID a \<and> a_BrokerID r = a_BrokerID a)
     (\<lambda>r. r\<lparr>a_Name := a_Name a, a_Description := a_Description a, a_Price := p, a_Quantity := q,
            a_Status := a_Status a, a_UpdatedAt := t\<rparr>) (assets d)\<rparr>"

definition asset_Update :: "(string \<Rightarrow> string + price) \<Rightarrow> string asset \<Rightarrow> string asset io" where
  "asset_Update pgnum a =
     bindE (wrapE ''asset update'' (sql
       (bindE get_db (\<lambda>d.
        bindE time_now (\<lambda>t.
        bindE (to_price pgnum (a_Price a)) (\<lambda>p.
        bindE (to_price pgnum (a_Quantity a)) (\<lambda>q.
          case find (\<lambda>r. a_ID r = a_ID a \<and> a_BrokerID r = a_BrokerID a) (assets d) of
            None \<Rightarrow> ret None
          | Some r \<Rightarrow> (case asset_checks (a\<lparr>a_Symbol := []\<rparr>) p q of Some e \<Rightarrow> raise e
              | None \<Rightarrow> bindE (put_db (set_asset a p q t d)) (\<lambda>_.
                  ret (Some (scan_asset (r\<lparr>a_Name := a_Name a, a_Description := a_Description a, a_Price := p,
                    a_Quantity := q, a_Status := a_Status a, a_UpdatedAt := t\<rparr>))))))))))))
       (\<lambda>r. case r of None \<Rightarrow> raise ErrAssetNotFound | Some r \<Rightarrow> ret r)"

definition ListActive :: "(string \<Rightarrow> int) \<Rightarrow> string asset list io" where
  "ListActive coll = wrapE ''asset list active'' (sql
     (bindE get_db (\<lambda>d. ret (map scan_asset (sort_key (\<lambda>r. coll (a_Symbol r)) (filter (\<lambda>r. a_Status r = AssetStatusActive) (assets d)))))))"

section \<open>Service\<close>

record CreateAssetInput =
  ca_Symbol :: string
  ca_Name :: string
  ca_Description :: "string option"
  ca_Price :: string
  ca_Quantity :: string

record UpdateAssetInput =
  ua_Name :: "string option"
  ua_Description :: "string option"
  ua_Price :: "string option"
  ua_Quantity :: "string option"

definition validatePositiveDecimal :: "string \<Rightarrow> bool" where
  "validatePositiveDecimal s = (if s = [] then False
     else case Sscanf_f s of None \<Rightarrow> False | Some val \<Rightarrow> \<not> f64_le0 val)"

definition contains :: "string \<Rightarrow> string \<Rightarrow> bool" where
  "contains s sub = (length s \<ge> length sub \<and> (s = sub
     \<or> list_ex (\<lambda>i. take (length sub) (drop i s) = sub) [0 ..< length s - length sub + 1]))"

definition isDuplicateKeyError :: "error \<Rightarrow> bool" where
  "isDuplicateKeyError err = (contains (error_text err) ''23505'' \<or> contains (error_text err) ''unique'')"

text \<open>\<^verbatim>\<open>fmt.Errorf("%w: price must be > 0", ErrInvalidAssetData)\<close>: the sentinel is wrapped, the text comes after it.\<close>

definition invalid_asset :: "string \<Rightarrow> error" where
  "invalid_asset what = WrapAfter ErrInvalidAssetData what"

definition CreateAsset :: "(string \<Rightarrow> string + price) \<Rightarrow> int \<Rightarrow> CreateAssetInput \<Rightarrow> string asset io" where
  "CreateAsset pgnum brokerID input =
     bindE (check (validatePositiveDecimal (ca_Price input)) (invalid_asset ''price must be > 0'')) (\<lambda>_.
     bindE (check (validatePositiveDecimal (ca_Quantity input)) (invalid_asset ''quantity must be > 0'')) (\<lambda>_.
     bindE (attempt (asset_Create pgnum \<lparr>a_ID = 0, a_BrokerID = brokerID, a_Symbol = ca_Symbol input, a_Name = ca_Name input,
              a_Description = ca_Description input, a_Price = ca_Price input, a_Quantity = ca_Quantity input,
              a_Status = AssetStatusActive, a_CreatedAt = zero_time, a_UpdatedAt = zero_time\<rparr>)) (\<lambda>r.
       case r of
         Inl e \<Rightarrow> if isDuplicateKeyError e then raise ErrDuplicateSymbol else raise (Wrapf ''create asset'' e)
       | Inr created \<Rightarrow> bindE (emit (SetPrice (a_ID created) (a_Price created))) (\<lambda>_. ret created))))"

text \<open>The asset of the broker, to be changed: the same lines in \<^verbatim>\<open>UpdateAsset\<close> and \<^verbatim>\<open>DisableAsset\<close>.\<close>

definition owned_asset :: "string \<Rightarrow> int \<Rightarrow> int \<Rightarrow> string asset io" where
  "owned_asset ctx brokerID assetID =
     bindE (attempt (asset_GetByID assetID)) (\<lambda>r. case r of
       Inl e \<Rightarrow> if errors_Is e ErrAssetNotFound then raise ErrAssetNotFound else raise (Wrapf ctx e)
     | Inr existing \<Rightarrow> if a_BrokerID existing \<noteq> brokerID then raise ErrNotAssetOwner else ret existing)"

definition apply_input :: "UpdateAssetInput \<Rightarrow> string asset \<Rightarrow> string asset io" where
  "apply_input input existing =
     (let e1 = existing\<lparr>a_Name := (case ua_Name input of None \<Rightarrow> a_Name existing | Some n \<Rightarrow> n),
                a_Description := (case ua_Description input of None \<Rightarrow> a_Description existing | Some x \<Rightarrow> Some x)\<rparr> in
      bindE (check (case ua_Price input of None \<Rightarrow> True | Some p \<Rightarrow> validatePositiveDecimal p) (invalid_asset ''price must be > 0'')) (\<lambda>_.
      bindE (check (case ua_Quantity input of None \<Rightarrow> True | Some q \<Rightarrow> validatePositiveDecimal q) (invalid_asset ''quantity must be > 0'')) (\<lambda>_.
      ret (e1\<lparr>a_Price := (case ua_Price input of None \<Rightarrow> a_Price existing | Some p \<Rightarrow> p),
              a_Quantity := (case ua_Quantity input of None \<Rightarrow> a_Quantity existing | Some q \<Rightarrow> q)\<rparr>))))"

definition UpdateAsset :: "(string \<Rightarrow> string + price) \<Rightarrow> int \<Rightarrow> int \<Rightarrow> UpdateAssetInput \<Rightarrow> string asset io" where
  "UpdateAsset pgnum brokerID assetID input =
     bindE (owned_asset ''update asset: get'' brokerID assetID) (\<lambda>existing.
     bindE (apply_input input existing) (\<lambda>changed.
     bindE (wrapE ''update asset: save'' (asset_Update pgnum changed)) (\<lambda>updated.
     bindE (emit (InvalidatePrice (a_ID updated))) (\<lambda>_.
     bindE (emit (SetPrice (a_ID updated) (a_Price updated))) (\<lambda>_.
     ret updated)))))"

definition DisableAsset :: "(string \<Rightarrow> string + price) \<Rightarrow> int \<Rightarrow> int \<Rightarrow> string asset io" where
  "DisableAsset pgnum brokerID assetID =
     bindE (owned_asset ''disable asset: get'' brokerID assetID) (\<lambda>existing.
     bindE (wrapE ''disable asset: save'' (asset_Update pgnum (existing\<lparr>a_Status := AssetStatusDisabled\<rparr>))) (\<lambda>updated.
     bindE (emit (InvalidatePrice (a_ID updated))) (\<lambda>_.
     ret updated)))"

text \<open>The price of the cache, if it has one; if not it is put there.\<close>

definition cached_price :: "(int \<Rightarrow> string option) \<Rightarrow> string asset \<Rightarrow> string asset io" where
  "cached_price getPrice a = (case getPrice (a_ID a) of
     Some cached \<Rightarrow> ret (a\<lparr>a_Price := cached\<rparr>)
   | None \<Rightarrow> bindE (emit (SetPrice (a_ID a) (a_Price a))) (\<lambda>_. ret a))"

definition GetAsset :: "(int \<Rightarrow> string option) \<Rightarrow> int \<Rightarrow> string asset io" where
  "GetAsset getPrice i = bindE (asset_GetByID i) (cached_price getPrice)"

fun cached_prices :: "(int \<Rightarrow> string option) \<Rightarrow> string asset list \<Rightarrow> string asset list io" where
  "cached_prices getPrice [] = ret []"
| "cached_prices getPrice (a # as) = bindE (cached_price getPrice a) (\<lambda>b. bindE (cached_prices getPrice as) (\<lambda>bs. ret (b # bs)))"

definition ListActiveAssets :: "(string \<Rightarrow> int) \<Rightarrow> (int \<Rightarrow> string option) \<Rightarrow> string asset list io" where
  "ListActiveAssets coll getPrice = bindE (ListActive coll) (cached_prices getPrice)"

section \<open>The repository keeps the constraints\<close>

lemma set_asset_frame [simp]:
  "users (set_asset a p q t d) = users d" "wallets (set_asset a p q t d) = wallets d"
  "wallet_transactions (set_asset a p q t d) = wallet_transactions d" "orders (set_asset a p q t d) = orders d"
  "trades (set_asset a p q t d) = trades d" "portfolios (set_asset a p q t d) = portfolios d"
  "audit_logs (set_asset a p q t d) = audit_logs d"
  by (simp_all add: set_asset_def)

lemma set_asset_keys [simp]:
  "map a_ID (assets (set_asset a p q t d)) = map a_ID (assets d)"
  "map a_Symbol (assets (set_asset a p q t d)) = map a_Symbol (assets d)"
  by (simp_all add: set_asset_def map_upd_where_same)

lemma set_asset_ids [simp]: "a_ID ` set (assets (set_asset a p q t d)) = a_ID ` set (assets d)"
  by (metis list.set_map set_asset_keys(1))

lemma to_price_Inr [simp]: "to_price pgnum s w = (Inr p, w') \<longleftrightarrow> pgnum s = Inr p \<and> w' = w"
  by (auto simp: to_price_def ret_def raise_def split: sum.splits)

lemma pg_price_ok: "pg_ok pgnum \<Longrightarrow> pgnum s = Inr p \<Longrightarrow> \<not> price_negative p \<Longrightarrow> price_ok p"
  by (cases p) (auto simp: pg_ok_def price_negative_def price_ok_def)

lemma asset_checks_None: "asset_checks a p q = None \<Longrightarrow> \<not> price_negative p \<and> \<not> price_negative q"
  by (auto simp: asset_checks_def split: if_splits)

lemma set_asset_ok:
  assumes "schema_ok d s" and "price_ok p" and "price_ok q"
  shows "schema_ok (set_asset a p q t d) s"
proof -
  have "\<forall>r \<in> set (assets (set_asset a p q t d)). a_ID r < s ''assets'' \<and> price_ok (a_Price r) \<and> price_ok (a_Quantity r)
      \<and> a_BrokerID r \<in> u_ID ` set (users d)"
  proof
    fix r assume "r \<in> set (assets (set_asset a p q t d))"
    then obtain x where x: "x \<in> set (assets d)" "a_ID r = a_ID x" "a_BrokerID r = a_BrokerID x"
      "a_Price r = a_Price x \<and> a_Quantity r = a_Quantity x \<or> a_Price r = p \<and> a_Quantity r = q"
      by (auto simp: set_asset_def set_upd_where)
    with assms show "a_ID r < s ''assets'' \<and> price_ok (a_Price r) \<and> price_ok (a_Quantity r) \<and> a_BrokerID r \<in> u_ID ` set (users d)"
      by (auto simp: schema_ok_def assets_ok_def)
  qed
  with assms(1) show ?thesis
    by (simp add: schema_ok_def users_ok_def wallets_ok_def transactions_ok_def assets_ok_def orders_ok_def trades_ok_def portfolios_ok_def portfolio_refs_def audit_ok_def)
qed

lemma new_asset_ok:
  assumes "schema_ok d s" and "a_ID r = s ''assets''" and "\<not> list_ex (\<lambda>x. a_Symbol x = a_Symbol r) (assets d)"
    and "list_ex (\<lambda>u. u_ID u = a_BrokerID r) (users d)" and "price_ok (a_Price r)" and "price_ok (a_Quantity r)"
  shows "schema_ok (d\<lparr>assets := assets d @ [r]\<rparr>) (s(''assets'' := s ''assets'' + 1))"
proof -
  have "a_ID r \<notin> a_ID ` set (assets d)" using assms(1,2) by (fastforce simp: schema_ok_def assets_ok_def)
  moreover have "a_Symbol r \<notin> a_Symbol ` set (assets d)" "a_BrokerID r \<in> u_ID ` set (users d)"
    using assms(3,4) by (force simp: list_ex_iff)+
  ultimately have "assets_ok (d\<lparr>assets := assets d @ [r]\<rparr>) (s(''assets'' := s ''assets'' + 1))"
    using assms(1,2,5,6) by (auto simp: schema_ok_def assets_ok_def)
  then show ?thesis using assms(1)
    by (auto simp: schema_ok_def users_ok_def wallets_ok_def transactions_ok_def orders_ok_def trades_ok_def portfolios_ok_def portfolio_refs_def audit_ok_def)
qed

lemma preserves_to_price [intro, simp]: "preserves I (to_price pgnum s)"
  by (auto simp: to_price_def split: sum.splits)

lemma asset_Create_preserves: "pg_ok pgnum \<Longrightarrow> preserves schema_ok (asset_Create pgnum a)"
  unfolding asset_Create_def
  by (intro preserves_wrapE preserves_sql)
    (auto simp: preserves_def nextval_def get_db_def time_now_def put_db_def bindE_def ret_def raise_def to_price_def Let_def
      split: sum.splits option.splits if_splits dest!: asset_checks_None intro!: new_asset_ok intro: pg_price_ok schema.mono)

lemma asset_Update_preserves: "pg_ok pgnum \<Longrightarrow> preserves schema_ok (asset_Update pgnum a)"
proof -
  assume pg: "pg_ok pgnum"
  have "preserves schema_ok (bindE get_db (\<lambda>d. bindE time_now (\<lambda>t. bindE (to_price pgnum (a_Price a)) (\<lambda>p.
        bindE (to_price pgnum (a_Quantity a)) (\<lambda>q.
          case find (\<lambda>r. a_ID r = a_ID a \<and> a_BrokerID r = a_BrokerID a) (assets d) of
            None \<Rightarrow> ret None
          | Some r \<Rightarrow> (case asset_checks (a\<lparr>a_Symbol := []\<rparr>) p q of Some e \<Rightarrow> raise e
              | None \<Rightarrow> bindE (put_db (set_asset a p q t d)) (\<lambda>_.
                  ret (Some (scan_asset (r\<lparr>a_Name := a_Name a, a_Description := a_Description a, a_Price := p,
                    a_Quantity := q, a_Status := a_Status a, a_UpdatedAt := t\<rparr>)))))))))) "
    by (auto simp: preserves_def get_db_def time_now_def put_db_def bindE_def ret_def raise_def to_price_def
      split: sum.splits option.splits if_splits dest!: asset_checks_None intro!: set_asset_ok intro: pg_price_ok [OF pg])
  from preserves_wrapE [OF preserves_sql [OF this]] show ?thesis
    unfolding asset_Update_def by (rule preserves_bindE) (intro preserves_rules)
qed

lemma owned_asset_preserves: "preserves I (owned_asset c b i)"
  unfolding owned_asset_def by (intro preserves_rules asset_GetByID_preserves)

lemma owned_asset_row:
  assumes "owned_asset c b i w = (Inr ex, w')"
  shows "db w' = db w \<and> seqs w' = seqs w \<and> a_Status ex \<in> a_Status ` set (assets (db w))"
proof -
  from assms obtain y where "attempt (asset_GetByID i) w = (Inr y, w')" "y = Inr ex"
    by (auto simp: owned_asset_def bindE_Inr) (auto split: sum.splits if_splits)
  then have g: "asset_GetByID i w = (Inr ex, w')" by simp
  obtain r where r: "find (\<lambda>r. a_ID r = i) (assets (db w)) = Some r" "ex = scan_asset r"
    using obliviousD [OF asset_GetByID_oblivious g] asset_GetByID_eval [of "w\<lparr>faults := []\<rparr>" i] by (auto split: option.splits)
  have "db w' = db w \<and> seqs w' = seqs w"
    using preservesD [OF asset_GetByID_preserves [where I = "\<lambda>d s. d = db w \<and> s = seqs w"] g] by simp
  with r find_SomeD [OF r(1)] show ?thesis by (auto simp: scan_asset_def)
qed

lemma AssetService_preserves:
  assumes "pg_ok pgnum"
  shows "preserves schema_ok (CreateAsset pgnum b ci)" "preserves schema_ok (UpdateAsset pgnum b i ui)"
    "preserves schema_ok (DisableAsset pgnum b i)"
  unfolding CreateAsset_def UpdateAsset_def DisableAsset_def apply_input_def
  by (intro preserves_rules owned_asset_preserves asset_Create_preserves asset_Update_preserves assms)+

section \<open>Properties\<close>

text \<open>Whole numbers are read exactly.\<close>

lemma f64_whole: "0 < k \<Longrightarrow> k < 2 ^ 53 \<Longrightarrow> f64_round (of_int k) = F64 (of_int k)"
proof -
  assume k: "0 < k" "k < 2 ^ 53"
  have "\<not> \<bar>of_int k\<bar> < (1 :: rat) / 2 ^ 1022"
  proof -
    have "(1 :: rat) / 2 ^ 1022 \<le> 1" by (rule divide_le_eq_1_pos [THEN iffD2]) simp_all
    moreover have "(1 :: rat) \<le> of_int k" using k(1) by simp
    ultimately show ?thesis using k(1) by linarith
  qed
  moreover have "rnd 53 (of_int k) = of_int k" using k by (intro rnd_of_int) simp
  moreover have "\<not> \<bar>of_int k\<bar> \<ge> (2 :: rat) ^ 1024"
  proof -
    have "(of_int k :: rat) < of_int (2 ^ 53)" using k(2) by (simp only: of_int_less_iff)
    also have "\<dots> \<le> 2 ^ 1024" unfolding of_int_power of_int_numeral by (rule power_increasing) simp_all
    finally show ?thesis using k(1) by simp
  qed
  ultimately show ?thesis unfolding f64_round_def Let_def by simp
qed

lemma validate_whole:
  assumes "s \<noteq> []" and "dropWhile (\<lambda>c. c \<in> set blanks) s = c # r" and "c \<noteq> CHR 0x0A" and "floatToken (c # r) = tok"
    and "CHR ''p'' \<notin> set tok" and "hasX tok = hasP tok" and "parse_exact tok = Some (False, of_int k)" and "0 < k" and "k < 2 ^ 53"
    and "\<not> fst (accept3 ''nN'' ''aA'' ''nN'' tok)" and "\<not> fst (accept3 ''iI'' ''nN'' ''fF'' tok)" and "hd tok \<noteq> CHR ''-''" and "hd tok \<noteq> CHR ''+''"
  shows "validatePositiveDecimal s"
  using assms by (simp add: validatePositiveDecimal_def Sscanf_f_def convertFloat_def ParseFloat_def f64_whole f64_le0_def)

lemma validate_examples: "validatePositiveDecimal ''7''" "validatePositiveDecimal ''2''" "validatePositiveDecimal ''NaN''"
proof -
  have t: "floatToken ''7'' = ''7''" "floatToken ''2'' = ''2''" by code_simp+
  have p: "parse_exact ''7'' = Some (False, of_int 7)" "parse_exact ''2'' = Some (False, of_int 2)" by code_simp+
  show "validatePositiveDecimal ''7''"
    by (rule validate_whole [OF _ _ _ t(1) _ _ p(1)]) (simp_all add: blanks_def hasX_def hasP_def accept3_def accept1_def)
  show "validatePositiveDecimal ''2''"
    by (rule validate_whole [OF _ _ _ t(2) _ _ p(2)]) (simp_all add: blanks_def hasX_def hasP_def accept3_def accept1_def)
  have "floatToken ''NaN'' = ''NaN''" by code_simp
  then show "validatePositiveDecimal ''NaN''"
    by (simp add: validatePositiveDecimal_def Sscanf_f_def blanks_def convertFloat_def ParseFloat_def accept3_def accept1_def f64_le0_def)
qed

lemma asset_by_id:
  "schema_ok d s \<Longrightarrow> r \<in> set (assets d) \<Longrightarrow> find (\<lambda>x. a_ID x = a_ID r) (assets d) = Some r"
  by (auto simp: schema_ok_def assets_ok_def intro!: find_key)

definition new_asset_row :: "int \<Rightarrow> CreateAssetInput \<Rightarrow> price \<Rightarrow> price \<Rightarrow> world \<Rightarrow> price asset" where
  "new_asset_row b inp p q w = \<lparr>a_ID = seqs w ''assets'', a_BrokerID = b, a_Symbol = ca_Symbol inp, a_Name = ca_Name inp,
     a_Description = ca_Description inp, a_Price = p, a_Quantity = q, a_Status = AssetStatusActive,
     a_CreatedAt = now w, a_UpdatedAt = now w\<rparr>"

definition asset_input_ok :: "(string \<Rightarrow> string + price) \<Rightarrow> CreateAssetInput \<Rightarrow> price \<Rightarrow> price \<Rightarrow> bool" where
  "asset_input_ok pgnum inp p q \<longleftrightarrow> validatePositiveDecimal (ca_Price inp) \<and> validatePositiveDecimal (ca_Quantity inp)
     \<and> pgnum (ca_Price inp) = Inr p \<and> pgnum (ca_Quantity inp) = Inr q \<and> \<not> price_negative p \<and> \<not> price_negative q
     \<and> char_length (ca_Name inp) \<le> 255 \<and> char_length (ca_Symbol inp) \<le> 50"

lemma duplicate_symbol_text: "isDuplicateKeyError (Wrapf ''asset create'' (unique_violation ''assets_symbol_key''))"
  unfolding isDuplicateKeyError_def contains_def unique_violation_def by code_simp

lemma CreateAsset_eval:
  assumes "faults w = []" and "asset_input_ok pgnum inp p q" and "b \<in> u_ID ` set (users (db w))"
  shows "if ca_Symbol inp \<in> a_Symbol ` set (assets (db w))
    then \<exists>w'. CreateAsset pgnum b inp w = (Inl ErrDuplicateSymbol, w') \<and> db w' = db w \<and> out w' = out w
    else \<exists>w'. CreateAsset pgnum b inp w = (Inr (scan_asset (new_asset_row b inp p q w)), w')
      \<and> db w' = (db w)\<lparr>assets := assets (db w) @ [new_asset_row b inp p q w]\<rparr>
      \<and> out w' = out w @ [SetPrice (seqs w ''assets'') (price_out p)]"
proof -
  have st: "char_length AssetStatusActive \<le> 50" by (simp add: const_defs)
  have e: "list_ex (\<lambda>r. a_Symbol r = ca_Symbol inp) (assets (db w)) \<longleftrightarrow> ca_Symbol inp \<in> a_Symbol ` set (assets (db w))"
    "list_ex (\<lambda>u. u_ID u = b) (users (db w))" using assms(3) by (force simp: list_ex_iff)+
  have v: "check (validatePositiveDecimal (ca_Price inp)) x = ret ()" "check (validatePositiveDecimal (ca_Quantity inp)) x = ret ()" for x
    using assms(2) by (simp_all add: asset_input_ok_def check_def)
  have pg: "to_price pgnum (ca_Price inp) = ret p" "to_price pgnum (ca_Quantity inp) = ret q"
    using assms(2) by (simp_all add: asset_input_ok_def to_price_def)
  have ck: "char_length (ca_Name inp) \<le> 255" "char_length (ca_Symbol inp) \<le> 50" "\<not> price_negative p" "\<not> price_negative q"
    using assms(2) by (simp_all add: asset_input_ok_def)
  show ?thesis
  proof (cases "ca_Symbol inp \<in> a_Symbol ` set (assets (db w))")
    case True
    then show ?thesis using e st assms(1) ck duplicate_symbol_text
      by (simp add: CreateAsset_def v asset_Create_def pg asset_checks_def bindE_def attempt_def wrapE_def nextval_def get_db_def
          time_now_def raise_def ret_def is_panic_def unique_violation_def)
  next
    case False
    then show ?thesis using e st assms(1) ck
      by (simp add: CreateAsset_def v asset_Create_def pg asset_checks_def bindE_def attempt_def wrapE_def nextval_def get_db_def
          time_now_def put_db_def emit_def ret_def new_asset_row_def Let_def scan_asset_def)
  qed
qed

text \<open>
  A valid new asset whose symbol is taken is refused with \<^verbatim>\<open>ErrDuplicateSymbol\<close>, and the
  tables and the cache stay as they were; with a free symbol exactly one row is added, active and
  owned by the broker, and its price is put into the cache.
\<close>

theorem CreateAsset_spec:
  assumes "faults w = []" and "asset_input_ok pgnum inp p q" and "b \<in> u_ID ` set (users (db w))"
  shows "if ca_Symbol inp \<in> a_Symbol ` set (assets (db w))
    then \<exists>w'. CreateAsset pgnum b inp w = (Inl ErrDuplicateSymbol, w') \<and> db w' = db w \<and> out w' = out w
    else \<exists>w'. CreateAsset pgnum b inp w = (Inr (scan_asset (new_asset_row b inp p q w)), w')
      \<and> db w' = (db w)\<lparr>assets := assets (db w) @ [new_asset_row b inp p q w]\<rparr>
      \<and> out w' = out w @ [SetPrice (seqs w ''assets'') (price_out p)]"
  using assms by (rule CreateAsset_eval)

text \<open>A reading of texts that behaves as documented, on plain decimals and \<^verbatim>\<open>NaN\<close>.\<close>

definition ex_pgnum :: "string \<Rightarrow> string + price" where
  "ex_pgnum s = (if s = ''NaN'' then Inr None else case numeric_in s of
     Some n \<Rightarrow> Inr (Some n) | None \<Rightarrow> Inl (''pq: invalid input syntax for type numeric: '' @ [CHR 0x22] @ s @ [CHR 0x22]))"

lemma numeric_in_NaN: "numeric_in ''NaN'' = None"
  by code_simp

lemma ex_pgnum_ok: "pg_ok ex_pgnum"
proof -
  have "numeric_fits n" if "numeric_in s = Some n" for s n
    using that by (auto simp: numeric_in_def Let_def split: option.splits if_splits)
  then show ?thesis by (auto simp: pg_ok_def ex_pgnum_def numeric_in_NaN split: if_splits option.splits)
qed

definition ex_asset_input :: "string \<Rightarrow> string \<Rightarrow> CreateAssetInput" where
  "ex_asset_input sb price = \<lparr>ca_Symbol = sb, ca_Name = ''Name'', ca_Description = None, ca_Price = price, ca_Quantity = ''7''\<rparr>"

lemma ex_asset_input_ok: "asset_input_ok ex_pgnum (ex_asset_input ''NEW'' ''2'') (Some 200000000) (Some 700000000)"
  "asset_input_ok ex_pgnum (ex_asset_input ''NEW'' ''NaN'') None (Some 700000000)"
proof -
  have "ex_pgnum ''2'' = Inr (Some 200000000)" "ex_pgnum ''7'' = Inr (Some 700000000)" by code_simp+
  then show "asset_input_ok ex_pgnum (ex_asset_input ''NEW'' ''2'') (Some 200000000) (Some 700000000)"
    "asset_input_ok ex_pgnum (ex_asset_input ''NEW'' ''NaN'') None (Some 700000000)"
    by (simp_all add: asset_input_ok_def ex_asset_input_def price_negative_def validate_examples, simp add: ex_pgnum_def)
qed

theorem CreateAsset_spec_witness:
  "\<exists>a w'. CreateAsset ex_pgnum 2 (ex_asset_input ''NEW'' ''2'') ex_world = (Inr a, w') \<and> length (assets (db w')) = 2"
proof -
  have "2 \<in> u_ID ` set (users (db ex_world))" by (simp add: ex_defs)
  from CreateAsset_spec [OF ex_world_quiet ex_asset_input_ok(1) this] show ?thesis
    by (auto simp: ex_asset_input_def ex_world_def ex_tables_def)
qed

text \<open>
  The check of price and quantity is not one: the price \<^verbatim>\<open>NaN\<close> passes it, for no
  comparison with \<^verbatim>\<open>NaN\<close> holds, and the column takes it, so that an asset is created whose price is no
  number, and listed, and cached, with it.
\<close>

theorem CreateAsset_accepts_NaN:
  assumes "faults w = []" and "pg_ok pgnum" and "b \<in> u_ID ` set (users (db w))" and "ca_Price inp = ''NaN''"
    and "ca_Quantity inp = ''7''" and "char_length (ca_Name inp) \<le> 255" and "char_length (ca_Symbol inp) \<le> 50"
    and "ca_Symbol inp \<notin> a_Symbol ` set (assets (db w))"
  shows "\<exists>a w'. CreateAsset pgnum b inp w = (Inr a, w') \<and> a_Price a = ''NaN'' \<and> a_Status a = AssetStatusActive
    \<and> (\<exists>r \<in> set (assets (db w')). a_Price r = None) \<and> out w' = out w @ [SetPrice (a_ID a) ''NaN'']"
proof -
  have "numeric_in ''7'' = Some 700000000" by code_simp
  then have "asset_input_ok pgnum inp None (Some 700000000)"
    using assms(2,4-7) validate_examples by (auto simp: asset_input_ok_def pg_ok_def price_negative_def)
  from CreateAsset_eval [OF assms(1) this assms(3)] assms(8) show ?thesis
    by (auto simp: new_asset_row_def scan_asset_def price_out_def)
qed

theorem CreateAsset_accepts_NaN_witness:
  "\<exists>a w'. CreateAsset ex_pgnum 2 (ex_asset_input ''NEW'' ''NaN'') ex_world = (Inr a, w') \<and> a_Price a = ''NaN''"
proof -
  have "2 \<in> u_ID ` set (users (db ex_world))" by (simp add: ex_defs)
  from CreateAsset_accepts_NaN [OF ex_world_quiet ex_pgnum_ok this, of "ex_asset_input ''NEW'' ''NaN''"] show ?thesis
    by (auto simp: ex_asset_input_def ex_world_def ex_tables_def)
qed

section \<open>Ownership, and disabled assets\<close>

lemma pg_ok_price_out: "pg_ok pgnum \<Longrightarrow> price_ok p \<Longrightarrow> pgnum (price_out p) = Inr p"
  by (cases p) (auto simp: pg_ok_def price_out_def price_ok_def numeric_in_out)

lemma owned_asset_eval:
  assumes "faults w = []"
  shows "owned_asset c b i w = (case find (\<lambda>r. a_ID r = i) (assets (db w)) of None \<Rightarrow> Inl ErrAssetNotFound
     | Some r \<Rightarrow> if a_BrokerID r \<noteq> b then Inl ErrNotAssetOwner else Inr (scan_asset r), w)"
  using assms by (auto simp: owned_asset_def bindE_def attempt_def asset_GetByID_eval is_panic_def raise_def ret_def split: option.split)

lemma DisableAsset_eval:
  assumes "schema_ok (db w) (seqs w)" and "faults w = []" and "pg_ok pgnum" and "r \<in> set (assets (db w))" and "char_length (a_Name r) \<le> 255"
  shows "DisableAsset pgnum (a_BrokerID r) (a_ID r) w =
    (Inr (scan_asset (r\<lparr>a_Status := AssetStatusDisabled, a_UpdatedAt := now w\<rparr>)),
     w\<lparr>db := (db w)\<lparr>assets := upd_where (\<lambda>x. a_ID x = a_ID r) (\<lambda>x. x\<lparr>a_Status := AssetStatusDisabled, a_UpdatedAt := now w\<rparr>) (assets (db w))\<rparr>,
        out := out w @ [InvalidatePrice (a_ID r)]\<rparr>)"
proof -
  let ?a = "(scan_asset r)\<lparr>a_Status := AssetStatusDisabled\<rparr>"
  have f: "find (\<lambda>x. a_ID x = a_ID r) (assets (db w)) = Some r" by (rule asset_by_id [OF assms(1,4)])
  have ok: "price_ok (a_Price r)" "price_ok (a_Quantity r)" using assms(1,4) by (auto simp: schema_ok_def assets_ok_def)
  then have np: "\<not> price_negative (a_Price r)" "\<not> price_negative (a_Quantity r)"
    by (auto simp: price_ok_def price_negative_def split: option.splits)
  have uniq: "x = r" if "x \<in> set (assets (db w))" "a_ID x = a_ID r" for x
    using that assms(1,4) by (auto simp: schema_ok_def assets_ok_def distinct_map inj_on_def)
  have f2: "find (\<lambda>x. a_ID x = a_ID r \<and> a_BrokerID x = a_BrokerID r) (assets (db w)) = Some r"
  proof -
    have "find (\<lambda>x. a_ID x = a_ID r \<and> a_BrokerID x = a_BrokerID r) (assets (db w)) = find (\<lambda>x. a_ID x = a_ID r) (assets (db w))"
      using uniq by (intro find_cong) auto
    with f show ?thesis by simp
  qed
  have set: "set_asset ?a (a_Price r) (a_Quantity r) (now w) (db w) = (db w)\<lparr>assets := upd_where (\<lambda>x. a_ID x = a_ID r)
      (\<lambda>x. x\<lparr>a_Status := AssetStatusDisabled, a_UpdatedAt := now w\<rparr>) (assets (db w))\<rparr>"
    unfolding set_asset_def upd_where_def
  proof (intro arg_cong [where f = "\<lambda>as. assets_update (\<lambda>_. as) (db w)"] map_cong refl)
    fix x assume "x \<in> set (assets (db w))"
    then show "(if a_ID x = a_ID ?a \<and> a_BrokerID x = a_BrokerID ?a then x\<lparr>a_Name := a_Name ?a, a_Description := a_Description ?a,
          a_Price := a_Price r, a_Quantity := a_Quantity r, a_Status := a_Status ?a, a_UpdatedAt := now w\<rparr> else x)
      = (if a_ID x = a_ID r then x\<lparr>a_Status := AssetStatusDisabled, a_UpdatedAt := now w\<rparr> else x)"
      using uniq [of x] by (cases "a_ID x = a_ID r") (simp_all add: scan_asset_def)
  qed
  have "asset_Update pgnum ?a w = (Inr (scan_asset (r\<lparr>a_Status := AssetStatusDisabled, a_UpdatedAt := now w\<rparr>)),
      w\<lparr>db := set_asset ?a (a_Price r) (a_Quantity r) (now w) (db w)\<rparr>)"
    using assms(2,5) f2 np pg_ok_price_out [OF assms(3) ok(1)] pg_ok_price_out [OF assms(3) ok(2)]
    by (simp add: asset_Update_def bindE_def wrapE_def get_db_def time_now_def to_price_def ret_def put_db_def asset_checks_def
        scan_asset_def const_defs)
  then show ?thesis using f
    by (simp add: DisableAsset_def bindE_def owned_asset_eval [OF assms(2)] wrapE_def emit_def ret_def set)
qed

text \<open>
  Assets have one owner: a broker who changes or disables an asset of another broker is
  refused, and nothing changes; for an unknown asset there is \<^verbatim>\<open>ErrAssetNotFound\<close>.
\<close>

theorem asset_ownership:
  assumes "faults w = []" and "\<forall>r \<in> set (assets (db w)). a_ID r = i \<longrightarrow> a_BrokerID r \<noteq> b"
  shows "\<exists>e. (e = ErrAssetNotFound \<or> e = ErrNotAssetOwner) \<and> UpdateAsset pgnum b i inp w = (Inl e, w) \<and> DisableAsset pgnum b i w = (Inl e, w)"
proof (cases "find (\<lambda>r. a_ID r = i) (assets (db w))")
  case None
  then show ?thesis by (simp add: UpdateAsset_def DisableAsset_def bindE_def owned_asset_eval [OF assms(1)])
next
  case (Some r)
  with assms(2) have "a_BrokerID r \<noteq> b" by (auto dest!: find_SomeD)
  with Some show ?thesis by (simp add: UpdateAsset_def DisableAsset_def bindE_def owned_asset_eval [OF assms(1)])
qed

theorem asset_ownership_witness: "DisableAsset ex_pgnum 1 1 ex_world = (Inl ErrNotAssetOwner, ex_world)"
proof -
  have "\<forall>r \<in> set (assets (db ex_world)). a_ID r = 1 \<longrightarrow> a_BrokerID r \<noteq> 1" by (simp add: ex_defs)
  from asset_ownership [OF ex_world_quiet this, of ex_pgnum undefined] have "\<exists>e. DisableAsset ex_pgnum 1 1 ex_world = (Inl e, ex_world)" by blast
  then show ?thesis by (simp add: DisableAsset_def bindE_def owned_asset_eval ex_defs)
qed

text \<open>
  Property C30. Once its owner has disabled an asset, no order for it is accepted any more: whatever
  the request of whatever user, placing an order for the asset fails and changes nothing, unless it
  repeats the key of an order of that user, which is then returned.
\<close>

theorem DisableAsset_stops_orders:
  assumes "schema_ok (db w) (seqs w)" and "faults w = []" and "pg_ok pgnum" and "r \<in> set (assets (db w))" and "char_length (a_Name r) \<le> 255"
    and "pi_AssetID inp = a_ID r" and "key_fresh u (pi_IdempotencyKey inp) (db w)"
  shows "\<exists>a w' e. DisableAsset pgnum (a_BrokerID r) (a_ID r) w = (Inr a, w') \<and> a_Status a = AssetStatusDisabled
    \<and> PlaceOrder u inp w' = (Inl e, w')"
proof -
  let ?s = "\<lambda>x. x\<lparr>a_Status := AssetStatusDisabled, a_UpdatedAt := now w\<rparr>"
  obtain w' where w': "DisableAsset pgnum (a_BrokerID r) (a_ID r) w = (Inr (scan_asset (?s r)), w')" "faults w' = []"
    "db w' = (db w)\<lparr>assets := upd_where (\<lambda>x. a_ID x = a_ID r) ?s (assets (db w))\<rparr>"
    using DisableAsset_eval [OF assms(1-5)] assms(2) by simp
  have f: "find (\<lambda>x. a_ID x = a_ID r) (assets (db w')) = Some (?s r)"
    using asset_by_id [OF assms(1,4)] w'(3) by (simp add: find_upd_where)
  have "key_fresh u (pi_IdempotencyKey inp) (db w')" using assms(7) w'(3) by (simp add: key_fresh_def split: option.splits)
  then have p: "PlaceOrder u inp w' = PlaceOrder_new u inp w'" by (rule PlaceOrder_fresh [OF w'(2)])
  have "\<exists>e. PlaceOrder_validate u inp w' = (Inl e, w')"
    using f assms(6) by (auto simp: PlaceOrder_validate_def bindE_def mapE_def asset_GetByID_eval [OF w'(2)] raise_def check_def ret_def const_defs
        split: option.splits)
  then show ?thesis using w'(1) p by (auto simp: PlaceOrder_new_def bindE_def)
qed

theorem DisableAsset_stops_orders_witness:
  "\<exists>a w' e. DisableAsset ex_pgnum 2 1 ex_world = (Inr a, w') \<and> PlaceOrder 1 (ex_request ''BUY'') w' = (Inl e, w')"
proof -
  let ?r = "hd (assets (db ex_world))"
  have "?r \<in> set (assets (db ex_world))" "char_length (a_Name ?r) \<le> 255" "a_BrokerID ?r = 2" "a_ID ?r = 1" by (simp_all add: ex_world_def ex_tables_def)
  with DisableAsset_stops_orders [OF ex_world_ok ex_world_quiet ex_pgnum_ok, of ?r "ex_request ''BUY''" 1] ex_request_fresh
  show ?thesis by (fastforce simp: ex_request_def)
qed

end
