(* ===== verification/Kafka.thy ===== *)
theory Kafka
  imports Admin AssetService
begin

text \<open>
  internal/kafka, internal/notification and the analytics of internal/redis: events are written as
  JSON documents (producer.go) and read back by the consumers (consumer.go and
  notification/kafka_consumer.go), which write the audit log, print notifications and count trades.
  A document is kept as its tree (whole numbers are all the numbers it has); a point in time in it
  stays a point in time. Reading a document
  into a struct is what \<^verbatim>\<open>encoding/json\<close> does: members are taken in order and matched by name without
  regard to case if there is no exact match, unknown members are skipped, \<^verbatim>\<open>null\<close> leaves a field as it
  is, and a value of another type is an error.
\<close>

section \<open>JSON documents\<close>

datatype json = JNull | JBool bool | JNumber int | JString string | JTime int | JArray "json list" | JObject "(string \<times> json) list"

type_synonym 'r fields = "(string \<times> (json \<Rightarrow> 'r \<Rightarrow> 'r option)) list"

definition to_lower :: "char \<Rightarrow> char" where
  "to_lower c = (if 65 \<le> (of_char c :: nat) \<and> (of_char c :: nat) \<le> 90 then char_of ((of_char c :: nat) + 32) else c)"

definition EqualFold :: "string \<Rightarrow> string \<Rightarrow> bool" where
  "EqualFold s t \<longleftrightarrow> map to_lower s = map to_lower t"

definition find_field :: "'r fields \<Rightarrow> string \<Rightarrow> (json \<Rightarrow> 'r \<Rightarrow> 'r option) option" where
  "find_field fs k = (case map_of fs k of
     Some upd \<Rightarrow> Some upd
   | None \<Rightarrow> map_option snd (find (\<lambda>p. EqualFold (fst p) k) fs))"

fun set_members :: "'r fields \<Rightarrow> (string \<times> json) list \<Rightarrow> 'r \<Rightarrow> 'r option" where
  "set_members fs [] r = Some r"
| "set_members fs ((k, j) # kjs) r = (case find_field fs k of
     None \<Rightarrow> set_members fs kjs r
   | Some upd \<Rightarrow> (case upd j r of None \<Rightarrow> None | Some r' \<Rightarrow> set_members fs kjs r'))"

definition Unmarshal :: "'r fields \<Rightarrow> 'r \<Rightarrow> json \<Rightarrow> 'r option" where
  "Unmarshal fs zero j = (case j of JNull \<Rightarrow> Some zero | JObject kjs \<Rightarrow> set_members fs kjs zero | _ \<Rightarrow> None)"

fun int_field :: "(int \<Rightarrow> 'r \<Rightarrow> 'r) \<Rightarrow> json \<Rightarrow> 'r \<Rightarrow> 'r option" where
  "int_field f (JNumber n) r = (if int64_range n then Some (f n r) else None)"
| "int_field f JNull r = Some r"
| "int_field f j r = None"

fun string_field :: "(string \<Rightarrow> 'r \<Rightarrow> 'r) \<Rightarrow> json \<Rightarrow> 'r \<Rightarrow> 'r option" where
  "string_field f (JString s) r = Some (f s r)"
| "string_field f JNull r = Some r"
| "string_field f j r = None"

fun time_field :: "(int \<Rightarrow> 'r \<Rightarrow> 'r) \<Rightarrow> json \<Rightarrow> 'r \<Rightarrow> 'r option" where
  "time_field f (JTime t) r = Some (f t r)"
| "time_field f JNull r = Some r"
| "time_field f j r = None"

section \<open>events.go\<close>

definition order_event_fields :: "order_event fields" where
  "order_event_fields = [(''order_id'', int_field (\<lambda>x r. r\<lparr>oe_OrderID := x\<rparr>)), (''user_id'', int_field (\<lambda>x r. r\<lparr>oe_UserID := x\<rparr>)),
     (''asset_id'', int_field (\<lambda>x r. r\<lparr>oe_AssetID := x\<rparr>)), (''side'', string_field (\<lambda>x r. r\<lparr>oe_Side := x\<rparr>)),
     (''type'', string_field (\<lambda>x r. r\<lparr>oe_Type := x\<rparr>)), (''price'', string_field (\<lambda>x r. r\<lparr>oe_Price := x\<rparr>)),
     (''quantity'', string_field (\<lambda>x r. r\<lparr>oe_Quantity := x\<rparr>)), (''status'', string_field (\<lambda>x r. r\<lparr>oe_Status := x\<rparr>)),
     (''timestamp'', time_field (\<lambda>x r. r\<lparr>oe_Timestamp := x\<rparr>))]"

definition trade_event_fields :: "trade_event fields" where
  "trade_event_fields = [(''trade_id'', int_field (\<lambda>x r. r\<lparr>te_TradeID := x\<rparr>)), (''buy_order_id'', int_field (\<lambda>x r. r\<lparr>te_BuyOrderID := x\<rparr>)),
     (''sell_order_id'', int_field (\<lambda>x r. r\<lparr>te_SellOrderID := x\<rparr>)), (''asset_id'', int_field (\<lambda>x r. r\<lparr>te_AssetID := x\<rparr>)),
     (''price'', string_field (\<lambda>x r. r\<lparr>te_Price := x\<rparr>)), (''quantity'', string_field (\<lambda>x r. r\<lparr>te_Quantity := x\<rparr>)),
     (''buyer_id'', int_field (\<lambda>x r. r\<lparr>te_BuyerID := x\<rparr>)), (''seller_id'', int_field (\<lambda>x r. r\<lparr>te_SellerID := x\<rparr>)),
     (''timestamp'', time_field (\<lambda>x r. r\<lparr>te_Timestamp := x\<rparr>))]"

definition wallet_event_fields :: "wallet_event fields" where
  "wallet_event_fields = [(''wallet_id'', int_field (\<lambda>x r. r\<lparr>we_WalletID := x\<rparr>)), (''user_id'', int_field (\<lambda>x r. r\<lparr>we_UserID := x\<rparr>)),
     (''balance'', string_field (\<lambda>x r. r\<lparr>we_Balance := x\<rparr>)), (''change_amount'', string_field (\<lambda>x r. r\<lparr>we_ChangeAmount := x\<rparr>)),
     (''transaction_type'', string_field (\<lambda>x r. r\<lparr>we_TransactionType := x\<rparr>)), (''timestamp'', time_field (\<lambda>x r. r\<lparr>we_Timestamp := x\<rparr>))]"

definition zero_order_event :: order_event where
  "zero_order_event = \<lparr>oe_OrderID = 0, oe_UserID = 0, oe_AssetID = 0, oe_Side = [], oe_Type = [], oe_Price = [],
     oe_Quantity = [], oe_Status = [], oe_Timestamp = zero_time\<rparr>"

definition zero_trade_event :: trade_event where
  "zero_trade_event = \<lparr>te_TradeID = 0, te_BuyOrderID = 0, te_SellOrderID = 0, te_AssetID = 0, te_Price = [], te_Quantity = [],
     te_BuyerID = 0, te_SellerID = 0, te_Timestamp = zero_time\<rparr>"

definition zero_wallet_event :: wallet_event where
  "zero_wallet_event = \<lparr>we_WalletID = 0, we_UserID = 0, we_Balance = [], we_ChangeAmount = [], we_TransactionType = [],
     we_Timestamp = zero_time\<rparr>"

fun Marshal :: "payload \<Rightarrow> json" where
  "Marshal (OrderEventPayload p) = JObject [(''order_id'', JNumber (oe_OrderID p)), (''user_id'', JNumber (oe_UserID p)),
     (''asset_id'', JNumber (oe_AssetID p)), (''side'', JString (oe_Side p)), (''type'', JString (oe_Type p)), (''price'', JString (oe_Price p)),
     (''quantity'', JString (oe_Quantity p)), (''status'', JString (oe_Status p)), (''timestamp'', JTime (oe_Timestamp p))]"
| "Marshal (TradeEventPayload p) = JObject [(''trade_id'', JNumber (te_TradeID p)), (''buy_order_id'', JNumber (te_BuyOrderID p)),
     (''sell_order_id'', JNumber (te_SellOrderID p)), (''asset_id'', JNumber (te_AssetID p)), (''price'', JString (te_Price p)),
     (''quantity'', JString (te_Quantity p)), (''buyer_id'', JNumber (te_BuyerID p)), (''seller_id'', JNumber (te_SellerID p)),
     (''timestamp'', JTime (te_Timestamp p))]"
| "Marshal (WalletEventPayload p) = JObject [(''wallet_id'', JNumber (we_WalletID p)), (''user_id'', JNumber (we_UserID p)),
     (''balance'', JString (we_Balance p)), (''change_amount'', JString (we_ChangeAmount p)),
     (''transaction_type'', JString (we_TransactionType p)), (''timestamp'', JTime (we_Timestamp p))]"

text \<open>The payload of a wrapped event is kept unread; \<open>None\<close> if it is missing.\<close>

record WrappedEvent =
  ev_Type :: string
  ev_Timestamp :: int
  ev_Payload :: "json option"

definition wrapped_event_fields :: "WrappedEvent fields" where
  "wrapped_event_fields = [(''type'', string_field (\<lambda>x r. r\<lparr>ev_Type := x\<rparr>)), (''timestamp'', time_field (\<lambda>x r. r\<lparr>ev_Timestamp := x\<rparr>)),
     (''payload'', \<lambda>j r. Some (r\<lparr>ev_Payload := Some j\<rparr>))]"

definition zero_wrapped_event :: WrappedEvent where
  "zero_wrapped_event = \<lparr>ev_Type = [], ev_Timestamp = zero_time, ev_Payload = None\<rparr>"

section \<open>producer.go\<close>

text \<open>The value of the message that \<^verbatim>\<open>PublishEvent\<close> writes at that time.\<close>

definition event_message :: "int \<Rightarrow> string \<Rightarrow> payload \<Rightarrow> json" where
  "event_message t eventType p = JObject [(''type'', JString eventType), (''timestamp'', JTime t), (''payload'', Marshal p)]"

section \<open>The events as the consumers read them\<close>

definition read_wrapper :: "json option \<Rightarrow> WrappedEvent option" where
  "read_wrapper v = (case v of None \<Rightarrow> None | Some j \<Rightarrow> Unmarshal wrapped_event_fields zero_wrapped_event j)"

definition read_order :: "WrappedEvent \<Rightarrow> order_event option" where
  "read_order we = (case ev_Payload we of None \<Rightarrow> None | Some j \<Rightarrow> Unmarshal order_event_fields zero_order_event j)"

definition read_trade :: "WrappedEvent \<Rightarrow> trade_event option" where
  "read_trade we = (case ev_Payload we of None \<Rightarrow> None | Some j \<Rightarrow> Unmarshal trade_event_fields zero_trade_event j)"

definition read_wallet :: "WrappedEvent \<Rightarrow> wallet_event option" where
  "read_wallet we = (case ev_Payload we of None \<Rightarrow> None | Some j \<Rightarrow> Unmarshal wallet_event_fields zero_wallet_event j)"

section \<open>consumer.go: the audit consumer\<close>

definition audit_entry :: "int \<Rightarrow> string \<Rightarrow> string \<Rightarrow> audit_log" where
  "audit_entry userID action details = \<lparr>l_ID = 0, l_UserID = Some userID, l_Action = action, l_Details = Some details,
     l_IPAddress = None, l_CreatedAt = zero_time\<rparr>"

text \<open>An entry that cannot be written is logged, no more.\<close>

definition write_audit :: "int \<Rightarrow> string \<Rightarrow> string \<Rightarrow> unit io" where
  "write_audit userID action details = bindE (attempt (audit_Create (audit_entry userID action details))) (\<lambda>_. ret ())"

definition trade_details :: "string \<Rightarrow> int \<Rightarrow> trade_event \<Rightarrow> string" where
  "trade_details as other p = ''Matched trade #'' @ show_int (te_TradeID p) @ as @ show_int other @ '' for quantity '' @ te_Quantity p
     @ '' of asset #'' @ show_int (te_AssetID p) @ '' at price '' @ te_Price p"

definition audit_handle :: "WrappedEvent \<Rightarrow> unit io" where
  "audit_handle we =
     (if ev_Type we = ''order.created'' then (case read_order we of None \<Rightarrow> ret () | Some p \<Rightarrow>
        write_audit (oe_UserID p) ''ORDER_CREATED'' (''Order #'' @ show_int (oe_OrderID p) @ '' created: '' @ oe_Side p @ '' ''
          @ oe_Quantity p @ '' units of asset #'' @ show_int (oe_AssetID p) @ '' at price '' @ oe_Price p))
      else if ev_Type we = ''order.cancelled'' then (case read_order we of None \<Rightarrow> ret () | Some p \<Rightarrow>
        write_audit (oe_UserID p) ''ORDER_CANCELLED'' (''Order #'' @ show_int (oe_OrderID p) @ '' cancelled''))
      else if ev_Type we = ''trade.executed'' then (case read_trade we of None \<Rightarrow> ret () | Some p \<Rightarrow>
        bindE (write_audit (te_BuyerID p) ''TRADE_EXECUTED'' (trade_details '' as buyer against seller #'' (te_SellerID p) p)) (\<lambda>_.
        write_audit (te_SellerID p) ''TRADE_EXECUTED'' (trade_details '' as seller against buyer #'' (te_BuyerID p) p)))
      else if ev_Type we = ''wallet.updated'' then (case read_wallet we of None \<Rightarrow> ret () | Some p \<Rightarrow>
        write_audit (we_UserID p) ''WALLET_UPDATED'' (''Wallet #'' @ show_int (we_WalletID p) @ '' balance changed by ''
          @ we_ChangeAmount p @ '' due to '' @ we_TransactionType p @ ''. New balance: '' @ we_Balance p))
      else ret ())"

text \<open>
  What reading from the broker gives until the context is done: errors, after which the consumer
  sleeps and goes on, and messages, whose value may be no JSON at all.
\<close>

datatype read = ReadError | Message "json option"

fun audit_consumer :: "read list \<Rightarrow> unit io" where
  "audit_consumer [] = ret ()"
| "audit_consumer (ReadError # rs) = audit_consumer rs"
| "audit_consumer (Message v # rs) = (case read_wrapper v of
     None \<Rightarrow> audit_consumer rs
   | Some we \<Rightarrow> bindE (audit_handle we) (\<lambda>_. audit_consumer rs))"

section \<open>consumer.go: the notification consumer\<close>

text \<open>The line it prints for an event, after a loudspeaker in UTF-8.\<close>

definition loudspeaker :: string where
  "loudspeaker = [CHR 0xF0, CHR 0x9F, CHR 0x93, CHR 0xA2]"

definition notification_lines :: "WrappedEvent \<Rightarrow> string list" where
  "notification_lines we = map (\<lambda>l. loudspeaker @ '' NOTIFICATION: '' @ l)
     (if ev_Type we = ''order.created'' then (case read_order we of None \<Rightarrow> [] | Some p \<Rightarrow>
        [''New order created for User #'' @ show_int (oe_UserID p) @ ''! Order #'' @ show_int (oe_OrderID p) @ '': '' @ oe_Side p @ '' ''
         @ oe_Quantity p @ '' units of Asset #'' @ show_int (oe_AssetID p) @ '' at $'' @ oe_Price p])
      else if ev_Type we = ''order.cancelled'' then (case read_order we of None \<Rightarrow> [] | Some p \<Rightarrow>
        [''Order #'' @ show_int (oe_OrderID p) @ '' cancelled for User #'' @ show_int (oe_UserID p)])
      else if ev_Type we = ''trade.executed'' then (case read_trade we of None \<Rightarrow> [] | Some p \<Rightarrow>
        [''Trade executed! Buyer #'' @ show_int (te_BuyerID p) @ '' matched Seller #'' @ show_int (te_SellerID p) @ '' on ''
         @ te_Quantity p @ '' units of Asset #'' @ show_int (te_AssetID p) @ '' at $'' @ te_Price p])
      else if ev_Type we = ''wallet.updated'' then (case read_wallet we of None \<Rightarrow> [] | Some p \<Rightarrow>
        [''Wallet #'' @ show_int (we_WalletID p) @ '' updated for User #'' @ show_int (we_UserID p) @ ''. Type: ''
         @ we_TransactionType p @ '', Change: $'' @ we_ChangeAmount p @ '', New Balance: $'' @ we_Balance p])
      else [])"

fun notification_consumer :: "read list \<Rightarrow> string list" where
  "notification_consumer [] = []"
| "notification_consumer (ReadError # rs) = notification_consumer rs"
| "notification_consumer (Message v # rs) = (case read_wrapper v of
     None \<Rightarrow> notification_consumer rs
   | Some we \<Rightarrow> notification_lines we @ notification_consumer rs)"

section \<open>internal/notification: the service and its consumer\<close>

definition SendNotification :: "int \<Rightarrow> string \<Rightarrow> string" where
  "SendNotification userID message = loudspeaker @ '' NOTIFICATION [User #'' @ show_int userID @ '']: '' @ message"

definition user_notifications :: "WrappedEvent \<Rightarrow> string list" where
  "user_notifications we =
     (if ev_Type we = ''order.created'' then (case read_order we of None \<Rightarrow> [] | Some p \<Rightarrow>
        [SendNotification (oe_UserID p) (''New order created: '' @ oe_Side p @ '' '' @ oe_Quantity p @ '' units of Asset #''
           @ show_int (oe_AssetID p) @ '' at $'' @ oe_Price p)])
      else if ev_Type we = ''order.cancelled'' then (case read_order we of None \<Rightarrow> [] | Some p \<Rightarrow>
        [SendNotification (oe_UserID p) (''Order #'' @ show_int (oe_OrderID p) @ '' cancelled'')])
      else if ev_Type we = ''trade.executed'' then (case read_trade we of None \<Rightarrow> [] | Some p \<Rightarrow>
        [SendNotification (te_BuyerID p) (''Trade executed! You bought '' @ te_Quantity p @ '' units of Asset #''
           @ show_int (te_AssetID p) @ '' at $'' @ te_Price p),
         SendNotification (te_SellerID p) (''Trade executed! You sold '' @ te_Quantity p @ '' units of Asset #''
           @ show_int (te_AssetID p) @ '' at $'' @ te_Price p)])
      else if ev_Type we = ''wallet.updated'' then (case read_wallet we of None \<Rightarrow> [] | Some p \<Rightarrow>
        [SendNotification (we_UserID p) (''Wallet updated. Type: '' @ we_TransactionType p @ '', Change: $'' @ we_ChangeAmount p
           @ '', New Balance: $'' @ we_Balance p)])
      else [])"

fun user_notification_consumer :: "read list \<Rightarrow> string list" where
  "user_notification_consumer [] = []"
| "user_notification_consumer (ReadError # rs) = user_notification_consumer rs"
| "user_notification_consumer (Message v # rs) = (case read_wrapper v of
     None \<Rightarrow> user_notification_consumer rs
   | Some we \<Rightarrow> user_notifications we @ user_notification_consumer rs)"

section \<open>The analytics consumer and redis/cache.go\<close>

datatype redis_command = IncrByFloat string float64 | Incr string

definition Float64 :: "big_float \<Rightarrow> float64" where
  "Float64 x = (case x of Fin p z v \<Rightarrow> f64_round v | Inf p s \<Rightarrow> F64_Inf s)"

text \<open>\<open>None\<close> is the panic of a product of zero and infinity.\<close>

definition RecordAnalyticsTrade :: "string \<Rightarrow> string \<Rightarrow> redis_command list option" where
  "RecordAnalyticsTrade priceStr quantityStr = (case (SetString 0 priceStr, SetString 0 quantityStr) of
     (Some price, Some qty) \<Rightarrow> map_option (\<lambda>cost. [IncrByFloat ''analytics:total_volume'' (Float64 cost), Incr ''analytics:trade_count''])
       (Mul 0 price qty)
   | _ \<Rightarrow> Some [])"

definition analytics_handle :: "bool \<Rightarrow> WrappedEvent \<Rightarrow> redis_command list option" where
  "analytics_handle redisClient we =
     (if ev_Type we = ''trade.executed'' then (case read_trade we of
        None \<Rightarrow> Some []
      | Some p \<Rightarrow> if redisClient then RecordAnalyticsTrade (te_Price p) (te_Quantity p) else Some [])
      else Some [])"

fun analytics_consumer :: "bool \<Rightarrow> read list \<Rightarrow> redis_command list option" where
  "analytics_consumer c [] = Some []"
| "analytics_consumer c (ReadError # rs) = analytics_consumer c rs"
| "analytics_consumer c (Message v # rs) = (case read_wrapper v of
     None \<Rightarrow> analytics_consumer c rs
   | Some we \<Rightarrow> (case analytics_handle c we of
       None \<Rightarrow> None
     | Some cs \<Rightarrow> map_option (\<lambda>ds. cs @ ds) (analytics_consumer c rs)))"

section \<open>What is written is read back\<close>

text \<open>The keys of an event are 64-bit integers.\<close>

fun payload_ok :: "payload \<Rightarrow> bool" where
  "payload_ok (OrderEventPayload p) = (int64_range (oe_OrderID p) \<and> int64_range (oe_UserID p) \<and> int64_range (oe_AssetID p))"
| "payload_ok (TradeEventPayload p) = (int64_range (te_TradeID p) \<and> int64_range (te_BuyOrderID p) \<and> int64_range (te_SellOrderID p)
     \<and> int64_range (te_AssetID p) \<and> int64_range (te_BuyerID p) \<and> int64_range (te_SellerID p))"
| "payload_ok (WalletEventPayload p) = (int64_range (we_WalletID p) \<and> int64_range (we_UserID p))"

lemma read_wrapper_message [simp]:
  "read_wrapper (Some (event_message t k p)) = Some \<lparr>ev_Type = k, ev_Timestamp = t, ev_Payload = Some (Marshal p)\<rparr>"
  by (simp add: read_wrapper_def event_message_def Unmarshal_def find_field_def wrapped_event_fields_def zero_wrapped_event_def)

lemma Unmarshal_order [simp]:
  "payload_ok (OrderEventPayload p) \<Longrightarrow> Unmarshal order_event_fields zero_order_event (Marshal (OrderEventPayload p)) = Some p"
  by (simp add: Unmarshal_def find_field_def order_event_fields_def zero_order_event_def)

lemma Unmarshal_trade [simp]:
  "payload_ok (TradeEventPayload p) \<Longrightarrow> Unmarshal trade_event_fields zero_trade_event (Marshal (TradeEventPayload p)) = Some p"
  by (simp add: Unmarshal_def find_field_def trade_event_fields_def zero_trade_event_def)

lemma Unmarshal_wallet [simp]:
  "payload_ok (WalletEventPayload p) \<Longrightarrow> Unmarshal wallet_event_fields zero_wallet_event (Marshal (WalletEventPayload p)) = Some p"
  by (simp add: Unmarshal_def find_field_def wallet_event_fields_def zero_wallet_event_def)

declare Marshal.simps [simp del] payload_ok.simps [simp del]

text \<open>
  Events survive the way over Kafka: what the producer writes as JSON, the consumers
  read back as the same type of event with the same payload.
\<close>

theorem event_round_trip:
  assumes "payload_ok p"
  shows "\<exists>we. read_wrapper (Some (event_message t k p)) = Some we \<and> ev_Type we = k \<and> ev_Timestamp we = t
    \<and> (case p of OrderEventPayload q \<Rightarrow> read_order we = Some q
       | TradeEventPayload q \<Rightarrow> read_trade we = Some q
       | WalletEventPayload q \<Rightarrow> read_wallet we = Some q)"
  using assms by (cases p) (simp_all add: read_order_def read_trade_def read_wallet_def)

definition ex_wallet_event :: wallet_event where
  "ex_wallet_event = \<lparr>we_WalletID = 1, we_UserID = 1, we_Balance = ''1.00000000'', we_ChangeAmount = ''1'', we_TransactionType = ''deposit'',
     we_Timestamp = 5\<rparr>"

theorem event_round_trip_witness:
  "\<exists>we. read_wrapper (Some (event_message 7 ''wallet.updated'' (WalletEventPayload ex_wallet_event))) = Some we
     \<and> read_wallet we = Some ex_wallet_event"
  using event_round_trip [of "WalletEventPayload ex_wallet_event" 7 "''wallet.updated''"]
  by (auto simp: ex_wallet_event_def int64_range_def payload_ok.simps)

section \<open>The audit trail\<close>

text \<open>
  Messages that are no event: the value is no JSON object with fields of the right types, the type is none
  of the four, or the payload is missing, no object, or has a member of the struct with a value that the
  field can not hold: no 64-bit integer for a key, no text for an amount, no time for the timestamp.
\<close>

fun not_an_int :: "json \<Rightarrow> bool" where
  "not_an_int (JNumber n) \<longleftrightarrow> n < - (2 ^ 63) \<or> 2 ^ 63 \<le> n"
| "not_an_int j \<longleftrightarrow> j \<noteq> JNull"

fun not_a_text :: "json \<Rightarrow> bool" where
  "not_a_text (JString s) \<longleftrightarrow> False"
| "not_a_text j \<longleftrightarrow> j \<noteq> JNull"

fun not_a_time :: "json \<Rightarrow> bool" where
  "not_a_time (JTime t) \<longleftrightarrow> False"
| "not_a_time j \<longleftrightarrow> j \<noteq> JNull"

definition bad_member :: "string list \<Rightarrow> string list \<Rightarrow> string \<times> json \<Rightarrow> bool" where
  "bad_member ints texts m \<longleftrightarrow> fst m \<in> set ints \<and> not_an_int (snd m) \<or> fst m \<in> set texts \<and> not_a_text (snd m)
     \<or> fst m = ''timestamp'' \<and> not_a_time (snd m)"

definition bad_payload :: "string list \<Rightarrow> string list \<Rightarrow> json option \<Rightarrow> bool" where
  "bad_payload ints texts v \<longleftrightarrow> (case v of
     None \<Rightarrow> True
   | Some j \<Rightarrow> (case j of JNull \<Rightarrow> False | JObject ms \<Rightarrow> list_ex (bad_member ints texts) ms | _ \<Rightarrow> True))"

definition no_event :: "WrappedEvent \<Rightarrow> bool" where
  "no_event we \<longleftrightarrow>
     (if ev_Type we \<in> {''order.created'', ''order.cancelled''}
      then bad_payload [''order_id'', ''user_id'', ''asset_id''] [''side'', ''type'', ''price'', ''quantity'', ''status''] (ev_Payload we)
      else if ev_Type we = ''trade.executed''
      then bad_payload [''trade_id'', ''buy_order_id'', ''sell_order_id'', ''asset_id'', ''buyer_id'', ''seller_id'']
             [''price'', ''quantity''] (ev_Payload we)
      else if ev_Type we = ''wallet.updated''
      then bad_payload [''wallet_id'', ''user_id''] [''balance'', ''change_amount'', ''transaction_type''] (ev_Payload we)
      else True)"

lemma set_members_bad:
  assumes "(k, j) \<in> set kjs" and "map_of fs k = Some upd" and "\<And>r. upd j r = None"
  shows "set_members fs kjs r = None"
  using assms(1)
proof (induction kjs arbitrary: r)
  case (Cons x kjs)
  then show ?case using assms(2,3) by (cases x) (auto simp: find_field_def split: option.split)
qed simp

lemma fields_bad:
  "not_an_int j \<Longrightarrow> int_field f j r = None" "not_a_text j \<Longrightarrow> string_field g j r = None" "not_a_time j \<Longrightarrow> time_field h j r = None"
  by (cases j, auto simp: int64_range_def) (cases j, simp_all)+

lemma bad_payload_unread:
  assumes "bad_payload ints texts (Some j)"
    and "\<forall>k \<in> set ints. \<exists>f. map_of fs k = Some (int_field f)" and "\<forall>k \<in> set texts. \<exists>f. map_of fs k = Some (string_field f)"
    and "\<exists>f. map_of fs ''timestamp'' = Some (time_field f)"
  shows "Unmarshal fs z j = None"
proof (cases j)
  case (JObject ms)
  with assms(1) obtain k v where m: "(k, v) \<in> set ms" "bad_member ints texts (k, v)" by (auto simp: bad_payload_def list_ex_iff)
  then obtain upd where "map_of fs k = Some upd" "\<And>r. upd v r = None"
    using assms(2-4) by (fastforce simp: bad_member_def fields_bad)
  then have "set_members fs ms z = None" by (rule set_members_bad [OF m(1)])
  with JObject show ?thesis by (simp add: Unmarshal_def)
qed (use assms(1) in \<open>simp_all add: Unmarshal_def bad_payload_def\<close>)

lemma named_fields: "\<exists>f. int_field g = int_field f" "\<exists>f. string_field h = string_field f" "\<exists>f. time_field g = time_field f"
  by blast+

lemma order_bad: "bad_payload [''order_id'', ''user_id'', ''asset_id''] [''side'', ''type'', ''price'', ''quantity'', ''status''] (ev_Payload we)
    \<Longrightarrow> read_order we = None"
  unfolding read_order_def
  by (cases "ev_Payload we", simp) (simp only: option.case, erule bad_payload_unread, simp_all add: order_event_fields_def named_fields)

lemma trade_bad: "bad_payload [''trade_id'', ''buy_order_id'', ''sell_order_id'', ''asset_id'', ''buyer_id'', ''seller_id'']
    [''price'', ''quantity''] (ev_Payload we) \<Longrightarrow> read_trade we = None"
  unfolding read_trade_def
  by (cases "ev_Payload we", simp) (simp only: option.case, erule bad_payload_unread, simp_all add: trade_event_fields_def named_fields)

lemma wallet_bad: "bad_payload [''wallet_id'', ''user_id''] [''balance'', ''change_amount'', ''transaction_type''] (ev_Payload we)
    \<Longrightarrow> read_wallet we = None"
  unfolding read_wallet_def
  by (cases "ev_Payload we", simp) (simp only: option.case, erule bad_payload_unread, simp_all add: wallet_event_fields_def named_fields)

lemma no_event_handled:
  assumes "no_event we"
  shows "audit_handle we = ret ()" "notification_lines we = []" "user_notifications we = []" "analytics_handle c we = Some []"
  using assms
  by (auto simp: no_event_def audit_handle_def notification_lines_def user_notifications_def analytics_handle_def
      order_bad trade_bad wallet_bad split: if_splits)

text \<open>The deliveries of a list of events: read errors and messages that are no event may come in between.\<close>

inductive delivers :: "read list \<Rightarrow> (string \<times> payload) list \<Rightarrow> bool" where
  delivers_Nil: "delivers [] []"
| delivers_error: "delivers rs evs \<Longrightarrow> delivers (ReadError # rs) evs"
| delivers_broken: "read_wrapper v = None \<Longrightarrow> delivers rs evs \<Longrightarrow> delivers (Message v # rs) evs"
| delivers_no_event: "read_wrapper v = Some we \<Longrightarrow> no_event we \<Longrightarrow> delivers rs evs \<Longrightarrow> delivers (Message v # rs) evs"
| delivers_event: "delivers rs evs \<Longrightarrow> delivers (Message (Some (event_message t k p)) # rs) ((k, p) # evs)"

text \<open>Which users an event is about, and the action that is to be recorded of them.\<close>

fun audit_spec :: "string \<times> payload \<Rightarrow> (int \<times> string) list" where
  "audit_spec (k, OrderEventPayload p) = [(oe_UserID p, if k = ''order.created'' then ''ORDER_CREATED'' else ''ORDER_CANCELLED'')]"
| "audit_spec (k, TradeEventPayload p) = [(te_BuyerID p, ''TRADE_EXECUTED''), (te_SellerID p, ''TRADE_EXECUTED'')]"
| "audit_spec (k, WalletEventPayload p) = [(we_UserID p, ''WALLET_UPDATED'')]"

fun event_kind :: "string \<times> payload \<Rightarrow> bool" where
  "event_kind (k, OrderEventPayload p) = (k = ''order.created'' \<or> k = ''order.cancelled'')"
| "event_kind (k, TradeEventPayload p) = (k = ''trade.executed'')"
| "event_kind (k, WalletEventPayload p) = (k = ''wallet.updated'')"

definition event_ok :: "tables \<Rightarrow> string \<times> payload \<Rightarrow> bool" where
  "event_ok d ev \<longleftrightarrow> event_kind ev \<and> payload_ok (snd ev) \<and> fst ` set (audit_spec ev) \<subseteq> u_ID ` set (users d)"

definition audit_key :: "audit_log \<Rightarrow> int option \<times> string" where
  "audit_key l = (l_UserID l, l_Action l)"

definition adds_audit :: "(int \<times> string) list \<Rightarrow> world \<Rightarrow> world \<Rightarrow> bool" where
  "adds_audit ks w w' \<longleftrightarrow> (\<exists>ls s. w' = w\<lparr>db := (db w)\<lparr>audit_logs := audit_logs (db w) @ ls\<rparr>, seqs := s\<rparr>
     \<and> map audit_key ls = map (apfst Some) ks \<and> (\<forall>l \<in> set ls. l_CreatedAt l = now w))"

lemma adds_audit_trans: "adds_audit ks w w' \<Longrightarrow> adds_audit ls w' w'' \<Longrightarrow> adds_audit (ks @ ls) w w''"
  unfolding adds_audit_def by fastforce

lemma adds_audit_Nil: "adds_audit [] w w"
proof -
  have "w = w\<lparr>db := (db w)\<lparr>audit_logs := audit_logs (db w) @ []\<rparr>, seqs := seqs w\<rparr>" by simp
  then show ?thesis unfolding adds_audit_def by fastforce
qed

lemma adds_audit_frame: "adds_audit ks w w' \<Longrightarrow> faults w' = faults w \<and> users (db w') = users (db w)"
  by (auto simp: adds_audit_def)

lemma write_audit_eval:
  assumes "faults w = []" and "char_length action \<le> 100" and "u \<in> u_ID ` set (users (db w))"
  shows "\<exists>w'. write_audit u action details w = (Inr (), w') \<and> adds_audit [(u, action)] w w'"
proof -
  let ?l = "\<lparr>l_ID = seqs w ''audit_logs'', l_UserID = Some u, l_Action = action, l_Details = Some details, l_IPAddress = None, l_CreatedAt = now w\<rparr>"
  let ?w = "w\<lparr>db := (db w)\<lparr>audit_logs := audit_logs (db w) @ [?l]\<rparr>, seqs := (seqs w)(''audit_logs'' := seqs w ''audit_logs'' + 1)\<rparr>"
  have "audit_Create (audit_entry u action details) w = (Inr ?l, ?w)"
    using assms by (subst audit_Create_eval [where u = u]) (simp_all add: audit_entry_def Let_def)
  then have "write_audit u action details w = (Inr (), ?w)" by (simp add: write_audit_def bindE_def attempt_def ret_def)
  moreover have "adds_audit [(u, action)] w ?w"
    unfolding adds_audit_def by (intro exI [of _ "[?l]"] exI conjI, rule refl) (simp_all add: audit_key_def)
  ultimately show ?thesis by blast
qed

lemma audit_handle_eval:
  assumes f: "faults w = []" and ok: "event_ok (db w) (k, p)"
  shows "\<exists>w'. audit_handle \<lparr>ev_Type = k, ev_Timestamp = t, ev_Payload = Some (Marshal p)\<rparr> w = (Inr (), w')
     \<and> adds_audit (audit_spec (k, p)) w w'"
proof (cases p)
  case (OrderEventPayload q)
  with ok have "read_order \<lparr>ev_Type = k, ev_Timestamp = t, ev_Payload = Some (Marshal p)\<rparr> = Some q"
    and u: "oe_UserID q \<in> u_ID ` set (users (db w))" and k: "k = ''order.created'' \<or> k = ''order.cancelled''"
    by (auto simp: event_ok_def read_order_def)
  then show ?thesis
    using OrderEventPayload write_audit_eval [OF f _ u, of "''ORDER_CREATED''"] write_audit_eval [OF f _ u, of "''ORDER_CANCELLED''"]
    by (elim disjE) (simp_all add: audit_handle_def)
next
  case (TradeEventPayload q)
  with ok have r: "read_trade \<lparr>ev_Type = k, ev_Timestamp = t, ev_Payload = Some (Marshal p)\<rparr> = Some q"
    and u: "te_BuyerID q \<in> u_ID ` set (users (db w))" "te_SellerID q \<in> u_ID ` set (users (db w))" and k: "k = ''trade.executed''"
    by (auto simp: event_ok_def read_trade_def)
  have n: "char_length ''TRADE_EXECUTED'' \<le> 100" by simp
  obtain w1 where w1: "write_audit (te_BuyerID q) ''TRADE_EXECUTED'' (trade_details '' as buyer against seller #'' (te_SellerID q) q) w = (Inr (), w1)"
    "adds_audit [(te_BuyerID q, ''TRADE_EXECUTED'')] w w1" using write_audit_eval [OF f n u(1)] by blast
  obtain w2 where w2: "write_audit (te_SellerID q) ''TRADE_EXECUTED'' (trade_details '' as seller against buyer #'' (te_BuyerID q) q) w1 = (Inr (), w2)"
    "adds_audit [(te_SellerID q, ''TRADE_EXECUTED'')] w1 w2"
    using write_audit_eval [OF _ n, of w1 "te_SellerID q"] adds_audit_frame [OF w1(2)] f u(2) by auto
  have "adds_audit (audit_spec (k, p)) w w2" using adds_audit_trans [OF w1(2) w2(2)] TradeEventPayload by simp
  moreover have "audit_handle \<lparr>ev_Type = k, ev_Timestamp = t, ev_Payload = Some (Marshal p)\<rparr> w = (Inr (), w2)"
    using k r w1(1) w2(1) by (simp add: audit_handle_def bindE_def)
  ultimately show ?thesis by blast
next
  case (WalletEventPayload q)
  with ok have "read_wallet \<lparr>ev_Type = k, ev_Timestamp = t, ev_Payload = Some (Marshal p)\<rparr> = Some q"
    and u: "we_UserID q \<in> u_ID ` set (users (db w))" and k: "k = ''wallet.updated''"
    by (auto simp: event_ok_def read_wallet_def)
  then show ?thesis using WalletEventPayload write_audit_eval [OF f _ u, of "''WALLET_UPDATED''"]
    by (simp add: audit_handle_def)
qed

lemma audit_consumer_eval:
  assumes "delivers rs evs" and "faults w = []" and "list_all (event_ok (db w)) evs"
  shows "\<exists>w'. audit_consumer rs w = (Inr (), w') \<and> adds_audit (concat (map audit_spec evs)) w w'"
  using assms
proof (induction arbitrary: w rule: delivers.induct)
  case delivers_Nil
  then show ?case by (simp add: ret_def adds_audit_Nil)
next
  case (delivers_event rs evs t k p)
  then obtain w1 where w1: "audit_handle \<lparr>ev_Type = k, ev_Timestamp = t, ev_Payload = Some (Marshal p)\<rparr> w = (Inr (), w1)"
    "adds_audit (audit_spec (k, p)) w w1" using audit_handle_eval [of w k p t] by auto
  have "faults w1 = []" "list_all (event_ok (db w1)) evs"
    using adds_audit_frame [OF w1(2)] delivers_event.prems by (simp_all add: event_ok_def list_all_iff)
  from delivers_event.IH [OF this] obtain w2 where "audit_consumer rs w1 = (Inr (), w2)"
    "adds_audit (concat (map audit_spec evs)) w1 w2" by blast
  with w1 adds_audit_trans [OF w1(2)] show ?case by (auto simp: bindE_def)
qed (simp_all add: no_event_handled bindE_def ret_def)

text \<open>
  Property C29. The audit log is complete: when the events of known users are delivered to the audit
  consumer, with any read errors in between and any messages that are no event, be it their value, their
  type or their payload that is broken, it adds one entry for the user of every order and wallet event and
  two, for buyer and seller, for every trade, in the order of the events, and changes nothing else.
\<close>

theorem audit_trail_complete:
  assumes "delivers rs evs" and "faults w = []" and "list_all (event_ok (db w)) evs"
  shows "\<exists>w' ls. audit_consumer rs w = (Inr (), w') \<and> db w' = (db w)\<lparr>audit_logs := audit_logs (db w) @ ls\<rparr>
    \<and> map audit_key ls = map (apfst Some) (concat (map audit_spec evs)) \<and> (\<forall>l \<in> set ls. l_CreatedAt l = now w)
    \<and> out w' = out w \<and> queue w' = queue w"
  using audit_consumer_eval [OF assms] by (force simp: adds_audit_def)

definition ex_trade_event :: trade_event where
  "ex_trade_event = \<lparr>te_TradeID = 1, te_BuyOrderID = 2, te_SellOrderID = 1, te_AssetID = 1, te_Price = ''10'', te_Quantity = ''3'',
     te_BuyerID = 1, te_SellerID = 2, te_Timestamp = 5\<rparr>"

definition ex_reads :: "read list" where
  "ex_reads = [ReadError, Message (Some (event_message 9 ''trade.executed'' (TradeEventPayload ex_trade_event))), Message None,
     Message (Some (JObject [(''type'', JString ''order.created''), (''payload'', JObject [(''user_id'', JString ''1'')])])),
     Message (Some (JObject [(''type'', JString ''user.deleted'')]))]"

theorem audit_trail_complete_witness:
  "\<exists>w'. audit_consumer ex_reads ex_world = (Inr (), w')
     \<and> map audit_key (audit_logs (db w')) = [(Some 1, ''TRADE_EXECUTED''), (Some 2, ''TRADE_EXECUTED'')]"
proof -
  have r: "read_wrapper (Some (JObject [(''type'', JString ''order.created''), (''payload'', JObject [(''user_id'', JString ''1'')])]))
      = Some \<lparr>ev_Type = ''order.created'', ev_Timestamp = zero_time, ev_Payload = Some (JObject [(''user_id'', JString ''1'')])\<rparr>"
    "read_wrapper (Some (JObject [(''type'', JString ''user.deleted'')])) = Some \<lparr>ev_Type = ''user.deleted'', ev_Timestamp = zero_time, ev_Payload = None\<rparr>"
    by (simp_all add: read_wrapper_def Unmarshal_def find_field_def wrapped_event_fields_def zero_wrapped_event_def)
  have "delivers ex_reads [(''trade.executed'', TradeEventPayload ex_trade_event)]" unfolding ex_reads_def
    by (intro delivers_Nil delivers_error delivers_event delivers_broken delivers_no_event [OF r(1)] delivers_no_event [OF r(2)])
      (simp_all add: read_wrapper_def no_event_def bad_payload_def bad_member_def)
  from audit_trail_complete [OF this ex_world_quiet] show ?thesis
    by (force simp: event_ok_def ex_trade_event_def payload_ok.simps int64_range_def ex_defs)
qed

end
