(* ===== verification/Http.thy ===== *)
theory Http
  imports Kafka Cron
begin

text \<open>
  The HTTP side: internal/middleware (authentication and roles), the handlers of all domains and the
  routes of cmd/api/main.go. A handler gives the answers it writes, in order: \<^verbatim>\<open>c.JSON\<close> does not end
  a handler, so there may be two. What \<^verbatim>\<open>ShouldBindJSON\<close> makes of the body is part of the request,
  one field per input type: the message of its error, or the struct. The limiters' verdicts, the
  answers of the services that are pinged and the text of a point in time are part of the server.
\<close>

section \<open>Requests and answers\<close>

datatype body_value = VInt int | VBool bool | VString string | VStrings "string list" | VWallet "string wallet" | VTransaction "string wallet_transaction"
  | VTransactions "string wallet_transaction page" | VOrder "string order" | VOrders "string order page" | VUser user
  | VUsers "user page" | VTokens TokenPair | VAsset "string asset" | VAssets "string asset list" | VPoints "VolumePoint list"
  | VSuspects "SuspiciousUser list" | VHealth SystemHealth | VLogs "audit_log list" | VHoldings "string portfolio_holding list"
  | VTrades "string trade list" | VCompliance "bool \<times> string \<times> int" | VNone

datatype body = BError string | BObject "(string \<times> body_value) list" | BValue body_value | BText string | BEmpty

type_synonym answer = "int \<times> body"

record request =
  rq_Method :: string
  rq_Path :: "string list"
  rq_Authorization :: string
  rq_IdempotencyKey :: string
  rq_ClientIP :: string
  rq_Query :: "(string \<times> string) list"
  rq_Register :: "string + RegisterRequest"
  rq_Login :: "string + LoginRequest"
  rq_Refresh :: "string + string"
  rq_Status :: "string + string"
  rq_Amount :: "string + AmountInput"
  rq_CreateAsset :: "string + CreateAssetInput"
  rq_UpdateAsset :: "string + UpdateAssetInput"
  rq_PlaceOrder :: "string + PlaceOrderInput"

text \<open>What the authentication leaves in the context.\<close>

record gin_context =
  ctx_UserID :: "int option"
  ctx_Role :: "string option"

definition DefaultQuery :: "request \<Rightarrow> string \<Rightarrow> string \<Rightarrow> string" where
  "DefaultQuery rq key d = (case map_of (rq_Query rq) key of None \<Rightarrow> d | Some v \<Rightarrow> v)"

text \<open>
  \<^verbatim>\<open>strconv.Atoi\<close> with its error dropped: 0 for what is no number, the nearest 64-bit integer for one
  out of range. \<^verbatim>\<open>strconv.ParseInt(s, 10, 64)\<close> is \<open>atoi\<close>.
\<close>

definition Atoi :: "string \<Rightarrow> int" where
  "Atoi s = (let neg = (s \<noteq> [] \<and> hd s = CHR ''-'');
       r = (if s \<noteq> [] \<and> (hd s = CHR ''-'' \<or> hd s = CHR ''+'') then tl s else s);
       n = (if neg then - int (digits_val 0 r) else int (digits_val 0 r))
     in if r = [] \<or> \<not> list_all is_digit r then 0 else max (- (2 ^ 63)) (min (2 ^ 63 - 1) n))"

definition query_int :: "request \<Rightarrow> string \<Rightarrow> string \<Rightarrow> int" where
  "query_int rq key d = Atoi (DefaultQuery rq key d)"

definition mustUserID :: "gin_context \<Rightarrow> int" where
  "mustUserID c = (case ctx_UserID c of None \<Rightarrow> 0 | Some i \<Rightarrow> i)"

text \<open>The answers written, the number, and whether the error is not nil.\<close>

definition parseIDParam :: "string \<Rightarrow> answer list \<times> int \<times> bool" where
  "parseIDParam s = (case atoi s of
     None \<Rightarrow> ([(400, BError ''invalid id'')], 0, True)
   | Some i \<Rightarrow> if i < 1 then ([(400, BError ''invalid id'')], 0, False) else ([], i, False))"

definition with_id :: "string \<Rightarrow> (int \<Rightarrow> answer list io) \<Rightarrow> answer list io" where
  "with_id s f = (case parseIDParam s of (ws, i, err) \<Rightarrow>
     if err then ret ws else bindE (f i) (\<lambda>rs. ret (ws @ rs)))"

definition with_body :: "string + 'i \<Rightarrow> ('i \<Rightarrow> answer list io) \<Rightarrow> answer list io" where
  "with_body b f = (case b of Inl msg \<Rightarrow> ret [(400, BError msg)] | Inr input \<Rightarrow> f input)"

text \<open>One answer for the result of a service call: by the error, or by the value.\<close>

definition answer_of :: "'a io \<Rightarrow> (error \<Rightarrow> int \<times> string) \<Rightarrow> ('a \<Rightarrow> answer) \<Rightarrow> answer list io" where
  "answer_of m err ok = bindE (attempt m) (\<lambda>r. ret [case r of
     Inl e \<Rightarrow> (fst (err e), BError (snd (err e))) | Inr x \<Rightarrow> ok x])"

section \<open>auth_handler.go\<close>

definition h_Register :: "AuthService \<Rightarrow> request \<Rightarrow> answer list io" where
  "h_Register s rq = with_body (rq_Register rq) (\<lambda>input. answer_of (Register s input)
     (\<lambda>e. if errors_Is e ErrEmailAlreadyExists then (409, error_text e)
          else if errors_Is e ErrInvalidRole then (400, ''role must be one of: admin, broker, trader, support'')
          else (500, ''registration failed''))
     (\<lambda>(u, tokens). (201, BObject [(''user'', VUser u), (''tokens'', VTokens tokens)])))"

definition h_Login :: "AuthService \<Rightarrow> request \<Rightarrow> answer list io" where
  "h_Login s rq = with_body (rq_Login rq) (\<lambda>input. answer_of (Login s input)
     (\<lambda>e. if errors_Is e ErrInvalidCredentials then (401, error_text e)
          else if errors_Is e ErrAccountSuspended then (403, error_text e)
          else (500, ''login failed''))
     (\<lambda>(u, tokens). (200, BObject [(''user'', VUser u), (''tokens'', VTokens tokens)])))"

definition h_Refresh :: "AuthService \<Rightarrow> request \<Rightarrow> answer list io" where
  "h_Refresh s rq = with_body (rq_Refresh rq) (\<lambda>tok. answer_of (RefreshTokens s tok)
     (\<lambda>e. if errors_Is e ErrAuthTokenInvalid \<or> errors_Is e ErrUserNotFound then (401, ''invalid refresh token'')
          else (500, ''token refresh failed''))
     (\<lambda>tokens. (200, BObject [(''tokens'', VTokens tokens)])))"

definition h_Me :: "gin_context \<Rightarrow> answer list io" where
  "h_Me c = ret [(200, BObject [(''user_id'', case ctx_UserID c of None \<Rightarrow> VNone | Some i \<Rightarrow> VInt i),
     (''role'', case ctx_Role c of None \<Rightarrow> VNone | Some r \<Rightarrow> VString r)])]"

section \<open>wallet_handler.go\<close>

definition h_GetWallet :: "gin_context \<Rightarrow> answer list io" where
  "h_GetWallet c = answer_of (GetWallet (mustUserID c))
     (\<lambda>e. if errors_Is e ErrWalletNotFound then (404, ''wallet not found'') else (500, ''could not retrieve wallet''))
     (\<lambda>w. (200, BObject [(''wallet'', VWallet w)]))"

definition h_Deposit :: "gin_context \<Rightarrow> request \<Rightarrow> answer list io" where
  "h_Deposit c rq = with_body (rq_Amount rq) (\<lambda>input. answer_of (Deposit (mustUserID c) input)
     (\<lambda>e. if errors_Is e ErrInvalidAmount then (400, error_text e)
          else if errors_Is e ErrWalletNotFound then (404, ''wallet not found'')
          else (500, ''deposit failed''))
     (\<lambda>(w, tx). (200, BObject [(''wallet'', VWallet w), (''transaction'', VTransaction tx)])))"

definition h_Withdraw :: "gin_context \<Rightarrow> request \<Rightarrow> answer list io" where
  "h_Withdraw c rq = with_body (rq_Amount rq) (\<lambda>input. answer_of (Withdraw (mustUserID c) input)
     (\<lambda>e. if errors_Is e ErrInvalidAmount then (400, error_text e)
          else if errors_Is e ErrInsufficientBalance then (422, ''insufficient balance'')
          else if errors_Is e ErrWalletNotFound then (404, ''wallet not found'')
          else (500, ''withdrawal failed''))
     (\<lambda>(w, tx). (200, BObject [(''wallet'', VWallet w), (''transaction'', VTransaction tx)])))"

definition h_ListTransactions :: "gin_context \<Rightarrow> request \<Rightarrow> answer list io" where
  "h_ListTransactions c rq = answer_of (ListTransactions (mustUserID c) (query_int rq ''page'' ''1'') (query_int rq ''page_size'' ''20''))
     (\<lambda>e. if errors_Is e ErrWalletNotFound then (404, ''wallet not found'') else (500, ''could not retrieve transactions''))
     (\<lambda>p. (200, BValue (VTransactions p)))"

section \<open>asset_handler.go\<close>

definition h_CreateAsset :: "(string \<Rightarrow> string + price) \<Rightarrow> gin_context \<Rightarrow> request \<Rightarrow> answer list io" where
  "h_CreateAsset pgnum c rq = with_body (rq_CreateAsset rq) (\<lambda>input. answer_of (CreateAsset pgnum (mustUserID c) input)
     (\<lambda>e. if errors_Is e ErrDuplicateSymbol then (409, error_text e)
          else if errors_Is e ErrInvalidAssetData then (400, error_text e)
          else (500, ''could not create asset''))
     (\<lambda>a. (201, BObject [(''asset'', VAsset a)])))"

definition h_UpdateAsset :: "(string \<Rightarrow> string + price) \<Rightarrow> gin_context \<Rightarrow> string \<Rightarrow> request \<Rightarrow> answer list io" where
  "h_UpdateAsset pgnum c idp rq = with_id idp (\<lambda>assetID. with_body (rq_UpdateAsset rq) (\<lambda>input.
     answer_of (UpdateAsset pgnum (mustUserID c) assetID input)
     (\<lambda>e. if errors_Is e ErrAssetNotFound then (404, ''asset not found'')
          else if errors_Is e ErrNotAssetOwner then (403, error_text e)
          else if errors_Is e ErrInvalidAssetData then (400, error_text e)
          else (500, ''could not update asset''))
     (\<lambda>a. (200, BObject [(''asset'', VAsset a)]))))"

definition h_DisableAsset :: "(string \<Rightarrow> string + price) \<Rightarrow> gin_context \<Rightarrow> string \<Rightarrow> answer list io" where
  "h_DisableAsset pgnum c idp = with_id idp (\<lambda>assetID. answer_of (DisableAsset pgnum (mustUserID c) assetID)
     (\<lambda>e. if errors_Is e ErrAssetNotFound then (404, ''asset not found'')
          else if errors_Is e ErrNotAssetOwner then (403, error_text e)
          else (500, ''could not disable asset''))
     (\<lambda>a. (200, BObject [(''asset'', VAsset a)])))"

definition h_GetAsset :: "(int \<Rightarrow> string option) \<Rightarrow> string \<Rightarrow> answer list io" where
  "h_GetAsset getPrice idp = with_id idp (\<lambda>assetID. answer_of (GetAsset getPrice assetID)
     (\<lambda>e. if errors_Is e ErrAssetNotFound then (404, ''asset not found'') else (500, ''could not retrieve asset''))
     (\<lambda>a. (200, BObject [(''asset'', VAsset a)])))"

definition h_ListAssets :: "(string \<Rightarrow> int) \<Rightarrow> (int \<Rightarrow> string option) \<Rightarrow> answer list io" where
  "h_ListAssets coll getPrice = answer_of (ListActiveAssets coll getPrice)
     (\<lambda>e. (500, ''could not list assets''))
     (\<lambda>as. (200, BObject [(''assets'', VAssets as), (''count'', VInt (int (length as)))]))"

section \<open>order_handler.go\<close>

text \<open>The header wins over the body. The time zero of an order would be a repeated request; rows have the time of their creation.\<close>

definition with_key :: "request \<Rightarrow> PlaceOrderInput \<Rightarrow> PlaceOrderInput" where
  "with_key rq input = (if rq_IdempotencyKey rq \<noteq> [] then input\<lparr>pi_IdempotencyKey := Some (rq_IdempotencyKey rq)\<rparr> else input)"

definition h_PlaceOrder :: "gin_context \<Rightarrow> request \<Rightarrow> answer list io" where
  "h_PlaceOrder c rq = with_body (rq_PlaceOrder rq) (\<lambda>input0. let input = with_key rq input0 in
     answer_of (PlaceOrder (mustUserID c) input)
     (\<lambda>e. if errors_Is e ErrOrderInsufficientFunds then (422, error_text e)
          else if errors_Is e ErrOrderInsufficientHolding then (422, error_text e)
          else if errors_Is e ErrOrderAssetNotActive then (400, error_text e)
          else if errors_Is e ErrAssetNotFound then (404, ''asset not found'')
          else (500, ''could not place order''))
     (\<lambda>o1. (if pi_IdempotencyKey input \<noteq> None \<and> o_CreatedAt o1 = zero_time then 200 else 201, BObject [(''order'', VOrder o1)])))"

definition h_CancelOrder :: "gin_context \<Rightarrow> string \<Rightarrow> answer list io" where
  "h_CancelOrder c idp = with_id idp (\<lambda>orderID. answer_of (CancelOrder (mustUserID c) orderID)
     (\<lambda>e. if errors_Is e ErrOrderNotFound then (404, ''order not found'')
          else if errors_Is e ErrOrderNotOwned then (403, error_text e)
          else if errors_Is e ErrOrderNotCancellable then (422, error_text e)
          else (500, ''could not cancel order''))
     (\<lambda>o1. (200, BObject [(''order'', VOrder o1)])))"

definition h_GetOrder :: "gin_context \<Rightarrow> string \<Rightarrow> answer list io" where
  "h_GetOrder c idp = with_id idp (\<lambda>orderID. answer_of (GetOrder (mustUserID c) orderID)
     (\<lambda>e. if errors_Is e ErrOrderNotFound \<or> errors_Is e ErrOrderNotOwned then (404, ''order not found'')
          else (500, ''could not retrieve order''))
     (\<lambda>o1. (200, BObject [(''order'', VOrder o1)])))"

definition h_ListOrders :: "gin_context \<Rightarrow> request \<Rightarrow> answer list io" where
  "h_ListOrders c rq = answer_of (ListOrders (mustUserID c) (query_int rq ''page'' ''1'') (query_int rq ''page_size'' ''20''))
     (\<lambda>e. (500, ''could not list orders''))
     (\<lambda>p. (200, BValue (VOrders p)))"

section \<open>admin_handler.go\<close>

definition h_ListUsers :: "request \<Rightarrow> answer list io" where
  "h_ListUsers rq = answer_of (admin_ListUsers (DefaultQuery rq ''role'' []) (DefaultQuery rq ''status'' [])
       (query_int rq ''page'' ''1'') (query_int rq ''page_size'' ''20''))
     (\<lambda>e. (500, ''could not list users''))
     (\<lambda>p. (200, BValue (VUsers p)))"

definition h_UpdateUserStatus :: "gin_context \<Rightarrow> string \<Rightarrow> request \<Rightarrow> answer list io" where
  "h_UpdateUserStatus c idp rq = with_id idp (\<lambda>targetID. with_body (rq_Status rq) (\<lambda>status.
     answer_of (UpdateUserStatus (mustUserID c) targetID status)
     (\<lambda>e. if errors_Is e ErrUserNotFound then (404, ''user not found'')
          else if errors_Is e ErrInvalidStatus then (400, error_text e)
          else (500, ''could not update user status''))
     (\<lambda>u. (200, BObject [(''user'', VUser u)]))))"

definition h_VolumeAnalytics :: "pg_time \<Rightarrow> request \<Rightarrow> answer list io" where
  "h_VolumeAnalytics P rq = (let hours = query_int rq ''hours'' ''24'' in answer_of (VolumeAnalytics P hours)
     (\<lambda>e. (500, ''could not compute volume analytics''))
     (\<lambda>ps. (200, BObject [(''window_hours'', VInt hours), (''data'', VPoints ps), (''count'', VInt (int (length ps)))])))"

definition h_SuspiciousUsers :: "pg_time \<Rightarrow> request \<Rightarrow> answer list io" where
  "h_SuspiciousUsers P rq = (let windowHours = query_int rq ''window_hours'' ''1''; threshold = query_int rq ''threshold'' ''10'' in
     answer_of (SuspiciousUsers P windowHours threshold)
     (\<lambda>e. (500, ''could not compute suspicious users''))
     (\<lambda>ss. (200, BObject [(''window_hours'', VInt windowHours), (''threshold'', VInt threshold), (''suspects'', VSuspects ss),
        (''count'', VInt (int (length ss)))])))"

definition h_AdminHealth :: "SystemHealth \<Rightarrow> (int \<Rightarrow> string) \<Rightarrow> answer list io" where
  "h_AdminHealth health fmtTime = bindE time_now (\<lambda>t. ret [(if sh_Database health = ''DOWN'' then 503 else 200,
     BObject [(''status'', VString ''ok''), (''timestamp'', VString (fmtTime t)), (''services'', VHealth health)])])"

text \<open>The page size that divides is the one asked for, not the one used: a division by zero panics.\<close>

definition h_AuditLogs :: "request \<Rightarrow> answer list io" where
  "h_AuditLogs rq =
     (let action = DefaultQuery rq ''action'' []; page = query_int rq ''page'' ''1''; pageSize = query_int rq ''page_size'' ''20'';
          uidStr = DefaultQuery rq ''user_id'' [] in
      if uidStr \<noteq> [] \<and> atoi uidStr = None then ret [(400, BError ''invalid user_id'')]
      else bindE (attempt (ListAuditLogs (if uidStr = [] then None else atoi uidStr) action page pageSize)) (\<lambda>r. case r of
          Inl e \<Rightarrow> ret [(500, BError ''could not retrieve audit logs'')]
        | Inr (logs, count) \<Rightarrow>
            bindE (if pageSize = 0 then raise (Panic ''integer divide by zero'')
                   else ret (go_div (wrap64 (wrap64 (count + pageSize) - 1)) pageSize)) (\<lambda>pages.
            ret [(200, BObject [(''data'', VLogs logs), (''total'', VInt count), (''page'', VInt page), (''page_size'', VInt pageSize),
              (''total_pages'', VInt (if pages = 0 then 1 else pages))])])))"

section \<open>The handlers of user, portfolio and trade\<close>

text \<open>These are not routed. The value of the context is taken as the \<^verbatim>\<open>int64\<close> that the authentication puts there.\<close>

definition response_Error :: "int \<Rightarrow> string \<Rightarrow> answer" where
  "response_Error code msg = (code, BObject ((''success'', VBool False) # (if msg = [] then [] else [(''error'', VString msg)])))"

definition response_Success :: "int \<Rightarrow> body_value \<Rightarrow> answer" where
  "response_Success code v = (code, BObject [(''success'', VBool True), (''data'', v)])"

definition h_GetMyPortfolio :: "gin_context \<Rightarrow> answer list io" where
  "h_GetMyPortfolio c = (case ctx_UserID c of
     None \<Rightarrow> ret [response_Error 401 ''Unauthorized'']
   | Some userID \<Rightarrow> bindE (attempt (GetMyPortfolio userID)) (\<lambda>r. ret [case r of
       Inl e \<Rightarrow> response_Error 500 ''Failed to retrieve portfolio holdings''
     | Inr hs \<Rightarrow> response_Success 200 (VHoldings hs)]))"

definition h_GetMyTrades :: "gin_context \<Rightarrow> answer list io" where
  "h_GetMyTrades c = (case ctx_UserID c of
     None \<Rightarrow> ret [response_Error 401 ''Unauthorized'']
   | Some userID \<Rightarrow> bindE (attempt (trade_GetByUserID userID)) (\<lambda>r. ret [case r of
       Inl e \<Rightarrow> response_Error 500 ''Failed to retrieve trade history''
     | Inr ts \<Rightarrow> response_Success 200 (VTrades ts)]))"

text \<open>The profile: the user without its hash.\<close>

definition h_GetProfile :: "string \<Rightarrow> answer list io" where
  "h_GetProfile idp = (case atoi idp of
     None \<Rightarrow> ret [response_Error 400 ''Invalid user ID'']
   | Some i \<Rightarrow> bindE (attempt (user_GetUserByID i)) (\<lambda>r. ret [case r of
       Inl e \<Rightarrow> response_Error 404 ''User not found''
     | Inr u \<Rightarrow> response_Success 200 (VUser (u\<lparr>u_PasswordHash := []\<rparr>))]))"

section \<open>internal/middleware: authentication and roles\<close>

text \<open>\<^verbatim>\<open>strings.SplitN(s, " ", 2)\<close>.\<close>

definition SplitN2 :: "string \<Rightarrow> string list" where
  "SplitN2 s = (case dropWhile (\<lambda>c. c \<noteq> CHR '' '') s of
     [] \<Rightarrow> [s] | _ # r \<Rightarrow> [takeWhile (\<lambda>c. c \<noteq> CHR '' '') s, r])"

definition bearer_form :: string where
  "bearer_form = ''authorization header must be in the form '' @ [CHR 0x27] @ ''Bearer <token>'' @ [CHR 0x27]"

text \<open>The answer that ends the request, or the context for the handlers that follow.\<close>

definition AuthMiddleware :: "jwt_lib \<Rightarrow> JWTService \<Rightarrow> string \<Rightarrow> (answer + gin_context) io" where
  "AuthMiddleware L s authHeader =
     (if authHeader = [] then ret (Inl (401, BError ''authorization header is required''))
      else case SplitN2 authHeader of
        [scheme, tokenStr] \<Rightarrow>
          if \<not> EqualFold scheme ''Bearer''
            then ret (Inl (401, BError bearer_form))
          else bindE (attempt (ParseToken L s tokenStr)) (\<lambda>r. case r of
              Inl e \<Rightarrow> ret (Inl (401, BError (if e = ErrTokenExpired then ''token has expired'' else ''invalid token'')))
            | Inr claims \<Rightarrow>
                if c_TokenType claims \<noteq> TokenTypeAccess then ret (Inl (401, BError ''access token required''))
                else ret (Inr \<lparr>ctx_UserID = Some (c_UserID claims), ctx_Role = Some (c_Role claims)\<rparr>))
      | _ \<Rightarrow> ret (Inl (401, BError bearer_form)))"

definition RBACMiddleware :: "string list \<Rightarrow> gin_context \<Rightarrow> answer option" where
  "RBACMiddleware allowedRoles c = (case ctx_Role c of
     None \<Rightarrow> Some (401, BError ''no role found in context; ensure AuthMiddleware runs first'')
   | Some role \<Rightarrow> if role \<in> set allowedRoles then None
       else Some (403, BError ''you do not have permission to access this resource''))"

definition ByUserID :: "gin_context \<Rightarrow> request \<Rightarrow> string" where
  "ByUserID c rq = (case ctx_UserID c of Some i \<Rightarrow> ''user:'' @ show_int i | None \<Rightarrow> rq_ClientIP rq)"

section \<open>cmd/api/main.go: the routes\<close>

text \<open>
  The endpoints that answer with JSON (\<^verbatim>\<open>/metrics\<close>, \<^verbatim>\<open>/swagger\<close> and \<^verbatim>\<open>/ws\<close> belong to libraries), each with
  the middleware of its group: authentication, allowed roles, limiter. A path is the list of its
  segments.
\<close>

record server =
  sv_auth :: AuthService
  sv_pgTime :: pg_time
  sv_pgnum :: "string \<Rightarrow> string + price"
  sv_coll :: "string \<Rightarrow> int"
  sv_getPrice :: "int \<Rightarrow> string option"
  sv_dbPing :: bool
  sv_redisPing :: "bool option"
  sv_dial :: "string \<Rightarrow> bool"
  sv_brokers :: "string list"
  sv_env :: string
  sv_fmtTime :: "int \<Rightarrow> string"
  sv_allow :: "string \<Rightarrow> string \<Rightarrow> bool"

datatype segment = Lit string | Param

datatype key_fn = ByIP | ByUser

record route =
  r_Method :: string
  r_Pattern :: "segment list"
  r_Auth :: bool
  r_Roles :: "string list option"
  r_Limiter :: "(string \<times> key_fn) option"
  r_Handler :: "server \<Rightarrow> gin_context \<Rightarrow> string \<Rightarrow> request \<Rightarrow> answer list io"

definition h_health :: "server \<Rightarrow> answer list io" where
  "h_health S = bindE time_now (\<lambda>t. ret [(200, BObject [(''status'', VString ''ok''), (''timestamp'', VString (sv_fmtTime S t)),
     (''env'', VString (sv_env S)), (''database'', VString (if sv_dbPing S then ''UP'' else ''DOWN''))])])"

definition h_job :: "string \<Rightarrow> int io \<Rightarrow> answer list io" where
  "h_job key job = bindE job (\<lambda>n. ret [(200, BObject [(''status'', VString ''ok''), (key, VInt n)])])"

abbreviation public_route where
  "public_route m p f \<equiv> \<lparr>r_Method = m, r_Pattern = p, r_Auth = False, r_Roles = None, r_Limiter = None, r_Handler = f\<rparr>"

abbreviation guarded_route where
  "guarded_route m p roles rl f \<equiv> \<lparr>r_Method = m, r_Pattern = p, r_Auth = True, r_Roles = roles, r_Limiter = rl, r_Handler = f\<rparr>"

definition auth_routes :: "route list" where
  "auth_routes =
    [public_route ''GET'' [Lit ''health''] (\<lambda>S c i rq. h_health S),
     public_route ''POST'' [Lit ''auth'', Lit ''register''] (\<lambda>S c i rq. h_Register (sv_auth S) rq),
     (public_route ''POST'' [Lit ''auth'', Lit ''login''] (\<lambda>S c i rq. h_Login (sv_auth S) rq))\<lparr>r_Limiter := Some (''login'', ByIP)\<rparr>,
     public_route ''POST'' [Lit ''auth'', Lit ''refresh''] (\<lambda>S c i rq. h_Refresh (sv_auth S) rq),
     guarded_route ''GET'' [Lit ''auth'', Lit ''me''] None None (\<lambda>S c i rq. h_Me c)]"

definition admin_routes :: "route list" where
  "admin_routes = map (\<lambda>(m, p, f). guarded_route m (Lit ''admin'' # p) (Some [RoleAdmin]) None f)
    [(''GET'', [Lit ''ping''], \<lambda>S c i rq. ret [(200, BObject [(''message'', VString ''pong''), (''role'', VString ''admin'')])]),
     (''GET'', [Lit ''users''], \<lambda>S c i rq. h_ListUsers rq),
     (''PATCH'', [Lit ''users'', Param, Lit ''status''], \<lambda>S c i rq. h_UpdateUserStatus c i rq),
     (''GET'', [Lit ''analytics'', Lit ''volume''], \<lambda>S c i rq. h_VolumeAnalytics (sv_pgTime S) rq),
     (''GET'', [Lit ''analytics'', Lit ''suspicious''], \<lambda>S c i rq. h_SuspiciousUsers (sv_pgTime S) rq),
     (''GET'', [Lit ''health''], \<lambda>S c i rq. h_AdminHealth (Health (sv_dbPing S) (sv_redisPing S) (sv_dial S) (sv_brokers S)) (sv_fmtTime S)),
     (''GET'', [Lit ''audit''], \<lambda>S c i rq. h_AuditLogs rq),
     (''POST'', [Lit ''jobs'', Lit ''expire''], \<lambda>S c i rq. h_job ''expired_orders'' ExpireStaleOrders),
     (''POST'', [Lit ''jobs'', Lit ''reconcile''], \<lambda>S c i rq. h_job ''discrepancies_found'' ReconcileWallets),
     (''POST'', [Lit ''jobs'', Lit ''verify-settlement''], \<lambda>S c i rq. h_job ''settlement_discrepancies_found'' VerifyTradeSettlements)]"

definition wallet_routes :: "route list" where
  "wallet_routes = map (\<lambda>(m, p, f). guarded_route m (Lit ''wallet'' # p) None (Some (''wallet'', ByUser)) f)
    [(''GET'', [], \<lambda>S c i rq. h_GetWallet c),
     (''POST'', [Lit ''deposit''], \<lambda>S c i rq. h_Deposit c rq),
     (''POST'', [Lit ''withdraw''], \<lambda>S c i rq. h_Withdraw c rq),
     (''GET'', [Lit ''transactions''], \<lambda>S c i rq. h_ListTransactions c rq)]"

definition asset_routes :: "route list" where
  "asset_routes =
    [guarded_route ''GET'' [Lit ''assets''] None None (\<lambda>S c i rq. h_ListAssets (sv_coll S) (sv_getPrice S)),
     guarded_route ''GET'' [Lit ''assets'', Param] None None (\<lambda>S c i rq. h_GetAsset (sv_getPrice S) i),
     guarded_route ''POST'' [Lit ''assets''] (Some [RoleBroker]) None (\<lambda>S c i rq. h_CreateAsset (sv_pgnum S) c rq),
     guarded_route ''PATCH'' [Lit ''assets'', Param] (Some [RoleBroker]) None (\<lambda>S c i rq. h_UpdateAsset (sv_pgnum S) c i rq),
     guarded_route ''PATCH'' [Lit ''assets'', Param, Lit ''disable''] (Some [RoleBroker]) None (\<lambda>S c i rq. h_DisableAsset (sv_pgnum S) c i)]"

definition order_routes :: "route list" where
  "order_routes = map (\<lambda>(m, p, f). guarded_route m (Lit ''orders'' # p) (Some [RoleTrader]) (Some (''order'', ByUser)) f)
    [(''POST'', [], \<lambda>S c i rq. h_PlaceOrder c rq),
     (''GET'', [], \<lambda>S c i rq. h_ListOrders c rq),
     (''GET'', [Param], \<lambda>S c i rq. h_GetOrder c i),
     (''DELETE'', [Param], \<lambda>S c i rq. h_CancelOrder c i)]"

definition routes :: "route list" where
  "routes = auth_routes @ admin_routes @ wallet_routes @ asset_routes @ order_routes"

text \<open>The path matches: the value of its parameter, if there is one.\<close>

fun match_path :: "segment list \<Rightarrow> string list \<Rightarrow> string option" where
  "match_path [] [] = Some []"
| "match_path (Lit s # p) (x # xs) = (if s = x then match_path p xs else None)"
| "match_path (Param # p) (x # xs) = (if x = [] then None else map_option (\<lambda>_. x) (match_path p xs))"
| "match_path p xs = None"

definition find_route :: "request \<Rightarrow> (route \<times> string) option" where
  "find_route rq = (case find (\<lambda>r. r_Method r = rq_Method rq \<and> match_path (r_Pattern r) (rq_Path rq) \<noteq> None) routes of
     None \<Rightarrow> None
   | Some r \<Rightarrow> map_option (\<lambda>i. (r, i)) (match_path (r_Pattern r) (rq_Path rq)))"

definition no_context :: gin_context where
  "no_context = \<lparr>ctx_UserID = None, ctx_Role = None\<rparr>"

definition rate_limited :: "server \<Rightarrow> route \<Rightarrow> gin_context \<Rightarrow> request \<Rightarrow> bool" where
  "rate_limited S r c rq = (case r_Limiter r of None \<Rightarrow> False
     | Some (name, kf) \<Rightarrow> \<not> sv_allow S name (case kf of ByIP \<Rightarrow> rq_ClientIP rq | ByUser \<Rightarrow> ByUserID c rq))"

definition run_route :: "server \<Rightarrow> route \<Rightarrow> string \<Rightarrow> request \<Rightarrow> answer list io" where
  "run_route S r i rq =
     bindE (if r_Auth r then AuthMiddleware (as_jwtLib (sv_auth S)) (as_jwtService (sv_auth S)) (rq_Authorization rq)
            else ret (Inr no_context)) (\<lambda>a. case a of
       Inl ans \<Rightarrow> ret [ans]
     | Inr c \<Rightarrow> (case (case r_Roles r of None \<Rightarrow> None | Some roles \<Rightarrow> RBACMiddleware roles c) of
         Some ans \<Rightarrow> ret [ans]
       | None \<Rightarrow> if rate_limited S r c rq then ret [(429, BObject [(''error'', VString ''rate limit exceeded''), (''retry_after'', VString ''60s'')])] else r_Handler r S c i rq))"

text \<open>
  \<^verbatim>\<open>gin.Recovery()\<close>: a panic is answered with 500. An unknown route is answered with 404. Two answers that
  never reach a handler are left out: the redirect (301, or 307 if not \<^verbatim>\<open>GET\<close>) that gin sends for a path that
  differs from a route by a slash at its end, and the 204 of the cors middleware to a preflight; neither
  touches the tables. Requests that they would answer are answered with 404 here.
\<close>

definition ServeHTTP :: "server \<Rightarrow> request \<Rightarrow> world \<Rightarrow> answer list \<times> world" where
  "ServeHTTP S rq w = (case find_route rq of
     None \<Rightarrow> ([(404, BText ''404 page not found'')], w)
   | Some (r, i) \<Rightarrow> (case run_route S r i rq w of
       (Inl e, w') \<Rightarrow> ([(500, BEmpty)], w')
     | (Inr as, w') \<Rightarrow> (as, w')))"

section \<open>Access control\<close>

text \<open>Which roles may use a path of the guarded groups; \<open>None\<close> for any.\<close>

definition required_roles :: "string \<Rightarrow> string \<Rightarrow> string list option" where
  "required_roles meth grp =
     (if grp = ''admin'' then Some [RoleAdmin]
      else if grp = ''orders'' then Some [RoleTrader]
      else if grp = ''assets'' \<and> meth \<noteq> ''GET'' then Some [RoleBroker]
      else None)"

definition guarded_groups :: "string list" where
  "guarded_groups = [''admin'', ''wallet'', ''assets'', ''orders'']"

text \<open>A token that is genuine: signed with the secret of the service, of that use, not expired.\<close>

definition genuine :: "AuthService \<Rightarrow> int \<Rightarrow> Claims \<Rightarrow> string \<Rightarrow> bool" where
  "genuine s t c tok \<longleftrightarrow> t < c_ExpiresAt c \<and> (\<exists>alg. is_HMAC alg \<and> Verifies (as_jwtLib s) (jwt_secret (as_jwtService s)) alg c tok)"

definition route_guarded :: "route \<Rightarrow> bool" where
  "route_guarded r \<longleftrightarrow> (case r_Pattern r of
     Lit g # _ \<Rightarrow> g \<in> set guarded_groups \<longrightarrow> r_Auth r \<and> r_Roles r = required_roles (r_Method r) g
   | _ \<Rightarrow> False)"

lemma routes_guarded: "list_all route_guarded routes"
  by (simp add: routes_def auth_routes_def admin_routes_def wallet_routes_def asset_routes_def order_routes_def
      route_guarded_def guarded_groups_def required_roles_def)

lemma match_path_group: "match_path (Lit g # p) xs \<noteq> None \<Longrightarrow> xs \<noteq> [] \<and> hd xs = g"
  by (cases xs) (auto split: if_splits)

lemma find_route_guarded:
  assumes "find_route rq = Some (r, i)" and "hd (rq_Path rq) \<in> set guarded_groups"
  shows "r_Auth r \<and> r_Roles r = required_roles (rq_Method rq) (hd (rq_Path rq))"
proof -
  from assms(1) have r: "r \<in> set routes" "r_Method r = rq_Method rq" "match_path (r_Pattern r) (rq_Path rq) \<noteq> None"
    by (auto simp: find_route_def split: option.splits dest!: find_SomeD)
  from r(1) routes_guarded have "route_guarded r" by (simp add: list_all_iff)
  then show ?thesis
    using r assms(2) match_path_group [of _ _ "rq_Path rq"] by (auto simp: route_guarded_def split: list.splits segment.splits)
qed

lemma SplitN2_cases: "(\<exists>x. SplitN2 h = [x]) \<or> (\<exists>x y. SplitN2 h = [x, y])"
  by (auto simp: SplitN2_def split: list.splits)

lemma ParseToken_world:
  assumes "ParseToken L s tok w = (r, w')"
  shows "w' = w" and "r = Inl e \<Longrightarrow> \<not> is_panic e"
  using assms by (auto simp: ParseToken_def bindE_def time_now_def ret_def raise_def is_panic_def
            split: sum.splits jwt_error.splits prod.splits if_splits)

lemma AuthMiddleware_token:
  assumes "SplitN2 h = [scheme, tok]" and "EqualFold scheme ''Bearer''" and "h \<noteq> []"
  shows "(\<exists>msg. AuthMiddleware L s h w = (Inr (Inl (401, BError msg)), w))
    \<or> (\<exists>c. ParseToken L s tok w = (Inr c, w) \<and> c_TokenType c = TokenTypeAccess
        \<and> AuthMiddleware L s h w = (Inr (Inr \<lparr>ctx_UserID = Some (c_UserID c), ctx_Role = Some (c_Role c)\<rparr>), w))"
proof (cases "ParseToken L s tok w")
  case (Pair r w1)
  note w1 = ParseToken_world [OF Pair]
  show ?thesis
  proof (cases r)
    case (Inl e)
    then show ?thesis using assms Pair w1 by (simp add: AuthMiddleware_def bindE_def attempt_def ret_def)
  next
    case (Inr c)
    then show ?thesis using assms Pair w1(1) by (auto simp: AuthMiddleware_def bindE_def attempt_def ret_def)
  qed
qed

lemma AuthMiddleware_cases:
  "(\<exists>msg. AuthMiddleware L s h w = (Inr (Inl (401, BError msg)), w))
    \<or> (\<exists>scheme tok c. SplitN2 h = [scheme, tok] \<and> EqualFold scheme ''Bearer'' \<and> ParseToken L s tok w = (Inr c, w)
        \<and> c_TokenType c = TokenTypeAccess
        \<and> AuthMiddleware L s h w = (Inr (Inr \<lparr>ctx_UserID = Some (c_UserID c), ctx_Role = Some (c_Role c)\<rparr>), w))"
proof (cases "h = [] \<or> \<not> (\<exists>scheme tok. SplitN2 h = [scheme, tok] \<and> EqualFold scheme ''Bearer'')")
  case True
  then show ?thesis using SplitN2_cases [of h] by (auto simp: AuthMiddleware_def ret_def)
next
  case False
  then show ?thesis using AuthMiddleware_token [of h _ _ L s w] by fastforce
qed

text \<open>
  Property C6. The guarded groups are guarded: a request to \<^verbatim>\<open>/admin\<close>, \<^verbatim>\<open>/wallet\<close>, \<^verbatim>\<open>/assets\<close> or
  \<^verbatim>\<open>/orders\<close> whose \<^verbatim>\<open>Authorization\<close> header does not carry a genuine, unexpired access token of a role
  that the path requires (administrators, traders for orders, brokers for changing assets) is
  answered with 401, 403 or 404 and changes nothing at all.
\<close>

theorem guarded_routes_safe:
  assumes "jwt_ok (as_jwtLib (sv_auth S))" and "hd (rq_Path rq) \<in> set guarded_groups"
    and "\<not> (\<exists>scheme tok c. SplitN2 (rq_Authorization rq) = [scheme, tok] \<and> EqualFold scheme ''Bearer'' \<and> genuine (sv_auth S) (now w) c tok
        \<and> c_TokenType c = TokenTypeAccess
        \<and> (case required_roles (rq_Method rq) (hd (rq_Path rq)) of None \<Rightarrow> True | Some roles \<Rightarrow> c_Role c \<in> set roles))"
    and "ServeHTTP S rq w = (answers, w')"
  shows "w' = w \<and> (\<exists>code b. answers = [(code, b)] \<and> code \<in> {401, 403, 404})"
proof (cases "find_route rq")
  case None
  then show ?thesis using assms(4) by (auto simp: ServeHTTP_def)
next
  case (Some ri)
  obtain r i where ri: "ri = (r, i)" by fastforce
  have g: "r_Auth r" "r_Roles r = required_roles (rq_Method rq) (hd (rq_Path rq))"
    using find_route_guarded Some ri assms(2) by auto
  let ?auth = "AuthMiddleware (as_jwtLib (sv_auth S)) (as_jwtService (sv_auth S)) (rq_Authorization rq) w"
  consider (refused) msg where "?auth = (Inr (Inl (401, BError msg)), w)"
    | (token) scheme tok c where "SplitN2 (rq_Authorization rq) = [scheme, tok]" "EqualFold scheme ''Bearer''"
        "ParseToken (as_jwtLib (sv_auth S)) (as_jwtService (sv_auth S)) tok w = (Inr c, w)" "c_TokenType c = TokenTypeAccess"
        "?auth = (Inr (Inr \<lparr>ctx_UserID = Some (c_UserID c), ctx_Role = Some (c_Role c)\<rparr>), w)"
    using AuthMiddleware_cases by blast
  then show ?thesis
  proof cases
    case refused
    then show ?thesis using assms(4) Some ri g(1) by (auto simp: ServeHTTP_def run_route_def bindE_def ret_def)
  next
    case token
    have "genuine (sv_auth S) (now w) c tok"
      using ParseToken_genuine [OF assms(1) token(3)] by (simp add: genuine_def)
    with assms(3) token obtain roles where roles: "r_Roles r = Some roles" "c_Role c \<notin> set roles"
      using g(2) by (auto split: option.splits)
    then show ?thesis using assms(4) Some ri g(1) token(5)
      by (auto simp: ServeHTTP_def run_route_def bindE_def ret_def RBACMiddleware_def)
  qed
qed

definition ex_pgTime :: pg_time where
  "ex_pgTime = \<lparr>date_trunc_hour = (\<lambda>t. t - t mod 3600000000), to_char_hour = show_int,
     minus_hours = (\<lambda>t h. if h \<le> 10000000 then Some (t - h * 3600000000) else None)\<rparr>"

definition ex_server :: server where
  "ex_server = \<lparr>sv_auth = ex_auth, sv_pgTime = ex_pgTime, sv_pgnum = ex_pgnum, sv_coll = (\<lambda>s. int (length s)), sv_getPrice = (\<lambda>i. None),
     sv_dbPing = True, sv_redisPing = Some True, sv_dial = (\<lambda>b. True), sv_brokers = [''localhost:9092''], sv_env = ''development'',
     sv_fmtTime = show_int, sv_allow = (\<lambda>n k. True)\<rparr>"

definition ex_http_request :: "string \<Rightarrow> string list \<Rightarrow> string \<Rightarrow> request" where
  "ex_http_request m p a = \<lparr>rq_Method = m, rq_Path = p, rq_Authorization = a, rq_IdempotencyKey = [], rq_ClientIP = ''10.0.0.1'', rq_Query = [],
     rq_Register = Inl ''EOF'', rq_Login = Inl ''EOF'', rq_Refresh = Inl ''EOF'', rq_Status = Inl ''EOF'', rq_Amount = Inl ''EOF'',
     rq_CreateAsset = Inl ''EOF'', rq_UpdateAsset = Inl ''EOF'', rq_PlaceOrder = Inl ''EOF''\<rparr>"

lemma ex_server_simps [simp]: "sv_auth ex_server = ex_auth" "sv_allow ex_server n k"
  by (simp_all add: ex_server_def)

theorem guarded_routes_safe_witness:
  "snd (ServeHTTP ex_server (ex_http_request ''DELETE'' [''orders'', ''2''] ''Bearer'') ex_world) = ex_world"
proof -
  have "SplitN2 ''Bearer'' = [''Bearer'']" by (simp add: SplitN2_def)
  moreover obtain as w' where "ServeHTTP ex_server (ex_http_request ''DELETE'' [''orders'', ''2''] ''Bearer'') ex_world = (as, w')"
    by fastforce
  ultimately show ?thesis
    using guarded_routes_safe [of ex_server "ex_http_request ''DELETE'' [''orders'', ''2''] ''Bearer''" ex_world as w'] ex_jwt_ok(1)
    by (simp add: ex_http_request_def guarded_groups_def)
qed

section \<open>Authorised requests\<close>

text \<open>The request carries this access token of the service.\<close>

definition authorised :: "server \<Rightarrow> request \<Rightarrow> world \<Rightarrow> Claims \<Rightarrow> bool" where
  "authorised S rq w c \<longleftrightarrow> (\<exists>scheme tok. SplitN2 (rq_Authorization rq) = [scheme, tok] \<and> EqualFold scheme ''Bearer''
     \<and> SignedString (as_jwtLib (sv_auth S)) (jwt_secret (as_jwtService (sv_auth S))) c = Inr tok)
     \<and> c_TokenType c = TokenTypeAccess \<and> now w < NewNumericDate (as_jwtLib (sv_auth S)) (c_ExpiresAt c)"

definition claims_context :: "Claims \<Rightarrow> gin_context" where
  "claims_context c = \<lparr>ctx_UserID = Some (c_UserID c), ctx_Role = Some (c_Role c)\<rparr>"

lemma mustUserID_claims [simp]: "mustUserID (claims_context c) = c_UserID c"
  by (simp add: mustUserID_def claims_context_def)

lemma AuthMiddleware_authorised:
  assumes "jwt_ok (as_jwtLib (sv_auth S))" and "authorised S rq w c"
  shows "AuthMiddleware (as_jwtLib (sv_auth S)) (as_jwtService (sv_auth S)) (rq_Authorization rq) w = (Inr (Inr (claims_context c)), w)"
proof -
  from assms(2) obtain scheme tok where t: "SplitN2 (rq_Authorization rq) = [scheme, tok]" "EqualFold scheme ''Bearer''"
    and s: "SignedString (as_jwtLib (sv_auth S)) (jwt_secret (as_jwtService (sv_auth S))) c = Inr tok"
    and c: "c_TokenType c = TokenTypeAccess" "now w < NewNumericDate (as_jwtLib (sv_auth S)) (c_ExpiresAt c)" by (auto simp: authorised_def)
  have "rq_Authorization rq \<noteq> []" using t(1) by (auto simp: SplitN2_def)
  moreover have "ParseToken (as_jwtLib (sv_auth S)) (as_jwtService (sv_auth S)) tok w
      = (Inr (kept_claims (as_jwtLib (sv_auth S)) c), w)"
    by (rule ParseToken_signed [OF assms(1) s c(2)])
  ultimately show ?thesis
    using t c(1) by (simp add: AuthMiddleware_def bindE_def attempt_def ret_def claims_context_def)
qed

text \<open>Where the guards let a request pass, the handler of the route answers.\<close>

lemma ServeHTTP_authorised:
  assumes "jwt_ok (as_jwtLib (sv_auth S))" and "authorised S rq w c" and "find_route rq = Some (r, i)" and "r_Auth r"
    and "case r_Roles r of None \<Rightarrow> True | Some roles \<Rightarrow> c_Role c \<in> set roles" and "\<not> rate_limited S r (claims_context c) rq"
  shows "ServeHTTP S rq w = (case r_Handler r S (claims_context c) i rq w of (Inl e, w') \<Rightarrow> ([(500, BEmpty)], w') | (Inr as, w') \<Rightarrow> (as, w'))"
proof -
  have "(case r_Roles r of None \<Rightarrow> None | Some roles \<Rightarrow> RBACMiddleware roles (claims_context c)) = None"
    using assms(5) by (auto simp: RBACMiddleware_def claims_context_def split: option.splits)
  then show ?thesis
    using AuthMiddleware_authorised [OF assms(1,2)] assms(3,4,6) by (simp add: ServeHTTP_def run_route_def bindE_def)
qed

lemmas route_defs = find_route_def routes_def auth_routes_def admin_routes_def wallet_routes_def asset_routes_def order_routes_def

lemma find_route_audit: "rq_Method rq = ''GET'' \<Longrightarrow> rq_Path rq = [''admin'', ''audit''] \<Longrightarrow>
    \<exists>r. find_route rq = Some (r, []) \<and> r_Auth r \<and> r_Roles r = Some [RoleAdmin] \<and> r_Limiter r = None \<and> r_Handler r = (\<lambda>S c i rq. h_AuditLogs rq)"
  by (simp add: route_defs)

lemma find_route_withdraw: "rq_Method rq = ''POST'' \<Longrightarrow> rq_Path rq = [''wallet'', ''withdraw''] \<Longrightarrow>
    \<exists>r. find_route rq = Some (r, []) \<and> r_Auth r \<and> r_Roles r = None \<and> r_Limiter r = Some (''wallet'', ByUser)
      \<and> r_Handler r = (\<lambda>S c i rq. h_Withdraw c rq)"
  by (simp add: route_defs)

lemma find_route_cancel: "rq_Method rq = ''DELETE'' \<Longrightarrow> rq_Path rq = [''orders'', x] \<Longrightarrow> x \<noteq> [] \<Longrightarrow>
    \<exists>r. find_route rq = Some (r, x) \<and> r_Auth r \<and> r_Roles r = Some [RoleTrader] \<and> r_Limiter r = Some (''order'', ByUser)
      \<and> r_Handler r = (\<lambda>S c i rq. h_CancelOrder c i)"
  by (simp add: route_defs)

text \<open>
  \<^verbatim>\<open>POST /wallet/withdraw\<close> from end to end: the caller is the user of the token. With
  enough money the answer is 200 with the new balance, and exactly the caller's balance is reduced;
  otherwise it is 422 and nothing changes.
\<close>

theorem withdraw_over_http:
  assumes "jwt_ok (as_jwtLib (sv_auth S))" and "authorised S rq w c" and "rq_Method rq = ''POST''" and "rq_Path rq = [''wallet'', ''withdraw'']"
    and "sv_allow S ''wallet'' (''user:'' @ show_int (c_UserID c))" and "rq_Amount rq = Inr inp"
    and "schema_ok (db w) (seqs w)" and "faults w = []" and "balance_of (db w) (c_UserID c) = Some b"
    and "decimal_amount (Amount inp) n" and "0 < n" and "b \<le> 10 ^ 18" and "n \<le> 10 ^ 18"
  shows "if n \<le> b then \<exists>uw tx w'. ServeHTTP S rq w = ([(200, BObject [(''wallet'', VWallet uw), (''transaction'', VTransaction tx)])], w')
        \<and> w_Balance uw = numeric_out (b - n) \<and> balance_of (db w') = (balance_of (db w))(c_UserID c \<mapsto> b - n)
    else ServeHTTP S rq w = ([(422, BError ''insufficient balance'')], w)"
proof -
  from find_route_withdraw [OF assms(3,4)] obtain r where r: "find_route rq = Some (r, [])" "r_Auth r" "r_Roles r = None"
    "r_Limiter r = Some (''wallet'', ByUser)" "r_Handler r = (\<lambda>S c i rq. h_Withdraw c rq)" by blast
  have "\<not> rate_limited S r (claims_context c) rq"
    using r(4) assms(5) by (simp add: rate_limited_def ByUserID_def claims_context_def)
  from ServeHTTP_authorised [OF assms(1,2) r(1,2) _ this] r(3,5)
  have s: "ServeHTTP S rq w = (case h_Withdraw (claims_context c) rq w of (Inl e, w') \<Rightarrow> ([(500, BEmpty)], w') | (Inr as, w') \<Rightarrow> (as, w'))"
    by simp
  show ?thesis
    using Withdraw_eval [OF assms(7-13)] assms(6)
    by (auto simp: s h_Withdraw_def with_body_def answer_of_def bindE_def attempt_def ret_def is_panic_def split: if_splits)
qed

text \<open>
  Property C13. \<^verbatim>\<open>DELETE /orders/:id\<close> from end to end, on every branch: what is no number is answered
  with 400; an unknown order with 404, an order of somebody else with 403, a closed order with 422,
  all without a change; an open order of the caller is cancelled with 200. For a number below 1 the
  handler goes on after its answer 400 and writes a second one.
\<close>

theorem cancel_over_http:
  assumes "jwt_ok (as_jwtLib (sv_auth S))" and "authorised S rq w c" and "rq_Method rq = ''DELETE''" and "rq_Path rq = [''orders'', x]"
    and "x \<noteq> []" and "c_Role c = RoleTrader" and "sv_allow S ''order'' (''user:'' @ show_int (c_UserID c))" and "faults w = []"
    and "\<forall>r \<in> set (orders (db w)). 1 \<le> o_ID r"
  shows "case atoi x of
      None \<Rightarrow> ServeHTTP S rq w = ([(400, BError ''invalid id'')], w)
    | Some i \<Rightarrow>
        if i < 1 then ServeHTTP S rq w = ([(400, BError ''invalid id''), (404, BError ''order not found'')], w)
        else (case find (\<lambda>r. o_ID r = i) (orders (db w)) of
          None \<Rightarrow> ServeHTTP S rq w = ([(404, BError ''order not found'')], w)
        | Some r \<Rightarrow>
            if o_UserID r \<noteq> c_UserID c then ServeHTTP S rq w = ([(403, BError (error_text ErrOrderNotOwned))], w)
            else if \<not> order_open r then ServeHTTP S rq w = ([(422, BError (error_text ErrOrderNotCancellable))], w)
            else \<exists>w'. ServeHTTP S rq w = ([(200, BObject [(''order'', VOrder ((scan_order r)\<lparr>o_Status := OrderStatusCancelled\<rparr>))])], w')
                   \<and> db w' = (db w)\<lparr>orders :=
                        map (\<lambda>k. if o_ID k = i then k\<lparr>o_Status := ''CANCELLED'', o_UpdatedAt := now w\<rparr> else k) (orders (db w))\<rparr>)"
proof -
  from find_route_cancel [OF assms(3,4,5)] obtain r where r: "find_route rq = Some (r, x)" "r_Auth r" "r_Roles r = Some [RoleTrader]"
    "r_Limiter r = Some (''order'', ByUser)" "r_Handler r = (\<lambda>S c i rq. h_CancelOrder c i)" by blast
  have "\<not> rate_limited S r (claims_context c) rq"
    using r(4) assms(7) by (simp add: rate_limited_def ByUserID_def claims_context_def)
  from ServeHTTP_authorised [OF assms(1,2) r(1,2) _ this] r(3,5) assms(6)
  have s: "ServeHTTP S rq w = (case h_CancelOrder (claims_context c) x w of (Inl e, w') \<Rightarrow> ([(500, BEmpty)], w') | (Inr as, w') \<Rightarrow> (as, w'))"
    by simp
  note h_defs = s h_CancelOrder_def with_id_def parseIDParam_def answer_of_def bindE_def attempt_def ret_def is_panic_def
  show ?thesis
  proof (cases "atoi x")
    case None
    then show ?thesis by (simp add: h_defs)
  next
    case (Some i)
    note eval = CancelOrder_eval [OF assms(8), where u = "c_UserID c"]
    show ?thesis
    proof (cases "i < 1")
      case True
      have "find (\<lambda>r. o_ID r = 0) (orders (db w)) = None" using assms(9) by (auto simp: find_None_iff_set)
      then show ?thesis using Some True eval [where i = 0] by (simp add: h_defs)
    next
      case False
      then show ?thesis using Some eval [where i = i] by (auto simp: h_defs set_status_map OrderStatusCancelled_def split: option.splits)
    qed
  qed
qed

text \<open>
  The handler of \<^verbatim>\<open>GET /admin/audit\<close> divides by the page size it was asked for, although
  the service it calls has replaced it: with a page size of 0, or one that is no number, it panics
  after reading the log, and the administrator gets a 500 instead of the first page.
\<close>

theorem AuditLogs_divides_by_zero:
  assumes "jwt_ok (as_jwtLib (sv_auth S))" and "authorised S rq w c" and "rq_Method rq = ''GET''" and "rq_Path rq = [''admin'', ''audit'']"
    and "c_Role c = RoleAdmin" and "faults w = []" and "rq_Query rq = [(''page_size'', v)]" and "Atoi v = 0"
  shows "ServeHTTP S rq w = ([(500, BEmpty)], w) \<and> (\<exists>logs count. ListAuditLogs None [] 1 (Atoi v) w = (Inr (logs, count), w))"
proof -
  from find_route_audit [OF assms(3,4)] obtain r where r: "find_route rq = Some (r, [])" "r_Auth r" "r_Roles r = Some [RoleAdmin]"
    "r_Limiter r = None" "r_Handler r = (\<lambda>S c i rq. h_AuditLogs rq)" by blast
  have "\<not> rate_limited S r (claims_context c) rq" using r(4) by (simp add: rate_limited_def)
  from ServeHTTP_authorised [OF assms(1,2) r(1,2) _ this] r(3,5) assms(5)
  have s: "ServeHTTP S rq w = (case h_AuditLogs rq w of (Inl e, w') \<Rightarrow> ([(500, BEmpty)], w') | (Inr as, w') \<Rightarrow> (as, w'))" by simp
  have "pageOffset 1 20 = 0" by (simp add: pageOffset_def wrap64_def)
  then have l: "ListAuditLogs None [] 1 0 w = (Inr (take 20 (sort_key (\<lambda>r. - l_CreatedAt r) (filter (audit_matches None []) (audit_logs (db w)))),
      int (length (filter (audit_matches None []) (audit_logs (db w))))), w)"
    using assms(6) by (simp add: ListAuditLogs_def clampPage_def clampPageSize_def audit_List_def audit_Count_def limit_offset_def monad_defs Let_def)
  have p: "Atoi ''1'' = 1" by code_simp
  have "h_AuditLogs rq w = (Inl (Panic ''integer divide by zero''), w)"
    using l assms(7,8) p
    by (simp add: h_AuditLogs_def query_int_def DefaultQuery_def Let_def bindE_def attempt_def raise_def del: filter.simps)
  with s l assms(8) show ?thesis by simp
qed

section \<open>An authorised request\<close>

definition ex_claims :: "int \<Rightarrow> string \<Rightarrow> Claims" where
  "ex_claims u role = claims_for ex_jwt 0 u role TokenTypeAccess 900"

definition ex_authorised :: "int \<Rightarrow> string \<Rightarrow> string \<Rightarrow> string list \<Rightarrow> request" where
  "ex_authorised u role m p = ex_http_request m p (''Bearer '' @ encode_token ''s'' (ex_claims u role))"

lemma ex_authorised_simps [simp]:
  "rq_Method (ex_authorised u role m p) = m" "rq_Path (ex_authorised u role m p) = p"
  "c_UserID (ex_claims u role) = u" "c_Role (ex_claims u role) = role"
  by (simp_all add: ex_authorised_def ex_http_request_def ex_claims_def)

lemma SplitN2_Bearer: "SplitN2 (''Bearer '' @ tok) = [''Bearer'', tok]"
  by (simp add: SplitN2_def)

lemma ex_authorised_ok: "authorised ex_server (ex_authorised u role m p) ex_world (ex_claims u role)"
proof -
  have "SplitN2 (rq_Authorization (ex_authorised u role m p)) = [''Bearer'', encode_token ''s'' (ex_claims u role)]"
    unfolding ex_authorised_def ex_http_request_def by (simp only: request.select_convs SplitN2_Bearer)
  moreover have "SignedString ex_jwt ''s'' (ex_claims u role) = Inr (encode_token ''s'' (ex_claims u role))"
    by (simp add: ex_jwt_def)
  moreover have "now ex_world < NewNumericDate ex_jwt (c_ExpiresAt (ex_claims u role))" by (simp add: ex_claims_def ex_world_def ex_jwt_def)
  ultimately show ?thesis
    unfolding authorised_def by (simp add: EqualFold_def ex_auth_def ex_claims_def)
qed

lemma authorised_update:
  "authorised S (rq\<lparr>rq_Amount := a\<rparr>) w c = authorised S rq w c" "authorised S (rq\<lparr>rq_Query := q\<rparr>) w c = authorised S rq w c"
  by (simp_all add: authorised_def)

theorem withdraw_over_http_witness:
  "\<exists>uw tx w'. ServeHTTP ex_server ((ex_authorised 1 ''trader'' ''POST'' [''wallet'', ''withdraw''])\<lparr>rq_Amount := Inr \<lparr>Amount = ''1e3'', Description = None\<rparr>\<rparr>)
       ex_world = ([(200, BObject [(''wallet'', VWallet uw), (''transaction'', VTransaction tx)])], w')
     \<and> balance_of (db w') 1 = Some 0"
proof -
  have d: "decimal_amount (Amount \<lparr>Amount = ''1e3'', Description = None\<rparr>) 100000000000"
    unfolding decimal_amount_def by (simp, code_simp)
  show ?thesis
    using withdraw_over_http [OF _ _ _ _ _ _ ex_world_ok ex_world_quiet _ d, of ex_server
        "(ex_authorised 1 ''trader'' ''POST'' [''wallet'', ''withdraw''])\<lparr>rq_Amount := Inr \<lparr>Amount = ''1e3'', Description = None\<rparr>\<rparr>" "ex_claims 1 ''trader''"]
      ex_jwt_ok(1) ex_authorised_ok balance_row_ex
    by (fastforce simp: authorised_update)
qed

theorem cancel_over_http_witness:
  "ServeHTTP ex_server (ex_authorised 1 ''trader'' ''DELETE'' [''orders'', ''0'']) ex_world
     = ([(400, BError ''invalid id''), (404, BError ''order not found'')], ex_world)"
proof -
  have "atoi ''0'' = Some 0" by code_simp
  moreover have "\<forall>r \<in> set (orders (db ex_world)). 1 \<le> o_ID r" by (simp add: ex_defs)
  ultimately show ?thesis
    using cancel_over_http [of ex_server "ex_authorised 1 ''trader'' ''DELETE'' [''orders'', ''0'']" ex_world "ex_claims 1 ''trader''" "''0''"]
      ex_jwt_ok(1) ex_authorised_ok by (simp add: RoleTrader_def)
qed

theorem AuditLogs_divides_by_zero_witness:
  "fst (ServeHTTP ex_server ((ex_authorised 2 ''admin'' ''GET'' [''admin'', ''audit''])\<lparr>rq_Query := [(''page_size'', ''all'')]\<rparr>) ex_world)
     = [(500, BEmpty)]"
proof -
  have "Atoi ''all'' = 0" by code_simp
  then show ?thesis
    using AuditLogs_divides_by_zero [of ex_server "(ex_authorised 2 ''admin'' ''GET'' [''admin'', ''audit''])\<lparr>rq_Query := [(''page_size'', ''all'')]\<rparr>" ex_world
        "ex_claims 2 ''admin''" "''all''"] ex_jwt_ok(1) ex_authorised_ok by (simp add: RoleAdmin_def authorised_update)
qed

end
