(* ===== verification/System.thy ===== *)
theory System
  imports Http Book
begin

text \<open>
  What the whole platform keeps. The locale \<open>quiet_inv\<close> is the contract of an invariant of the tables
  with the repositories: every statement that writes, those of orders and trades apart, keeps it. Then
  every service, handler and consumer that uses only these keeps it, whatever fails. \<open>platform_inv\<close>
  adds the order operations, the expiry job and the engine, whose turns need an order that is ready for
  it: then every request keeps the invariant.
\<close>

section \<open>Invariants and the repositories\<close>

text \<open>What is behind a check may rely on it.\<close>

lemma preserves_guard: "(\<not> c \<Longrightarrow> preserves I b) \<Longrightarrow> preserves I (if c then raise e else b)"
  by simp

locale quiet_inv = table_inv I for I :: "tables \<Rightarrow> (string \<Rightarrow> int) \<Rightarrow> bool" +
  assumes CreateUser_keeps: "u_Role u \<in> set validRoles \<Longrightarrow> preserves I (CreateUser u)"
    and UpdateUserStatus_keeps: "st \<in> set [UserStatusActive, UserStatusSuspended] \<Longrightarrow> preserves I (repo_UpdateUserStatus i st)"
    and CreateWallet_keeps: "preserves I (CreateWallet i)"
    and UpdateBalance_keeps: "preserves I (UpdateBalance i s v)"
    and InsertTransaction_keeps: "x_TransactionType wt \<in> set [TxTypeDeposit, TxTypeWithdrawal] \<Longrightarrow> x_Status wt = TxStatusCompleted \<Longrightarrow>
      preserves I (InsertTransaction wt)"
    and asset_Create_keeps: "pg_ok pgnum \<Longrightarrow> a_Status a = AssetStatusActive \<Longrightarrow> preserves I (asset_Create pgnum a)"
    and asset_Update_keeps: "pg_ok pgnum \<Longrightarrow> a_Status a = AssetStatusDisabled \<or> a_Status a \<in> a_Status ` set (assets (db w)) \<Longrightarrow>
      asset_Update pgnum a w = (r, w') \<Longrightarrow> I (db w) (seqs w) \<Longrightarrow> I (db w') (seqs w')"
    and audit_Create_keeps: "preserves I (audit_Create l)"
begin

lemma wallet_runTx_keeps: "preserves I fn \<Longrightarrow> preserves I (wallet_runTx fn)"
  unfolding wallet_runTx_def by (rule preserves_runner) (auto dest: Commit_frame)

lemma limit_offset_keeps: "preserves I (limit_offset a b rs)"
  unfolding limit_offset_def by (intro preserves_rules)

lemmas keeps_rules = preserves_rules wallet_runTx_keeps limit_offset_keeps CreateUser_keeps UpdateUserStatus_keeps CreateWallet_keeps
  UpdateBalance_keeps InsertTransaction_keeps asset_Create_keeps audit_Create_keeps asset_GetByID_preserves
  GetByUserID_preserves user_reads_preserve owned_asset_preserves order_reads_preserve

lemma wallet_reads_keep: "preserves I (GetByUserIDForUpdate u)" "preserves I (wallet_repo_ListTransactions i a b)" "preserves I (CountTransactions i)"
  unfolding GetByUserIDForUpdate_def wallet_repo_ListTransactions_def CountTransactions_def by (intro keeps_rules)+

lemma publish_keeps: "preserves I (publish_wallet u c k)" "preserves I (publish_order k p)"
  by (auto simp: preserves_def dest!: publish_wallet_db publish_order_db)

lemma wallet_service_keeps:
  "preserves I (Deposit u inp)" "preserves I (Withdraw u inp)" "preserves I (GetWallet u)" "preserves I (ListTransactions u p s)"
  "preserves I (CreateWalletForUser u)"
  unfolding Deposit_def Withdraw_def Deposit_tx_def Withdraw_tx_def store_balance_def GetWallet_def ListTransactions_def CreateWalletForUser_def Let_def
  by (intro keeps_rules wallet_reads_keep publish_keeps; simp)+

text \<open>An asset is written with the status it was read with, or disabled.\<close>

lemma owned_update_keeps:
  assumes pg: "pg_ok pgnum" and g: "\<And>ex. preserves I (g ex)" and k: "\<And>a. preserves I (k a)"
    and st: "\<And>ex w ch w'. g ex w = (Inr ch, w') \<Longrightarrow> db w' = db w \<and> (a_Status ch = AssetStatusDisabled \<or> a_Status ch = a_Status ex)"
  shows "preserves I (bindE (owned_asset c b i) (\<lambda>ex. bindE (g ex) (\<lambda>ch. bindE (wrapE c2 (asset_Update pgnum ch)) k)))"
proof -
  define upd where "upd ch w = (if a_Status ch = AssetStatusDisabled \<or> a_Status ch \<in> a_Status ` set (assets (db w))
    then asset_Update pgnum ch w else ret undefined w)" for ch w
  have "seqs_le (seqs w) (seqs w')" if "asset_Update pgnum ch w = (r, w')" for ch w r w'
    using preserves_seqs [OF asset_Update_preserves [OF pg] that] .
  then have u: "preserves I (upd ch)" for ch
    unfolding preserves_def upd_def using asset_Update_keeps [OF pg] by (auto simp: ret_def split: if_splits)
  have "bindE (owned_asset c b i) (\<lambda>ex. bindE (g ex) (\<lambda>ch. bindE (wrapE c2 (asset_Update pgnum ch)) k))
      = bindE (owned_asset c b i) (\<lambda>ex. bindE (g ex) (\<lambda>ch. bindE (wrapE c2 (upd ch)) k))"
  proof
    fix w
    have e: "bindE (wrapE c2 (asset_Update pgnum ch)) k w2 = bindE (wrapE c2 (upd ch)) k w2"
      if o: "owned_asset c b i w = (Inr ex, w1)" and ch: "g ex w1 = (Inr ch, w2)" for ex w1 ch w2
    proof -
      have "a_Status ch = AssetStatusDisabled \<or> a_Status ch \<in> a_Status ` set (assets (db w2))"
        using owned_asset_row [OF o] st [OF ch] by auto
      then show ?thesis by (simp add: bindE_def wrapE_def upd_def)
    qed
    show "bindE (owned_asset c b i) (\<lambda>ex. bindE (g ex) (\<lambda>ch. bindE (wrapE c2 (asset_Update pgnum ch)) k)) w
      = bindE (owned_asset c b i) (\<lambda>ex. bindE (g ex) (\<lambda>ch. bindE (wrapE c2 (upd ch)) k)) w"
      using e by (auto simp: bindE_def [of "owned_asset c b i"] bindE_def [of "g _"] split: prod.split sum.split)
  qed
  then show ?thesis using u g k by (auto intro!: preserves_rules owned_asset_preserves)
qed

lemma asset_service_keeps:
  assumes "pg_ok pgnum"
  shows "preserves I (CreateAsset pgnum b ci)" "preserves I (UpdateAsset pgnum b i ui)" "preserves I (DisableAsset pgnum b i)"
proof -
  show "preserves I (CreateAsset pgnum b ci)" unfolding CreateAsset_def by (intro keeps_rules assms) simp
  show "preserves I (UpdateAsset pgnum b i ui)" unfolding UpdateAsset_def
    by (rule owned_update_keeps [OF assms])
      (auto simp: apply_input_def Let_def bindE_Inr intro!: keeps_rules)
  have ret_bind: "bindE (ret x) f = f x" for x :: "string asset" and f :: "string asset \<Rightarrow> string asset io"
    by (simp add: fun_eq_iff bindE_def ret_def)
  have "DisableAsset pgnum b i = bindE (owned_asset ''disable asset: get'' b i) (\<lambda>ex. bindE (ret (ex\<lparr>a_Status := AssetStatusDisabled\<rparr>))
      (\<lambda>ch. bindE (wrapE ''disable asset: save'' (asset_Update pgnum ch)) (\<lambda>a. bindE (emit (InvalidatePrice (a_ID a))) (\<lambda>_. ret a))))"
    by (simp only: DisableAsset_def ret_bind)
  then show "preserves I (DisableAsset pgnum b i)"
    by (simp only:) (rule owned_update_keeps [OF assms]; (auto simp: ret_def; fail)?; intro keeps_rules)
qed

lemma GetAsset_keeps: "preserves I (GetAsset gp i)"
  unfolding GetAsset_def cached_price_def by (intro keeps_rules)

lemma cached_prices_keeps: "preserves I (cached_prices gp as)"
  by (induction as) (auto intro!: keeps_rules simp: cached_price_def)

lemma ListActiveAssets_keeps: "preserves I (ListActiveAssets coll gp)"
  unfolding ListActiveAssets_def ListActive_def by (intro keeps_rules cached_prices_keeps)

lemma token_keeps: "preserves I (GenerateTokenPair L s i role)" "preserves I (ParseToken L s tok)"
  unfolding GenerateTokenPair_def generateToken_def ParseToken_def by (intro keeps_rules | simp split: jwt_error.split)+

lemma create_wallet_keeps: "wired s \<Longrightarrow> preserves I (create_wallet s i)"
  by (auto simp: create_wallet_def wired_def intro!: keeps_rules wallet_service_keeps)

lemma auth_service_keeps:
  "wired s \<Longrightarrow> preserves I (Register s rr)" "preserves I (Login s lr)" "preserves I (RefreshTokens s tok)"
  unfolding Register_def Login_def RefreshTokens_def
  by (rule preserves_guard | intro keeps_rules token_keeps create_wallet_keeps | assumption | simp)+

lemma UpdateUserStatus_service_keeps: "preserves I (UpdateUserStatus a i st)"
  unfolding UpdateUserStatus_def by (rule preserves_guard | intro keeps_rules | simp)+

lemma admin_service_keeps:
  "preserves I (admin_ListUsers r s p ps)" "preserves I (VolumeAnalytics P hours)"
  "preserves I (SuspiciousUsers P h k)" "preserves I (ListAuditLogs u act p ps)"
  unfolding admin_ListUsers_def repo_ListUsers_def VolumeAnalytics_def SuspiciousUsers_def ListAuditLogs_def
    audit_List_def audit_Count_def window_start_def Let_def
  by (intro keeps_rules)+

lemma audit_consumer_keeps: "preserves I (audit_consumer rs)"
proof (induction rs)
  case (Cons r rs)
  have "preserves I (audit_handle we)" for we
    unfolding audit_handle_def write_audit_def by (intro keeps_rules)
  then show ?case using Cons by (cases r) (auto intro!: keeps_rules)
qed (simp)

lemma order_service_reads_keep: "preserves I (GetOrder u i)" "preserves I (ListOrders u p s)"
  unfolding GetOrder_def ListOrders_def ListByUser_def CountByUser_def by (intro keeps_rules)+

lemma reconcile_loop_keeps: "preserves I (reconcile_loop n ws)"
  by (induction ws arbitrary: n) (auto intro!: keeps_rules simp: reconcile_wallet_def sum_transactions_def split: option.split)

lemma verify_loop_keeps: "preserves I (verify_loop n ts)"
  by (induction ts arbitrary: n) (auto intro!: keeps_rules simp: verify_trade_def verify_side_def transaction_exists_def)

lemma check_jobs_keep: "preserves I ReconcileWallets" "preserves I VerifyTradeSettlements"
  unfolding ReconcileWallets_def VerifyTradeSettlements_def by (intro keeps_rules reconcile_loop_keeps verify_loop_keeps)+

lemma AuthMiddleware_keeps: "preserves I (AuthMiddleware L s h)"
  unfolding AuthMiddleware_def by (auto intro!: keeps_rules token_keeps split: list.split)

end

section \<open>Handlers\<close>

lemma with_id_preserves: "(\<And>i. preserves I (f i)) \<Longrightarrow> preserves I (with_id s f)"
  unfolding with_id_def by (intro preserves_rules)

lemma with_body_preserves: "(\<And>x. b = Inr x \<Longrightarrow> preserves I (f x)) \<Longrightarrow> preserves I (with_body b f)"
  by (auto simp: with_body_def split: sum.split)

lemma answer_of_preserves: "preserves I m \<Longrightarrow> preserves I (answer_of m e ok)"
  unfolding answer_of_def by (intro preserves_rules)

lemmas handler_rules = with_id_preserves with_body_preserves answer_of_preserves preserves_rules

text \<open>What \<^verbatim>\<open>binding:"required,oneof=BUY SELL"\<close> promises of a body that was bound.\<close>

definition request_ok :: "request \<Rightarrow> bool" where
  "request_ok rq \<longleftrightarrow> (\<forall>inp. rq_PlaceOrder rq = Inr inp \<longrightarrow> side_ok (pi_Side inp))"

text \<open>A server whose wallet service is wired to the registration and whose database reads numerals as PostgreSQL does.\<close>

definition server_ok :: "server \<Rightarrow> bool" where
  "server_ok S \<longleftrightarrow> wired (sv_auth S) \<and> pg_ok (sv_pgnum S)"

locale platform_inv = quiet_inv I for I :: "tables \<Rightarrow> (string \<Rightarrow> int) \<Rightarrow> bool" +
  fixes ready :: "tables \<Rightarrow> string order \<Rightarrow> bool"
  assumes PlaceOrder_keeps: "side_ok (pi_Side inp) \<Longrightarrow> preserves I (PlaceOrder u inp)"
    and CancelOrder_keeps: "preserves I (CancelOrder u i)"
    and ExpireStaleOrders_keeps: "preserves I ExpireStaleOrders"
    and process_step_keeps: "ready (db w) o1 \<Longrightarrow> process_step o1 w = (x, w') \<Longrightarrow> I (db w) (seqs w) \<Longrightarrow> I (db w') (seqs w')"
begin

lemmas service_rules = wallet_service_keeps asset_service_keeps GetAsset_keeps ListActiveAssets_keeps auth_service_keeps admin_service_keeps UpdateUserStatus_service_keeps
  order_service_reads_keep check_jobs_keep CancelOrder_keeps ExpireStaleOrders_keeps

lemma auth_handlers_keep:
  "wired s \<Longrightarrow> preserves I (h_Register s rq)" "preserves I (h_Login s rq)" "preserves I (h_Refresh s rq)" "preserves I (h_Me c)"
  unfolding h_Register_def h_Login_def h_Refresh_def h_Me_def by (intro handler_rules service_rules | assumption)+

lemma wallet_handlers_keep:
  "preserves I (h_GetWallet c)" "preserves I (h_Deposit c rq)" "preserves I (h_Withdraw c rq)" "preserves I (h_ListTransactions c rq)"
  unfolding h_GetWallet_def h_Deposit_def h_Withdraw_def h_ListTransactions_def by (intro handler_rules service_rules)+

lemma asset_handlers_keep:
  "pg_ok pgnum \<Longrightarrow> preserves I (h_CreateAsset pgnum c rq)" "pg_ok pgnum \<Longrightarrow> preserves I (h_UpdateAsset pgnum c i rq)"
  "pg_ok pgnum \<Longrightarrow> preserves I (h_DisableAsset pgnum c i)" "preserves I (h_GetAsset gp i)" "preserves I (h_ListAssets coll gp)"
  unfolding h_CreateAsset_def h_UpdateAsset_def h_DisableAsset_def h_GetAsset_def h_ListAssets_def
  by (intro handler_rules service_rules | assumption)+

lemma order_handlers_keep:
  "request_ok rq \<Longrightarrow> preserves I (h_PlaceOrder c rq)" "preserves I (h_CancelOrder c i)" "preserves I (h_GetOrder c i)" "preserves I (h_ListOrders c rq)"
proof -
  have "side_ok (pi_Side (with_key rq inp))" if "request_ok rq" "rq_PlaceOrder rq = Inr inp" for inp
    using that by (simp add: request_ok_def with_key_def)
  then show "request_ok rq \<Longrightarrow> preserves I (h_PlaceOrder c rq)"
    unfolding h_PlaceOrder_def Let_def by (intro handler_rules PlaceOrder_keeps)
qed (unfold h_CancelOrder_def h_GetOrder_def h_ListOrders_def, (intro handler_rules service_rules)+)

lemma admin_handlers_keep:
  "preserves I (h_ListUsers rq)" "preserves I (h_UpdateUserStatus c i rq)" "preserves I (h_VolumeAnalytics P rq)"
  "preserves I (h_SuspiciousUsers P rq)" "preserves I (h_AdminHealth h f)" "preserves I (h_AuditLogs rq)" "preserves I (h_health S)"
  "preserves I m \<Longrightarrow> preserves I (h_job k m)"
  unfolding h_ListUsers_def h_UpdateUserStatus_def h_VolumeAnalytics_def h_SuspiciousUsers_def h_AdminHealth_def h_AuditLogs_def
    h_health_def h_job_def
  by (intro handler_rules service_rules | assumption)+

lemma routes_keep:
  assumes "server_ok S" and "request_ok rq" and "r \<in> set routes"
  shows "preserves I (r_Handler r S c i rq)"
proof -
  have w: "wired (sv_auth S)" "pg_ok (sv_pgnum S)" using assms(1) by (simp_all add: server_ok_def)
  show ?thesis
    using assms(3) unfolding routes_def set_append auth_routes_def admin_routes_def wallet_routes_def asset_routes_def order_routes_def
    by (auto intro!: auth_handlers_keep wallet_handlers_keep asset_handlers_keep order_handlers_keep admin_handlers_keep w assms(2)
        service_rules)
qed

lemma ServeHTTP_keeps:
  assumes "server_ok S" and "request_ok rq" and "ServeHTTP S rq w = (as, w')" and "I (db w) (seqs w)"
  shows "I (db w') (seqs w')"
proof (cases "find_route rq")
  case (Some ri)
  obtain r i where ri: "ri = (r, i)" by fastforce
  have "r \<in> set routes" using Some ri by (auto simp: find_route_def dest: find_SomeD split: option.splits)
  then have "preserves I (run_route S r i rq)"
    unfolding run_route_def by (intro preserves_rules AuthMiddleware_keeps routes_keep [OF assms(1,2)])
  moreover obtain x v where "run_route S r i rq w = (x, v)" by fastforce
  ultimately show ?thesis using assms(3,4) Some ri preservesD [of I "run_route S r i rq" w x v]
    by (cases x) (auto simp: ServeHTTP_def)
qed (use assms in \<open>auto simp: ServeHTTP_def\<close>)

end

section \<open>The invariants of the platform\<close>

interpretation schema_q: quiet_inv schema_ok
  by unfold_locales (simp_all add: CreateUser_preserves UpdateUserStatus_preserves CreateWallet_preserves UpdateBalance_preserves
      InsertTransaction_preserves asset_Create_preserves preservesD [OF asset_Update_preserves] audit_Create_preserves)

interpretation schema_p: platform_inv schema_ok "\<lambda>_ _. True"
  by unfold_locales
    (simp_all add: PlaceOrder_preserves CancelOrder_preserves ExpireStaleOrders_preserves preservesD [OF process_step_rules(1)])

text \<open>The writes of the other tables do not touch the book.\<close>

abbreviation book_is :: "numeric order list \<Rightarrow> numeric trade list \<Rightarrow> tables \<Rightarrow> (string \<Rightarrow> int) \<Rightarrow> bool" where
  "book_is os ts \<equiv> (\<lambda>d s. orders d = os \<and> trades d = ts)"

lemma insert_frames:
  "preserves (book_is os ts) (CreateUser u)" "preserves (book_is os ts) (CreateWallet i)" "preserves (book_is os ts) (InsertTransaction wt)"
  "preserves (book_is os ts) (audit_Create l)" "preserves (book_is os ts) (asset_Create pgnum a)"
  unfolding CreateUser_def CreateWallet_def InsertTransaction_def audit_Create_def asset_Create_def
  by (intro preserves_wrapE preserves_sql; auto simp: preserves_def monad_defs to_price_def Let_def split: option.splits if_splits sum.splits)+

lemma update_frames:
  "preserves (book_is os ts) (repo_UpdateUserStatus i st)" "preserves (book_is os ts) (UpdateBalance i n v)" "preserves (book_is os ts) (asset_Update pgnum a)"
  unfolding repo_UpdateUserStatus_def UpdateBalance_def asset_Update_def set_asset_def
  by (intro preserves_bindE [OF preserves_wrapE [OF preserves_sql]] preserves_cases preserves_ret preserves_raise preserves_check;
      auto simp: preserves_def monad_defs to_price_def Let_def split: option.splits if_splits sum.splits)+

lemma asset_Update_book: "pg_ok pgnum \<Longrightarrow> preserves (book_from B) (asset_Update pgnum a)"
  by (intro book_from_frame update_frames asset_Update_preserves)

interpretation book_q: quiet_inv "book_from B" for B
  by unfold_locales ((intro book_from_frame insert_frames update_frames CreateUser_preserves UpdateUserStatus_preserves CreateWallet_preserves
      UpdateBalance_preserves InsertTransaction_preserves asset_Create_preserves audit_Create_preserves; assumption)
    | rule preservesD [OF asset_Update_book]; assumption)+

interpretation book_p: platform_inv "book_from B" queued for B
  by unfold_locales (auto intro: PlaceOrder_book CancelOrder_book ExpireStaleOrders_book process_step_keeps_book)

lemma ex_server_ok: "server_ok ex_server"
  using ex_wired(1) ex_pgnum_ok by (simp add: server_ok_def ex_server_def)

end
