(* ===== verification/Queue.thy ===== *)
theory Queue
  imports System
begin

text \<open>
  The queue between the order service and the matching engine (\<^verbatim>\<open>matchQueue\<close> of cmd/api/main.go). Only
  \<^verbatim>\<open>PlaceOrder\<close> writes to it, after its transaction, and what it puts there is an order of the table
  (\<open>feeds\<close>); everything else leaves the queue alone (\<open>calm\<close>). So the engine only ever meets orders that
  exist, for as long as orders are neither deleted nor changed in what is fixed of them.
\<close>

section \<open>Computations that leave the queue alone\<close>

definition calm :: "'a io \<Rightarrow> bool" where
  "calm m \<longleftrightarrow> (\<forall>w r w'. m w = (r, w') \<longrightarrow> queue w' = queue w)"

lemma calmD: "calm m \<Longrightarrow> m w = (r, w') \<Longrightarrow> queue w' = queue w"
  by (simp add: calm_def)

lemma calm_db_only: "db_only m \<Longrightarrow> calm m"
  by (simp add: calm_def db_only_def)

lemmas calm_steps = db_only_get_db [THEN calm_db_only] db_only_put_db [THEN calm_db_only] db_only_ret [THEN calm_db_only]
  db_only_raise [THEN calm_db_only] db_only_time_now [THEN calm_db_only] db_only_nextval [THEN calm_db_only]
  db_only_to_numeric [THEN calm_db_only] db_only_check [THEN calm_db_only] db_only_orPanic [THEN calm_db_only]
  db_only_BeginTxx [THEN calm_db_only] db_only_Commit [THEN calm_db_only]

lemma calm_emit: "calm (emit e)"
  by (simp add: calm_def emit_def)

lemma calm_bindE: "calm m \<Longrightarrow> (\<And>x. calm (f x)) \<Longrightarrow> calm (bindE m f)"
  unfolding calm_def bindE_def by (fastforce split: prod.splits sum.splits)

lemma calm_errors: "calm m \<Longrightarrow> calm (wrapE c m)" "calm m \<Longrightarrow> calm (attempt m)" "calm m \<Longrightarrow> calm (mapE g m)"
  unfolding calm_def wrapE_def attempt_def mapE_def by (auto split: prod.splits sum.splits if_splits)

lemma calm_if: "calm a \<Longrightarrow> calm b \<Longrightarrow> calm (if c then a else b)" "calm a \<Longrightarrow> calm b \<Longrightarrow> calm (\<lambda>w. if p w then a w else b w)"
  by (simp_all add: calm_def)

lemma calm_cases:
  "(\<And>a b. calm (f a b)) \<Longrightarrow> calm (case p of (a, b) \<Rightarrow> f a b)"
  "calm n \<Longrightarrow> (\<And>a. calm (g a)) \<Longrightarrow> calm (case q of None \<Rightarrow> n | Some a \<Rightarrow> g a)"
  "(\<And>e. calm (h e)) \<Longrightarrow> (\<And>a. calm (k a)) \<Longrightarrow> calm (case r of Inl e \<Rightarrow> h e | Inr a \<Rightarrow> k a)"
  by (auto split: prod.split option.split sum.split)

lemma calm_Let: "(\<And>x. calm (f x)) \<Longrightarrow> calm (Let t f)"
  by (simp add: Let_def)

lemma calm_sql: "calm q \<Longrightarrow> calm (sql q)"
  unfolding calm_def sql_def by (fastforce split: list.splits option.splits)

lemma calm_inTx:
  assumes "calm fn" and "\<And>s. calm (c s)"
  shows "calm (inTx s fn c)"
proof -
  have "calm (bindE (c s) (\<lambda>_. ret x))" for x :: 'a by (intro calm_bindE calm_steps assms(2))
  with assms(1) show ?thesis unfolding calm_def inTx_def Rollback_def by (fastforce split: prod.splits sum.splits)
qed

lemmas calm_rules = calm_bindE calm_errors calm_sql calm_cases calm_if calm_Let calm_inTx calm_emit calm_steps

section \<open>Services\<close>

lemma calm_repos:
  "calm (limit_offset lmt off rs)" "calm (owned_asset ctx b i)" "calm (GetUserByEmail e)" "calm (GetUserByID i)" "calm (CreateUser u)"
  "calm (repo_UpdateUserStatus i st)" "calm (asset_Create pgnum a)" "calm (asset_Update pgnum a)" "calm (audit_Create l)"
  "calm (asset_GetByID i)"
  unfolding limit_offset_def owned_asset_def GetUserByEmail_def GetUserByID_def CreateUser_def repo_UpdateUserStatus_def asset_Create_def
    asset_Update_def set_asset_def audit_Create_def asset_GetByID_def to_price_def
  by (intro calm_rules)+

lemma calm_wallet:
  "calm (Deposit u inp)" "calm (Withdraw u inp)" "calm (GetWallet u)" "calm (ListTransactions u p s)" "calm (CreateWalletForUser u)"
proof -
  note repo = wallet_repo_db_only [THEN calm_db_only] wallet_tx_db_only [THEN calm_db_only, THEN calm_inTx] calm_repos
  have p: "calm (publish_wallet i c k)" for i c k by (auto simp: calm_def dest!: publish_wallet_db)
  show "calm (Deposit u inp)" "calm (Withdraw u inp)" "calm (GetWallet u)" "calm (ListTransactions u p s)" "calm (CreateWalletForUser u)"
    unfolding Deposit_def Withdraw_def GetWallet_def ListTransactions_def CreateWalletForUser_def wallet_runTx_def wallet_repo_ListTransactions_def
      CountTransactions_def
    by (intro repo p calm_rules)+
qed

lemma calm_assets:
  "calm (CreateAsset pgnum b ci)" "calm (UpdateAsset pgnum b i ui)" "calm (DisableAsset pgnum b i)" "calm (GetAsset gp i)"
  "calm (ListActiveAssets coll gp)"
proof -
  have "calm (cached_prices gp as)" for as by (induction as) (auto intro!: calm_rules simp: cached_price_def)
  then show "calm (ListActiveAssets coll gp)" unfolding ListActiveAssets_def ListActive_def by (intro calm_rules)
qed (unfold CreateAsset_def UpdateAsset_def DisableAsset_def GetAsset_def cached_price_def apply_input_def Let_def, (intro calm_repos calm_rules)+)

lemma calm_auth:
  "wired s \<Longrightarrow> calm (Register s rr)" "calm (Login s lr)" "calm (RefreshTokens s tok)" "calm (AuthMiddleware L js h)"
proof -
  have t: "calm (GenerateTokenPair L js i role)" "calm (ParseToken L js tk)" for L js i role tk
    unfolding GenerateTokenPair_def generateToken_def ParseToken_def by (intro calm_rules | simp add: calm_steps split: jwt_error.split)+
  have c: "calm (create_wallet s i)" if "wired s" for s i
    using that by (auto simp: create_wallet_def wired_def intro!: calm_rules calm_wallet)
  show "wired s \<Longrightarrow> calm (Register s rr)" "calm (Login s lr)" "calm (RefreshTokens s tok)"
    unfolding Register_def Login_def RefreshTokens_def by (intro calm_repos t c calm_rules | assumption)+
  show "calm (AuthMiddleware L js h)" unfolding AuthMiddleware_def by (auto intro!: t calm_rules split: list.split)
qed

lemma calm_admin:
  "calm (UpdateUserStatus a i st)" "calm (admin_ListUsers r s p ps)" "calm (VolumeAnalytics P hours)" "calm (SuspiciousUsers P h k)"
  "calm (ListAuditLogs u act p ps)"
  unfolding UpdateUserStatus_def admin_ListUsers_def repo_ListUsers_def CountUsers_def VolumeAnalytics_def SuspiciousUsers_def ListAuditLogs_def
    audit_List_def audit_Count_def window_start_def Let_def
  by (intro calm_repos calm_rules)+

lemma calm_audit_consumer: "calm (audit_consumer rs)"
proof (induction rs)
  case (Cons r rs)
  have "calm (audit_handle we)" for we unfolding audit_handle_def write_audit_def by (intro calm_repos calm_rules)
  then show ?case using Cons by (cases r) (auto intro!: calm_rules)
qed (simp add: calm_steps)

lemma calm_jobs: "calm ExpireStaleOrders" "calm ReconcileWallets" "calm VerifyTradeSettlements"
proof -
  have r: "calm (reconcile_loop n ws)" for n ws
    by (induction ws arbitrary: n) (auto intro!: calm_rules simp: reconcile_wallet_def sum_transactions_def split: option.split)
  have v: "calm (verify_loop n ts)" for n ts
    by (induction ts arbitrary: n) (auto intro!: calm_rules simp: verify_trade_def verify_side_def transaction_exists_def)
  show "calm ExpireStaleOrders" "calm ReconcileWallets" "calm VerifyTradeSettlements"
    unfolding ExpireStaleOrders_def ReconcileWallets_def VerifyTradeSettlements_def by (intro r v calm_rules)+
qed

lemma calm_publish_order: "calm (publish_order k p)"
  by (auto simp: calm_def dest!: publish_order_db)

lemmas calm_order_repo = order_repo_db_only [THEN calm_db_only]

lemma calm_orders: "calm (CancelOrder u i)" "calm (GetOrder u i)" "calm (ListOrders u p s)"
  unfolding CancelOrder_def GetOrder_def ListOrders_def ListByUser_def CountByUser_def order_runTx_def
  by (intro calm_order_repo CancelOrder_tx_db_only [THEN calm_db_only] calm_publish_order calm_repos calm_rules)+

lemma calm_process_step: "calm (process_step i)"
proof -
  have "calm (publish_price t)" "calm (publish_trade s)" for t s by (auto simp: calm_def dest!: publish_db)
  then have "calm (executeTrade a b)" for a b
    unfolding executeTrade_def Let_def by (intro trade_transaction_db_only [THEN calm_db_only] executeTrade_tx_rules calm_rules)
  then show ?thesis unfolding process_step_def by (intro calm_order_repo findBestCandidate_rules(3) [THEN calm_db_only] big_rules(3) [THEN calm_db_only] calm_rules)
qed

section \<open>What enters the queue\<close>

text \<open>Every order that is in the queue afterwards was there before or is an order of the table.\<close>

definition feeds :: "'a io \<Rightarrow> bool" where
  "feeds m \<longleftrightarrow> (\<forall>w r w'. m w = (r, w') \<longrightarrow> (\<forall>i \<in> set (queue w'). i \<in> set (queue w) \<or> queued (db w') i))"

lemma feeds_calm: "calm m \<Longrightarrow> feeds m"
  by (simp add: feeds_def calm_def)

lemma feeds_bindE: "calm m \<Longrightarrow> (\<And>x. feeds (f x)) \<Longrightarrow> feeds (bindE m f)"
  unfolding feeds_def calm_def bindE_def by (fastforce split: prod.splits sum.splits)

lemma feeds_cases:
  "feeds a \<Longrightarrow> feeds b \<Longrightarrow> feeds (if c then a else b)"
  "feeds n \<Longrightarrow> (\<And>a. feeds (g a)) \<Longrightarrow> feeds (case q of None \<Rightarrow> n | Some a \<Rightarrow> g a)"
  "(\<And>e. feeds (h e)) \<Longrightarrow> (\<And>a. feeds (k a)) \<Longrightarrow> feeds (case r of Inl e \<Rightarrow> h e | Inr a \<Rightarrow> k a)"
  by (auto split: option.split sum.split)

lemma feeds_answer_of: "feeds m \<Longrightarrow> feeds (answer_of m e ok)"
  unfolding feeds_def answer_of_def bindE_def attempt_def ret_def by (fastforce split: prod.splits sum.splits if_splits)

lemma order_Create_queued: "order_runTx (order_Create o1) w = (Inr placed, w') \<Longrightarrow> queued (db w') placed"
proof -
  have c: "queued (db v') placed" if "order_Create o1 v = (Inr placed, v')" for v v'
    using that by (auto simp: order_Create_def bindE_Inr Let_def queued_def scan_order_def dest!: sql_Inr split: if_splits)
  assume "order_runTx (order_Create o1) w = (Inr placed, w')"
  then show ?thesis using order_tx.run_ok c by fastforce
qed

lemma PlaceOrder_insert_feeds: "feeds (PlaceOrder_insert u inp o1)"
  unfolding feeds_def
proof (intro allI impI)
  fix w r w' assume run: "PlaceOrder_insert u inp o1 w = (r, w')"
  let ?create = "order_runTx (order_Create o1)"
  have k: "calm ?create" unfolding order_runTx_def by (intro calm_order_repo calm_rules)
  obtain x w1 where x: "?create w = (x, w1)" by fastforce
  have q: "queue w1 = queue w" using calmD [OF k x] .
  show "\<forall>i \<in> set (queue w'). i \<in> set (queue w) \<or> queued (db w') i"
  proof (cases x)
    case (Inr placed)
    obtain w2 where e: "enqueue placed w1 = (Inr (), w2)" by (simp add: enqueue_def)
    then have w2: "db w2 = db w1" "set (queue w2) \<subseteq> insert placed (set (queue w1))" by (auto simp: enqueue_def split: if_splits)
    obtain y w3 where p: "publish_order ''order.created'' placed w2 = (y, w3)" by fastforce
    from publish_order_db [OF p] have w3: "y = Inr ()" "db w3 = db w2" "queue w3 = queue w2" by auto
    have "w' = w3" using run x Inr e p w3(1) by (simp add: PlaceOrder_insert_def bindE_def attempt_def ret_def)
    then show ?thesis using w2 w3 q order_Create_queued [of o1 w placed w1] x Inr by auto
  next
    case (Inl e)
    let ?rest = "if errors_Is e ErrDuplicateIdempotencyKey then
         bindE (orPanic ''nil pointer dereference'' (pi_IdempotencyKey inp)) (\<lambda>key.
         bindE (attempt (GetByIdempotencyKey u key)) (\<lambda>r2. case r2 of
           Inr existing \<Rightarrow> ret existing
         | Inl _ \<Rightarrow> raise (Wrapf ''place order: insert'' e)))
       else raise (Wrapf ''place order: insert'' e)"
    have "calm ?rest" by (intro calm_order_repo calm_rules)
    moreover have "w' = w1 \<or> ?rest w1 = (r, w')"
      using run x Inl by (auto simp: PlaceOrder_insert_def bindE_def attempt_def split: if_splits)
    ultimately have "queue w' = queue w1" using calmD by blast
    then show ?thesis using q by simp
  qed
qed

lemma PlaceOrder_feeds: "feeds (PlaceOrder u inp)"
proof -
  have "calm (PlaceOrder_validate u inp)"
    unfolding PlaceOrder_validate_def checkWalletBalance_def checkAssetHolding_def
    by (intro calm_repos wallet_repo_db_only [THEN calm_db_only] portfolio_repo_db_only [THEN calm_db_only] calm_rules)
  then have n: "feeds (PlaceOrder_new u inp)" unfolding PlaceOrder_new_def by (intro feeds_bindE PlaceOrder_insert_feeds)
  have g: "calm (attempt (GetByIdempotencyKey u k))" for k by (intro calm_order_repo calm_rules)
  show ?thesis unfolding PlaceOrder_def
    by (intro feeds_cases n feeds_bindE g | rule feeds_calm, intro calm_rules)+
qed

section \<open>Requests\<close>

lemma calm_with: "(\<And>i. calm (f i)) \<Longrightarrow> calm (with_id t f)" "(\<And>x. calm (g x)) \<Longrightarrow> calm (with_body b g)"
  "calm m \<Longrightarrow> calm (answer_of m e ok)"
  unfolding with_id_def with_body_def answer_of_def by (intro calm_rules | assumption | blast)+

lemmas calm_handler_rules = calm_with calm_wallet calm_assets calm_auth calm_admin calm_jobs calm_orders calm_rules

lemma calm_handlers:
  "wired s \<Longrightarrow> calm (h_Register s rq)" "calm (h_Login s rq)" "calm (h_Refresh s rq)" "calm (h_Me c)"
  "calm (h_GetWallet c)" "calm (h_Deposit c rq)" "calm (h_Withdraw c rq)" "calm (h_ListTransactions c rq)"
  "calm (h_CreateAsset pgnum c rq)" "calm (h_UpdateAsset pgnum c i rq)" "calm (h_DisableAsset pgnum c i)" "calm (h_GetAsset gp i)"
  "calm (h_ListAssets coll gp)" "calm (h_CancelOrder c i)" "calm (h_GetOrder c i)" "calm (h_ListOrders c rq)"
  "calm (h_ListUsers rq)" "calm (h_UpdateUserStatus c i rq)" "calm (h_VolumeAnalytics P rq)"
  "calm (h_SuspiciousUsers P rq)" "calm (h_AdminHealth h f)" "calm (h_AuditLogs rq)" "calm (h_health S)"
  "calm m \<Longrightarrow> calm (h_job k m)"
  unfolding h_Register_def h_Login_def h_Refresh_def h_Me_def h_GetWallet_def h_Deposit_def h_Withdraw_def h_ListTransactions_def
    h_CreateAsset_def h_UpdateAsset_def h_DisableAsset_def h_GetAsset_def h_ListAssets_def h_CancelOrder_def h_GetOrder_def h_ListOrders_def
    h_ListUsers_def h_UpdateUserStatus_def h_VolumeAnalytics_def h_SuspiciousUsers_def h_AdminHealth_def h_AuditLogs_def h_health_def h_job_def
  by (intro calm_handler_rules | assumption)+

lemma h_PlaceOrder_feeds: "feeds (h_PlaceOrder c rq)"
  unfolding h_PlaceOrder_def with_body_def Let_def
  by (intro feeds_cases feeds_answer_of PlaceOrder_feeds) (rule feeds_calm, rule calm_steps)

lemma routes_feed:
  assumes "wired (sv_auth S)" and "r \<in> set routes"
  shows "feeds (r_Handler r S c i rq)"
  using assms unfolding routes_def set_append auth_routes_def admin_routes_def wallet_routes_def asset_routes_def order_routes_def
  by (auto intro!: h_PlaceOrder_feeds feeds_calm [OF calm_handlers(1)] feeds_calm [OF calm_handlers(24)] calm_jobs
      feeds_calm [OF calm_steps(3)] calm_handlers(2-23) [THEN feeds_calm])

lemma ServeHTTP_feeds:
  assumes "server_ok S" and "ServeHTTP S rq w = (as, w')" and "i \<in> set (queue w')"
  shows "i \<in> set (queue w) \<or> queued (db w') i"
proof (cases "find_route rq")
  case (Some ri)
  obtain r p where ri: "ri = (r, p)" by fastforce
  have "r \<in> set routes" using Some ri by (auto simp: find_route_def dest: find_SomeD split: option.splits)
  then have "feeds (run_route S r p rq)"
    unfolding run_route_def using assms(1)
    by (intro feeds_bindE calm_rules calm_auth feeds_cases routes_feed) (auto simp: server_ok_def intro!: feeds_calm calm_steps)
  moreover obtain x v where "run_route S r p rq w = (x, v)" by fastforce
  ultimately show ?thesis using assms(2,3) Some ri by (cases x) (auto simp: ServeHTTP_def feeds_def)
qed (use assms in \<open>auto simp: ServeHTTP_def\<close>)

section \<open>What is queued stays queued\<close>

lemma queued_book: "queued d i \<Longrightarrow> schema_ok d s \<Longrightarrow> \<exists>e. entries (book_of d) (o_ID i) = Some e \<and> e_Asset e = o_AssetID i \<and> e_Buys e = (o_Side i = OrderSideBuy)"
  using find_order by (fastforce simp: queued_def book_of_def)

lemma book_steps_keep_orders:
  "book_step\<^sup>*\<^sup>* B B' \<Longrightarrow> entries B i = Some e \<Longrightarrow> \<exists>e'. entries B' i = Some e' \<and> same_order e e'"
proof (induction rule: rtranclp_induct)
  case (step B1 B2)
  then show ?case using book_step_keeps_orders same_order_trans by blast
qed simp

lemma queued_stays:
  assumes "queued d i" and "book_from (book_of d) d' s'" and "schema_ok d s" and "sides_ok d"
  shows "queued d' i"
proof -
  from queued_book [OF assms(1,3)] obtain e where e: "entries (book_of d) (o_ID i) = Some e" "e_Asset e = o_AssetID i"
    "e_Buys e = (o_Side i = OrderSideBuy)" by blast
  from book_steps_keep_orders [OF _ e(1)] assms(2) obtain e' where e': "entries (book_of d') (o_ID i) = Some e'" "same_order e e'"
    by (auto simp: book_from_def)
  from e'(1) obtain r where r: "find (\<lambda>r. o_ID r = o_ID i) (orders d') = Some r" "e' = entry_of r" by (auto simp: book_of_def)
  have "side_ok (o_Side i)" using assms(1,4) by (auto simp: queued_def sides_ok_def)
  moreover have "side_ok (o_Side r)" using assms(2) find_SomeD [OF r(1)] by (auto simp: book_from_def sides_ok_def)
  moreover have "(o_Side r = OrderSideBuy) = (o_Side i = OrderSideBuy)" using e(3) e'(2) r(2) by (simp add: same_order_def)
  ultimately have "o_Side r = o_Side i" unfolding side_ok_def by metis
  then show ?thesis using find_SomeD [OF r(1)] e(2) e'(2) r(2) by (auto simp: queued_def same_order_def)
qed

end
