(* ===== verification/Validator.thy ===== *)
theory Validator
  imports AssetService
begin

text \<open>
  internal/validator and pkg/idempotency: the checks of e-mail addresses, passwords, user names, amounts and idempotency keys. Nothing in the program calls them yet. The patterns of package
  \<^verbatim>\<open>regexp\<close> are regular expressions with a matcher by derivatives; the theorems say what the patterns mean.
  A result \<open>None\<close> is the nil error. Strings are bytes, as \<^verbatim>\<open>len\<close> counts them; all classes are ASCII.
\<close>

section \<open>Patterns\<close>

datatype regex = NoMatch | Empty | Class "char \<Rightarrow> bool" | Alt regex regex | Cat regex regex | Star regex

fun nullable :: "regex \<Rightarrow> bool" where
  "nullable NoMatch = False"
| "nullable Empty = True"
| "nullable (Class p) = False"
| "nullable (Alt r s) = (nullable r \<or> nullable s)"
| "nullable (Cat r s) = (nullable r \<and> nullable s)"
| "nullable (Star r) = True"

fun deriv :: "char \<Rightarrow> regex \<Rightarrow> regex" where
  "deriv c NoMatch = NoMatch"
| "deriv c Empty = NoMatch"
| "deriv c (Class p) = (if p c then Empty else NoMatch)"
| "deriv c (Alt r s) = Alt (deriv c r) (deriv c s)"
| "deriv c (Cat r s) = (if nullable r then Alt (Cat (deriv c r) s) (deriv c s) else Cat (deriv c r) s)"
| "deriv c (Star r) = Cat (deriv c r) (Star r)"

text \<open>A pattern between \<^verbatim>\<open>^\<close> and \<^verbatim>\<open>$\<close>, and a pattern without anchors.\<close>

fun matches :: "regex \<Rightarrow> string \<Rightarrow> bool" where
  "matches r [] = nullable r"
| "matches r (c # s) = matches (deriv c r) s"

definition MatchString :: "regex \<Rightarrow> string \<Rightarrow> bool" where
  "MatchString r s = matches (Cat (Star (Class (\<lambda>_. True))) (Cat r (Star (Class (\<lambda>_. True))))) s"

definition Plus :: "regex \<Rightarrow> regex" where
  "Plus r = Cat r (Star r)"

definition between :: "char \<Rightarrow> char \<Rightarrow> char \<Rightarrow> bool" where
  "between a b c \<longleftrightarrow> (of_char a :: nat) \<le> of_char c \<and> of_char c \<le> (of_char b :: nat)"

definition upper :: "char \<Rightarrow> bool" where "upper = between CHR ''A'' CHR ''Z''"
definition lower :: "char \<Rightarrow> bool" where "lower = between CHR ''a'' CHR ''z''"
definition digit :: "char \<Rightarrow> bool" where "digit = between CHR ''0'' CHR ''9''"
definition letter :: "char \<Rightarrow> bool" where "letter c \<longleftrightarrow> upper c \<or> lower c"

definition local_char :: "char \<Rightarrow> bool" where
  "local_char c \<longleftrightarrow> letter c \<or> digit c \<or> c \<in> set ''._%+-''"

definition domain_char :: "char \<Rightarrow> bool" where
  "domain_char c \<longleftrightarrow> letter c \<or> digit c \<or> c \<in> set ''.-''"

definition name_char :: "char \<Rightarrow> bool" where
  "name_char c \<longleftrightarrow> letter c \<or> digit c \<or> c \<in> set ''_-''"

definition emailRegex :: regex where
  "emailRegex = Cat (Plus (Class local_char)) (Cat (Class (\<lambda>c. c = CHR 0x40)) (Cat (Plus (Class domain_char))
     (Cat (Class (\<lambda>c. c = CHR ''.'')) (Cat (Class letter) (Plus (Class letter))))))"

section \<open>validator.go\<close>

definition ValidateEmail :: "string \<Rightarrow> string option" where
  "ValidateEmail email =
     (if email = [] then Some ''email is required''
      else if \<not> matches emailRegex email then Some ''invalid email format''
      else if length email > 255 then Some ''email must be less than 255 characters''
      else None)"

definition ValidatePassword :: "string \<Rightarrow> string option" where
  "ValidatePassword password =
     (if length password < 8 then Some ''password must be at least 8 characters long''
      else if length password > 128 then Some ''password must be less than 128 characters''
      else if \<not> MatchString (Class upper) password then Some ''password must contain at least one uppercase letter''
      else if \<not> MatchString (Class lower) password then Some ''password must contain at least one lowercase letter''
      else if \<not> MatchString (Class digit) password then Some ''password must contain at least one digit''
      else None)"

definition ValidateUsername :: "string \<Rightarrow> string option" where
  "ValidateUsername username =
     (if length username < 3 then Some ''username must be at least 3 characters long''
      else if length username > 30 then Some ''username must be less than 30 characters''
      else if \<not> matches (Plus (Class name_char)) username
        then Some ''username can only contain letters, numbers, underscores, and hyphens''
      else None)"

text \<open>Comparison of floats, never true of \<^verbatim>\<open>NaN\<close>, and \<^verbatim>\<open>%f\<close> with its six decimals (the limits are no negative zeros).\<close>

fun f64_less :: "float64 \<Rightarrow> float64 \<Rightarrow> bool" where
  "f64_less (F64 a) (F64 b) \<longleftrightarrow> a < b"
| "f64_less (F64_Inf s) (F64 b) \<longleftrightarrow> s"
| "f64_less (F64 a) (F64_Inf t) \<longleftrightarrow> \<not> t"
| "f64_less (F64_Inf s) (F64_Inf t) \<longleftrightarrow> s \<and> \<not> t"
| "f64_less _ _ \<longleftrightarrow> False"

definition fmt6f :: "float64 \<Rightarrow> string" where
  "fmt6f f = (case f of F64_NaN \<Rightarrow> ''NaN'' | F64_Inf s \<Rightarrow> if s then ''-Inf'' else ''+Inf''
     | F64 v \<Rightarrow> let n = nat (round_even (\<bar>v\<bar> * 10 ^ 6)) in
         (if v < 0 then ''-'' else []) @ show_nat (n div 10 ^ 6) @ ''.'' @ show_width 6 (n mod 10 ^ 6))"

definition ValidateAmount :: "float64 \<Rightarrow> float64 \<Rightarrow> float64 \<Rightarrow> string option" where
  "ValidateAmount amount minAmount maxAmount =
     (if f64_le0 amount then Some ''amount must be greater than 0''
      else if f64_less amount minAmount then Some (''amount must be at least '' @ fmt6f minAmount)
      else if f64_less maxAmount amount then Some (''amount must be less than '' @ fmt6f maxAmount)
      else None)"

text \<open>pkg/idempotency/key.go.\<close>

definition idempotency_Validate :: "string \<Rightarrow> string option" where
  "idempotency_Validate key =
     (if key = [] then Some ''idempotency key is required''
      else if length key < 8 \<or> length key > 64 then Some ''invalid idempotency key format''
      else None)"

section \<open>What the patterns mean\<close>

lemma matches_NoMatch [simp]: "\<not> matches NoMatch s"
  by (induction s) simp_all

lemma matches_Empty [simp]: "matches Empty s \<longleftrightarrow> s = []"
  by (cases s) simp_all

lemma matches_Class [simp]: "matches (Class p) s \<longleftrightarrow> (\<exists>c. s = [c] \<and> p c)"
  by (cases s) simp_all

lemma matches_Alt [simp]: "matches (Alt r1 r2) s \<longleftrightarrow> matches r1 s \<or> matches r2 s"
  by (induction s arbitrary: r1 r2) simp_all

lemma nullable_matches: "nullable r \<longleftrightarrow> matches r []"
  by simp

lemma matches_Cat: "matches (Cat r1 r2) s \<longleftrightarrow> (\<exists>u v. s = u @ v \<and> matches r1 u \<and> matches r2 v)"
proof (induction s arbitrary: r1 r2)
  case (Cons c s)
  have "(\<exists>u v. c # s = u @ v \<and> matches r1 u \<and> matches r2 v)
    \<longleftrightarrow> matches r1 [] \<and> matches r2 (c # s) \<or> (\<exists>u v. s = u @ v \<and> matches r1 (c # u) \<and> matches r2 v)"
    unfolding Cons_eq_append_conv by blast
  then show ?case using Cons.IH by auto
qed simp

lemma matches_unit_Cat [simp]: "matches (Cat Empty r) s \<longleftrightarrow> matches r s" "\<not> matches (Cat NoMatch r) s"
  by (simp_all add: matches_Cat)

lemma nullable_Plus [simp]: "nullable (Plus r) \<longleftrightarrow> nullable r"
  by (simp add: Plus_def)

lemma matches_Class_Cat [simp]: "matches (Cat (Class p) r) s \<longleftrightarrow> (\<exists>c v. s = c # v \<and> p c \<and> matches r v)"
  by (cases s) auto

lemma matches_Star_Class [simp]: "matches (Star (Class p)) s \<longleftrightarrow> list_all p s"
proof (induction s)
  case (Cons c s)
  then show ?case by simp
qed simp

lemma matches_Plus_Class [simp]: "matches (Plus (Class p)) s \<longleftrightarrow> s \<noteq> [] \<and> list_all p s"
  unfolding Plus_def by (cases s) simp_all

lemma MatchString_Class [simp]: "MatchString (Class p) s \<longleftrightarrow> list_ex p s"
proof
  assume "list_ex p s"
  then obtain u c v where "s = u @ c # v" "p c" by (auto simp: list_ex_iff dest!: split_list)
  moreover have "matches (Star (Class (\<lambda>_. True))) w" for w by (simp add: list_all_iff)
  ultimately show "MatchString (Class p) s" unfolding MatchString_def matches_Cat [of "Star _"] 
    by - (rule exI [of _ u], rule exI [of _ "c # v"], simp)
qed (auto simp: MatchString_def matches_Cat)

section \<open>What is accepted\<close>

text \<open>
  The pattern accepts exactly the addresses with a local part, a domain and a last part of at least two
  letters behind a dot, of at most 255 bytes.
\<close>

theorem ValidateEmail_accepts:
  "ValidateEmail e = None \<longleftrightarrow> length e \<le> 255 \<and> (\<exists>l d t. e = l @ CHR 0x40 # d @ CHR ''.'' # t
     \<and> l \<noteq> [] \<and> list_all local_char l \<and> d \<noteq> [] \<and> list_all domain_char d \<and> 2 \<le> length t \<and> list_all letter t)"
proof -
  have t: "matches (Cat (Class letter) (Plus (Class letter))) t \<longleftrightarrow> 2 \<le> length t \<and> list_all letter t" for t
    by (cases t) (auto simp: numeral_2_eq_2 Suc_le_eq)
  have "matches emailRegex e \<longleftrightarrow> (\<exists>l d t. e = l @ CHR 0x40 # d @ CHR ''.'' # t
     \<and> l \<noteq> [] \<and> list_all local_char l \<and> d \<noteq> [] \<and> list_all domain_char d \<and> 2 \<le> length t \<and> list_all letter t)"
    (is "_ \<longleftrightarrow> ?address")
  proof
    assume "matches emailRegex e"
    then obtain l v where l: "e = l @ v" "l \<noteq> []" "list_all local_char l"
      and v: "matches (Cat (Class (\<lambda>c. c = CHR 0x40)) (Cat (Plus (Class domain_char)) (Cat (Class (\<lambda>c. c = CHR ''.'')) (Cat (Class letter) (Plus (Class letter)))))) v"
      unfolding emailRegex_def matches_Cat [of "Plus (Class local_char)"] matches_Plus_Class by blast
    from v obtain x where x: "v = CHR 0x40 # x"
      "matches (Cat (Plus (Class domain_char)) (Cat (Class (\<lambda>c. c = CHR ''.'')) (Cat (Class letter) (Plus (Class letter))))) x"
      unfolding matches_Class_Cat [of "\<lambda>c. c = CHR 0x40"] by blast
    from x(2) obtain d y where d: "x = d @ y" "d \<noteq> []" "list_all domain_char d" "matches (Cat (Class (\<lambda>c. c = CHR ''.'')) (Cat (Class letter) (Plus (Class letter)))) y"
      unfolding matches_Cat [of "Plus (Class domain_char)"] matches_Plus_Class by blast
    from d(4) obtain z where z: "y = CHR ''.'' # z" "2 \<le> length z \<and> list_all letter z"
      unfolding matches_Class_Cat [of "\<lambda>c. c = CHR ''.''"] t by blast
    show ?address using l x(1) d(1-3) z by (intro exI [of _ l] exI [of _ d] exI [of _ z]) simp
  next
    assume ?address
    then obtain l d z where a: "e = l @ CHR 0x40 # d @ CHR ''.'' # z" "l \<noteq> []" "list_all local_char l" "d \<noteq> []" "list_all domain_char d"
      "matches (Cat (Class letter) (Plus (Class letter))) z" unfolding t by blast
    then have "matches (Cat (Class (\<lambda>c. c = CHR ''.'')) (Cat (Class letter) (Plus (Class letter)))) (CHR ''.'' # z)" by simp
    then have "matches (Cat (Plus (Class domain_char)) (Cat (Class (\<lambda>c. c = CHR ''.'')) (Cat (Class letter) (Plus (Class letter))))) (d @ CHR ''.'' # z)"
      unfolding matches_Cat [of "Plus (Class domain_char)"] using a(4,5) matches_Plus_Class by blast
    then have "matches (Cat (Class (\<lambda>c. c = CHR 0x40)) (Cat (Plus (Class domain_char)) (Cat (Class (\<lambda>c. c = CHR ''.'')) (Cat (Class letter) (Plus (Class letter))))))
        (CHR 0x40 # d @ CHR ''.'' # z)" by simp
    then show "matches emailRegex e"
      unfolding emailRegex_def a(1) matches_Cat [of "Plus (Class local_char)"] using a(2,3) matches_Plus_Class by blast
  qed
  then show ?thesis by (auto simp: ValidateEmail_def)
qed

text \<open>Passwords: the limits are inclusive, although the message says \<^verbatim>\<open>less than 128\<close>.\<close>

theorem ValidatePassword_accepts:
  "ValidatePassword p = None \<longleftrightarrow> 8 \<le> length p \<and> length p \<le> 128 \<and> list_ex upper p \<and> list_ex lower p \<and> list_ex digit p"
  by (auto simp: ValidatePassword_def)

theorem ValidateUsername_accepts:
  "ValidateUsername u = None \<longleftrightarrow> 3 \<le> length u \<and> length u \<le> 30 \<and> list_all name_char u"
  by (auto simp: ValidateUsername_def)

text \<open>Amounts: between the limits, both inclusive, or not a number at all.\<close>

theorem ValidateAmount_accepts:
  "ValidateAmount amount (F64 lo) (F64 hi) = None \<longleftrightarrow> amount = F64_NaN \<or> (\<exists>v. amount = F64 v \<and> 0 < v \<and> lo \<le> v \<and> v \<le> hi)"
  by (cases amount) (auto simp: ValidateAmount_def f64_le0_def)

theorem idempotency_Validate_accepts: "idempotency_Validate k = None \<longleftrightarrow> 8 \<le> length k \<and> length k \<le> 64"
  by (auto simp: idempotency_Validate_def)

lemma Validate_examples:
  "ValidateEmail ''a.b@c-d.org'' = None" "ValidateEmail ''a@b'' = Some ''invalid email format''"
  "ValidatePassword ''Passw0rd'' = None" "ValidateAmount (F64 (1 / 2)) (F64 (7 / 2)) (F64 9) = Some ''amount must be at least 3.500000''"
  "ValidateUsername ''jo'' = Some ''username must be at least 3 characters long''"
  by code_simp+

end
