(* ===== verification/Enums.thy ===== *)
theory Enums
  imports System
begin

text \<open>
  The enumerations (internal/shared/enums/enums.go). The columns of the tables are plain texts: the schema
  does not say which values they may have. \<open>enums_ok\<close> is the type that the program gives them: the
  status, side and type of an order, the role and status of a user, the kind and status of a wallet
  transaction and the status of an asset are always one of the constants of enums.go or of the model.go
  of their package. It is one more interpretation of the locales of theory System, so that everything the
  platform does keeps it.
\<close>

section \<open>enums.go\<close>

definition Role_values :: "string list" where
  "Role_values = [''admin'', ''broker'', ''trader'', ''support'']"

definition OrderStatus_values :: "string list" where
  "OrderStatus_values = [''PENDING'', ''PARTIALLY_FILLED'', ''FILLED'', ''CANCELLED'']"

definition TxType_values :: "string list" where
  "TxType_values = [''DEPOSIT'', ''WITHDRAWAL'']"

text \<open>The constants of the domains have these values.\<close>

lemma enum_constants:
  "set Role_values = set validRoles"
  "set OrderStatus_values = {OrderStatusPending, OrderStatusPartiallyFilled, OrderStatusFilled, OrderStatusCancelled}"
  "set TxType_values = {TxTypeDeposit, TxTypeWithdrawal}"
  by (auto simp: Role_values_def OrderStatus_values_def TxType_values_def validRoles_def const_defs)

section \<open>Well-typed tables\<close>

definition order_typed :: "numeric order \<Rightarrow> bool" where
  "order_typed r \<longleftrightarrow> o_Status r \<in> set OrderStatus_values \<and> side_ok (o_Side r) \<and> o_Type r = OrderTypeLimit"

definition user_typed :: "user \<Rightarrow> bool" where
  "user_typed u \<longleftrightarrow> u_Role u \<in> set Role_values \<and> (u_Status u = UserStatusActive \<or> u_Status u = UserStatusSuspended)"

definition tx_typed :: "numeric wallet_transaction \<Rightarrow> bool" where
  "tx_typed t \<longleftrightarrow> x_TransactionType t \<in> set TxType_values \<and> x_Status t = TxStatusCompleted"

definition asset_typed :: "price asset \<Rightarrow> bool" where
  "asset_typed a \<longleftrightarrow> a_Status a = ''ACTIVE'' \<or> a_Status a = ''DISABLED''"

definition enums_ok :: "tables \<Rightarrow> bool" where
  "enums_ok d \<longleftrightarrow> (\<forall>r \<in> set (orders d). order_typed r) \<and> (\<forall>u \<in> set (users d). user_typed u)
     \<and> (\<forall>t \<in> set (wallet_transactions d). tx_typed t) \<and> (\<forall>a \<in> set (assets d). asset_typed a)"

abbreviation typed :: "tables \<Rightarrow> (string \<Rightarrow> int) \<Rightarrow> bool" where
  "typed \<equiv> (\<lambda>d s. enums_ok d)"

section \<open>The statements keep the types\<close>

lemmas typed_defs = enums_ok_def order_typed_def user_typed_def tx_typed_def enum_constants

interpretation typed_t: table_inv typed
  by unfold_locales

lemmas step_defs = get_db_def time_now_def put_db_def nextval_def to_numeric_def bindE_def ret_def raise_def

lemma typed_frames:
  "preserves typed (CreateWallet i)" "preserves typed (audit_Create l)" "preserves typed (trade_Insert t)"
  "preserves typed (UpsertBuyerHolding u a' q p)" "preserves typed (ReduceSellerHolding u a' q)"
  unfolding CreateWallet_def audit_Create_def trade_Insert_def UpsertBuyerHolding_def ReduceSellerHolding_def
  by (intro preserves_wrapE preserves_sql;
      auto simp: preserves_def step_defs to_price_def Let_def upsert_holding_def reduce_holding_def enums_ok_def
        split: option.splits if_splits sum.splits)+

lemma asset_Create_typed: "a_Status a = AssetStatusActive \<Longrightarrow> preserves typed (asset_Create pgnum a)"
  unfolding asset_Create_def
  by (intro preserves_wrapE preserves_sql)
    (auto simp: preserves_def step_defs to_price_def Let_def enums_ok_def asset_typed_def AssetStatusActive_def
      split: option.splits if_splits sum.splits)

lemma asset_Update_typed: "a_Status a = ''ACTIVE'' \<or> a_Status a = ''DISABLED'' \<Longrightarrow> preserves typed (asset_Update pgnum a)"
  unfolding asset_Update_def
  by (intro preserves_bindE [OF preserves_wrapE [OF preserves_sql]] preserves_cases preserves_ret preserves_raise)
    (auto simp: preserves_def step_defs to_price_def set_asset_def enums_ok_def asset_typed_def set_upd_where
      split: option.splits if_splits sum.splits)

lemma typed_update_frames: "preserves typed (UpdateBalance i n v)"
  unfolding UpdateBalance_def
  by (intro preserves_bindE [OF preserves_wrapE [OF preserves_sql]] preserves_cases preserves_ret preserves_raise preserves_check;
      auto simp: preserves_def step_defs set_balance_def enums_ok_def split: option.splits if_splits sum.splits)+

lemma CreateUser_typed: "u_Role u \<in> set validRoles \<Longrightarrow> preserves typed (CreateUser u)"
  unfolding CreateUser_def by (intro preserves_wrapE preserves_sql) (auto simp: preserves_def step_defs Let_def typed_defs split: if_splits)

lemma UpdateUserStatus_typed: "st \<in> set [UserStatusActive, UserStatusSuspended] \<Longrightarrow> preserves typed (repo_UpdateUserStatus i st)"
  unfolding repo_UpdateUserStatus_def
  by (intro preserves_bindE [OF preserves_wrapE [OF preserves_sql]] preserves_cases preserves_ret preserves_raise)
    (auto simp: preserves_def step_defs set_user_status_def typed_defs set_upd_where split: option.splits if_splits)

lemma InsertTransaction_typed:
  "x_TransactionType wt \<in> set [TxTypeDeposit, TxTypeWithdrawal] \<Longrightarrow> x_Status wt = TxStatusCompleted \<Longrightarrow> preserves typed (InsertTransaction wt)"
  unfolding InsertTransaction_def
  by (intro preserves_wrapE preserves_sql) (auto simp: preserves_def step_defs Let_def typed_defs split: option.splits if_splits)

lemma order_Create_typed:
  "o_Status o1 = OrderStatusPending \<Longrightarrow> side_ok (o_Side o1) \<Longrightarrow> o_Type o1 = OrderTypeLimit \<Longrightarrow> preserves typed (order_Create o1)"
  unfolding order_Create_def
  by (intro preserves_mapE preserves_sql) (auto simp: preserves_def step_defs Let_def typed_defs split: option.splits if_splits)

text \<open>Rows of orders that change their status only, among the values of the enumeration.\<close>

lemma restatus_typed:
  assumes "enums_ok d" and "\<And>r. o_Status (f r) \<in> set OrderStatus_values \<and> o_Side (f r) = o_Side r \<and> o_Type (f r) = o_Type r"
  shows "enums_ok (d\<lparr>orders := upd_where P f (orders d)\<rparr>)"
  using assms by (auto simp: enums_ok_def order_typed_def set_upd_where)

lemma order_updates_typed:
  "st \<in> set OrderStatus_values \<Longrightarrow> preserves typed (UpdateStatus i st)"
  "st \<in> set OrderStatus_values \<Longrightarrow> preserves typed (UpdateFill i n st)"
  unfolding UpdateStatus_def UpdateFill_def
  by (intro preserves_wrapE preserves_sql;
      auto simp: preserves_def step_defs set_status_def add_fill_def intro!: restatus_typed split: option.splits if_splits)+

interpretation typed_q: quiet_inv typed
proof unfold_locales
  fix pgnum a and w w' :: world and r
  assume st: "a_Status a = AssetStatusDisabled \<or> a_Status a \<in> a_Status ` set (assets (db w))"
    and run: "asset_Update pgnum a w = (r, w')" and ok: "enums_ok (db w)"
  then have "a_Status a = ''ACTIVE'' \<or> a_Status a = ''DISABLED''" by (auto simp: enums_ok_def asset_typed_def AssetStatusDisabled_def)
  from preservesD [OF asset_Update_typed [OF this] run] ok show "enums_ok (db w')" by simp
qed (use typed_frames typed_update_frames CreateUser_typed UpdateUserStatus_typed InsertTransaction_typed asset_Create_typed in simp_all)

section \<open>Orders and the engine\<close>

lemma order_runTx_typed: "preserves typed fn \<Longrightarrow> preserves typed (order_runTx fn)"
  unfolding order_runTx_def by (rule typed_t.preserves_runner) (auto dest: Commit_frame)

lemma PlaceOrder_typed:
  assumes "side_ok (pi_Side inp)"
  shows "preserves typed (PlaceOrder u inp)"
proof -
  have v: "preserves typed (PlaceOrder_validate u inp)"
    unfolding PlaceOrder_validate_def by (intro preserves_rules order_checks_preserve asset_GetByID_preserves)
  have i: "preserves typed (PlaceOrder_insert u inp o1)" if "o_Status o1 = OrderStatusPending" "side_ok (o_Side o1)" "o_Type o1 = OrderTypeLimit" for o1
    unfolding PlaceOrder_insert_def
    by (intro preserves_rules order_reads_preserve order_checks_preserve order_runTx_typed order_Create_typed that)
  have o: "o_Status o1 = OrderStatusPending \<and> o_Side o1 = pi_Side inp \<and> o_Type o1 = OrderTypeLimit" if "PlaceOrder_validate u inp w = (Inr o1, w')" for o1 w w'
    using that by (auto simp: PlaceOrder_validate_def bindE_Inr ret_def raise_def split: option.splits)
  have e: "PlaceOrder_new u inp = bindE (PlaceOrder_validate u inp)
      (\<lambda>o1. if o_Status o1 = OrderStatusPending \<and> side_ok (o_Side o1) \<and> o_Type o1 = OrderTypeLimit then PlaceOrder_insert u inp o1 else ret o1)"
    using o assms by (auto simp: PlaceOrder_new_def bindE_def fun_eq_iff split: prod.splits sum.splits)
  have "preserves typed (PlaceOrder_new u inp)" unfolding e by (rule preserves_bindE [OF v]) (auto intro: i)
  then show ?thesis unfolding PlaceOrder_def by (intro preserves_rules order_reads_preserve)
qed

lemma CancelOrder_typed: "preserves typed (CancelOrder u i)"
  unfolding CancelOrder_def CancelOrder_tx_def
  by (intro preserves_rules order_runTx_typed order_checks_preserve order_reads_preserve order_updates_typed) (simp add: enum_constants)

lemma ExpireStaleOrders_typed: "preserves typed ExpireStaleOrders"
proof -
  have "enums_ok (expire t d)" if "enums_ok d" for t d
    unfolding expire_def using that by (rule restatus_typed) (simp add: enum_constants)
  then show ?thesis unfolding preserves_def using ExpireStaleOrders_cases by (metis seqs_le_refl)
qed

lemma executeTrade_tx_typed: "preserves typed (executeTrade_tx b s p)"
proof -
  have st: "newStatus f c \<in> set OrderStatus_values" for f c by (simp add: newStatus_def enum_constants)
  show ?thesis
    unfolding executeTrade_tx_def update_orders_def debit_buyer_def credit_seller_def move_asset_def Let_def
    by (intro preserves_rules big_rules lock_orders_rules fill_quantity_rules GetByUserIDForUpdate_preserves typed_frames typed_update_frames
        order_updates_typed InsertTransaction_typed st; simp)
qed

lemma process_step_typed: "preserves typed (process_step i)"
proof -
  have t: "preserves typed (trade_transaction body)" if body: "preserves typed body" "preserves schema_ok body" "db_only body" for body
    unfolding preserves_def
  proof (intro allI impI conjI)
    fix w r w' assume t: "trade_transaction body w = (r, w')"
    show "seqs_le (seqs w) (seqs w')" using preserves_seqs [OF trade_transaction_preserves [OF body(2,3)] t] .
    show "enums_ok (db w')" if "enums_ok (db w)"
      using trade_transaction_cases [OF t] preservesD [OF body(1)] that by fastforce
  qed
  have "preserves typed (executeTrade a b)" for a b
    unfolding executeTrade_def Let_def by (intro preserves_rules publish_rules t executeTrade_tx_typed executeTrade_tx_rules)
  then show ?thesis unfolding process_step_def by (intro preserves_rules order_reads_preserve findBestCandidate_rules big_rules)
qed

interpretation typed_p: platform_inv typed "\<lambda>_ _. True"
  by unfold_locales (auto simp: PlaceOrder_typed CancelOrder_typed ExpireStaleOrders_typed dest: preservesD [OF process_step_typed])

end
