(* ===== verification/Hub.thy ===== *)
theory Hub
  imports Prelude
begin

text \<open>
  internal/websocket: the hub that sends prices to subscribed clients (hub.go, client.go). Clients have
  numbers; a client has the set of its topics, its buffered channel \<^verbatim>\<open>Send\<close> and whether that is closed.
  The hub's loop handles one unregistration or one broadcast at a time; the read pump of a client
  subscribes and unsubscribes until it ends and asks to be unregistered; the write pump empties the
  channel. The mutex makes each of these one step. Three things can go wrong in the loop, and are
  outcomes here: sending on a closed channel and closing a channel twice, which panic, and taking the
  write lock in \<^verbatim>\<open>unsubscribeAll\<close> while the broadcast holds the read lock, which never returns.
\<close>

section \<open>Data\<close>

record client =
  topics :: "string list"
  Send :: "string list"
  closed :: bool
  reading :: bool

record hub =
  subscriptions :: "string \<Rightarrow> int list option"
  clients :: "int \<Rightarrow> client option"
  unregisterChan :: "int list"

definition sendCap :: nat where "sendCap = 256"

definition NewHub :: hub where
  "NewHub = \<lparr>subscriptions = (\<lambda>t. None), clients = (\<lambda>c. None), unregisterChan = []\<rparr>"

definition NewClient :: client where
  "NewClient = \<lparr>topics = [], Send = [], closed = False, reading = True\<rparr>"

section \<open>hub.go\<close>

definition Subscribe :: "int \<Rightarrow> string \<Rightarrow> hub \<Rightarrow> hub" where
  "Subscribe c topic h = (case clients h c of None \<Rightarrow> h | Some cl \<Rightarrow>
     let cs = (case subscriptions h topic of None \<Rightarrow> [] | Some cs \<Rightarrow> cs) in
     h\<lparr>subscriptions := (subscriptions h)(topic \<mapsto> List.insert c cs),
       clients := (clients h)(c \<mapsto> cl\<lparr>topics := List.insert topic (topics cl)\<rparr>)\<rparr>)"

definition remove_client :: "int \<Rightarrow> string \<Rightarrow> (string \<Rightarrow> int list option) \<Rightarrow> string \<Rightarrow> int list option" where
  "remove_client c topic subs = (case subs topic of
     None \<Rightarrow> subs
   | Some cs \<Rightarrow> if removeAll c cs = [] then subs(topic := None) else subs(topic \<mapsto> removeAll c cs))"

definition Unsubscribe :: "int \<Rightarrow> string \<Rightarrow> hub \<Rightarrow> hub" where
  "Unsubscribe c topic h = (case clients h c of None \<Rightarrow> h | Some cl \<Rightarrow>
     h\<lparr>subscriptions := remove_client c topic (subscriptions h),
       clients := (clients h)(c \<mapsto> cl\<lparr>topics := removeAll topic (topics cl)\<rparr>)\<rparr>)"

definition unsubscribeAll :: "int \<Rightarrow> hub \<Rightarrow> hub" where
  "unsubscribeAll c h = (case clients h c of None \<Rightarrow> h | Some cl \<Rightarrow>
     h\<lparr>subscriptions := fold (remove_client c) (topics cl) (subscriptions h),
       clients := (clients h)(c \<mapsto> cl\<lparr>topics := []\<rparr>)\<rparr>)"

datatype outcome = Done hub | SendOnClosed | CloseOfClosed | Deadlock

text \<open>The loop over the clients of the topic, under the read lock.\<close>

fun deliver :: "string \<Rightarrow> int list \<Rightarrow> hub \<Rightarrow> outcome" where
  "deliver msg [] h = Done h"
| "deliver msg (c # cs) h = (case clients h c of
     None \<Rightarrow> deliver msg cs h
   | Some cl \<Rightarrow>
       if closed cl then SendOnClosed
       else if length (Send cl) < sendCap
         then deliver msg cs (h\<lparr>clients := (clients h)(c \<mapsto> cl\<lparr>Send := Send cl @ [msg]\<rparr>)\<rparr>)
       else Deadlock)"

definition run_broadcast :: "string \<Rightarrow> string \<Rightarrow> hub \<Rightarrow> outcome" where
  "run_broadcast topic msg h = (case subscriptions h topic of None \<Rightarrow> Done h | Some cs \<Rightarrow> deliver msg cs h)"

text \<open>The next client of the channel is unsubscribed from everything and its channel closed.\<close>

definition run_unregister :: "hub \<Rightarrow> outcome" where
  "run_unregister h = (case unregisterChan h of [] \<Rightarrow> Done h | c # q \<Rightarrow>
     let h1 = unsubscribeAll c (h\<lparr>unregisterChan := q\<rparr>) in
     (case clients h1 c of None \<Rightarrow> Done h1 | Some cl \<Rightarrow>
       if closed cl then CloseOfClosed else Done (h1\<lparr>clients := (clients h1)(c \<mapsto> cl\<lparr>closed := True\<rparr>)\<rparr>)))"

section \<open>client.go\<close>

text \<open>The read pump: one message of the client; at the end it asks to be unregistered.\<close>

definition read_message :: "int \<Rightarrow> string \<Rightarrow> string \<Rightarrow> hub \<Rightarrow> hub" where
  "read_message c action topic h =
     (if action = ''subscribe'' then Subscribe c topic h
      else if action = ''unsubscribe'' then Unsubscribe c topic h
      else h)"

definition read_end :: "int \<Rightarrow> hub \<Rightarrow> hub" where
  "read_end c h = (case clients h c of None \<Rightarrow> h | Some cl \<Rightarrow>
     h\<lparr>clients := (clients h)(c \<mapsto> cl\<lparr>reading := False\<rparr>), unregisterChan := unregisterChan h @ [c]\<rparr>)"

text \<open>The write pump takes everything that is queued into one frame, a line per message.\<close>

definition write_frame :: "int \<Rightarrow> hub \<Rightarrow> string list \<times> hub" where
  "write_frame c h = (case clients h c of None \<Rightarrow> ([], h) | Some cl \<Rightarrow>
     (Send cl, h\<lparr>clients := (clients h)(c \<mapsto> cl\<lparr>Send := []\<rparr>)\<rparr>))"

text \<open>It ends when no writer can be had; the message it had taken is lost.\<close>

definition lose_message :: "int \<Rightarrow> hub \<Rightarrow> hub" where
  "lose_message c h = (case clients h c of None \<Rightarrow> h | Some cl \<Rightarrow> h\<lparr>clients := (clients h)(c \<mapsto> cl\<lparr>Send := tl (Send cl)\<rparr>)\<rparr>)"

section \<open>The steps of the hub\<close>

inductive hub_step :: "hub \<Rightarrow> hub \<Rightarrow> bool" where
  connect: "clients h c = None \<Longrightarrow> hub_step h (h\<lparr>clients := (clients h)(c \<mapsto> NewClient)\<rparr>)"
| message: "clients h c = Some cl \<Longrightarrow> reading cl \<Longrightarrow> hub_step h (read_message c action topic h)"
| disconnect: "clients h c = Some cl \<Longrightarrow> reading cl \<Longrightarrow> hub_step h (read_end c h)"
| unregister: "run_unregister h = Done h' \<Longrightarrow> hub_step h h'"
| broadcast: "run_broadcast topic msg h = Done h' \<Longrightarrow> hub_step h h'"
| write_out: "hub_step h (snd (write_frame c h))"
| write_fails: "hub_step h (lose_message c h)"

inductive hub_reachable :: "hub \<Rightarrow> bool" where
  init: "hub_reachable NewHub"
| step: "hub_reachable h \<Longrightarrow> hub_step h h' \<Longrightarrow> hub_reachable h'"

inductive_cases hub_stepE: "hub_step h h'"

section \<open>Subscriptions and topics agree\<close>

definition members :: "(string \<Rightarrow> int list option) \<Rightarrow> string \<Rightarrow> int set" where
  "members subs t = (case subs t of None \<Rightarrow> {} | Some cs \<Rightarrow> set cs)"

definition topics_of :: "(int \<Rightarrow> client option) \<Rightarrow> int \<Rightarrow> string set" where
  "topics_of cls c = (case cls c of None \<Rightarrow> {} | Some cl \<Rightarrow> set (topics cl))"

text \<open>
  No topic without clients is kept; a client is in the table of a topic exactly if it has the topic; a
  client whose channel is closed, or is about to be, reads no more, and a closed one has no topics.
\<close>

definition subs_wf :: "(string \<Rightarrow> int list option) \<Rightarrow> bool" where
  "subs_wf subs \<longleftrightarrow> (\<forall>t cs. subs t = Some cs \<longrightarrow> cs \<noteq> [] \<and> distinct cs)"

definition agree :: "hub \<Rightarrow> bool" where
  "agree h \<longleftrightarrow> (\<forall>t c. c \<in> members (subscriptions h) t \<longleftrightarrow> t \<in> topics_of (clients h) c)"

definition client_ok :: "int list \<Rightarrow> int \<Rightarrow> client \<Rightarrow> bool" where
  "client_ok q c cl \<longleftrightarrow> (c \<in> set q \<longrightarrow> \<not> reading cl) \<and> (closed cl \<longrightarrow> topics cl = [] \<and> \<not> reading cl \<and> c \<notin> set q)"

definition clients_ok :: "hub \<Rightarrow> bool" where
  "clients_ok h \<longleftrightarrow> (\<forall>c cl. clients h c = Some cl \<longrightarrow> client_ok (unregisterChan h) c cl)
     \<and> distinct (unregisterChan h) \<and> (\<forall>c \<in> set (unregisterChan h). clients h c \<noteq> None)"

definition hub_ok :: "hub \<Rightarrow> bool" where
  "hub_ok h \<longleftrightarrow> subs_wf (subscriptions h) \<and> agree h \<and> clients_ok h"

lemma remove_client_other: "t \<noteq> topic \<Longrightarrow> remove_client c topic subs t = subs t"
  by (auto simp: remove_client_def split: option.splits)

lemma remove_client_same:
  "remove_client c topic subs topic = (case subs topic of None \<Rightarrow> None | Some cs \<Rightarrow> if removeAll c cs = [] then None else Some (removeAll c cs))"
  by (auto simp: remove_client_def split: option.splits)

lemma removeAll_Nil_set: "removeAll c cs = [] \<Longrightarrow> set cs - {c} = {}"
  by (metis empty_set set_removeAll)

lemma members_remove: "members (remove_client c topic subs) t = members subs t - (if t = topic then {c} else {})"
proof (cases "t = topic")
  case True
  then show ?thesis
    by (cases "subs topic") (auto simp: members_def remove_client_same dest!: removeAll_Nil_set)
next
  case False
  then show ?thesis by (simp add: members_def remove_client_other)
qed

lemma members_fold: "members (fold (remove_client c) ts subs) t = members subs t - (if t \<in> set ts then {c} else {})"
  by (induction ts arbitrary: subs) (auto simp: members_remove)

lemma subs_wf_remove: "subs_wf subs \<Longrightarrow> subs_wf (remove_client c topic subs)"
  unfolding subs_wf_def
proof (intro allI impI)
  fix t cs
  assume "\<forall>t cs. subs t = Some cs \<longrightarrow> cs \<noteq> [] \<and> distinct cs" "remove_client c topic subs t = Some cs"
  then show "cs \<noteq> [] \<and> distinct cs"
    by (cases "t = topic") (auto simp: remove_client_same remove_client_other distinct_removeAll split: option.splits if_splits)
qed

lemma subs_wf_fold: "subs_wf subs \<Longrightarrow> subs_wf (fold (remove_client c) ts subs)"
  by (induction ts arbitrary: subs) (auto intro: subs_wf_remove)

lemma topics_of_upd: "topics_of (cls(c \<mapsto> cl)) x = (if x = c then set (topics cl) else topics_of cls x)"
  by (simp add: topics_of_def)

section \<open>Every step keeps the hub in order\<close>

lemma agree_upd:
  assumes "agree h" and "\<And>t. members (subscriptions h') t - {c} = members (subscriptions h) t - {c}"
    and "\<And>x. x \<noteq> c \<Longrightarrow> topics_of (clients h') x = topics_of (clients h) x"
    and "\<And>t. c \<in> members (subscriptions h') t \<longleftrightarrow> t \<in> topics_of (clients h') c"
  shows "agree h'"
  unfolding agree_def
proof (intro allI)
  fix t x
  show "x \<in> members (subscriptions h') t \<longleftrightarrow> t \<in> topics_of (clients h') x"
  proof (cases "x = c")
    case False
    then have "x \<in> members (subscriptions h') t \<longleftrightarrow> x \<in> members (subscriptions h) t" using assms(2) [of t] by blast
    then show ?thesis using False assms(1,3) by (simp add: agree_def)
  qed (use assms(4) in simp)
qed

lemma agree_topics: "agree h \<Longrightarrow> clients h c = Some cl \<Longrightarrow> c \<in> members (subscriptions h) t \<longleftrightarrow> t \<in> set (topics cl)"
  by (simp add: agree_def topics_of_def)

lemma clients_ok_upd:
  assumes "clients_ok h" and "clients h' = (clients h)(c \<mapsto> cl')" and "unregisterChan h' = unregisterChan h" and "client_ok (unregisterChan h) c cl'"
  shows "clients_ok h'"
  using assms by (auto simp: clients_ok_def)

lemma hub_ok_connect:
  assumes "hub_ok h" and "clients h c = None"
  shows "hub_ok (h\<lparr>clients := (clients h)(c \<mapsto> NewClient)\<rparr>)"
proof -
  have ag: "agree h" using assms(1) by (simp add: hub_ok_def)
  have "c \<notin> members (subscriptions h) t" for t using ag assms(2) by (simp add: agree_def topics_of_def)
  then have "agree (h\<lparr>clients := (clients h)(c \<mapsto> NewClient)\<rparr>)"
    by (intro agree_upd [OF ag, where c = c]) (simp_all add: topics_of_upd NewClient_def)
  moreover have "clients_ok (h\<lparr>clients := (clients h)(c \<mapsto> NewClient)\<rparr>)"
  proof (rule clients_ok_upd)
    show "clients_ok h" using assms(1) by (simp add: hub_ok_def)
    then have "c \<notin> set (unregisterChan h)" using assms(2) unfolding clients_ok_def by blast
    then show "client_ok (unregisterChan h) c NewClient" by (simp add: client_ok_def NewClient_def)
  qed simp_all
  ultimately show ?thesis using assms(1) by (simp add: hub_ok_def)
qed

lemma hub_ok_Subscribe:
  assumes "hub_ok h" and c: "clients h c = Some cl" and "reading cl"
  shows "hub_ok (Subscribe c topic h)"
proof -
  let ?h = "Subscribe c topic h" and ?cs = "case subscriptions h topic of None \<Rightarrow> [] | Some cs \<Rightarrow> cs"
  have s: "subscriptions ?h = (subscriptions h)(topic \<mapsto> List.insert c ?cs)"
    and k: "clients ?h = (clients h)(c \<mapsto> cl\<lparr>topics := List.insert topic (topics cl)\<rparr>)" and q: "unregisterChan ?h = unregisterChan h"
    using c by (simp_all add: Subscribe_def Let_def)
  have m: "members (subscriptions ?h) t = members (subscriptions h) t \<union> (if t = topic then {c} else {})" for t
    by (auto simp: members_def s split: option.splits)
  have ag: "agree h" using assms(1) by (simp add: hub_ok_def)
  have tc: "c \<in> members (subscriptions h) t \<longleftrightarrow> t \<in> set (topics cl)" for t using agree_topics [OF ag c] .
  have "agree ?h"
    by (intro agree_upd [OF ag, where c = c]) (auto simp: m k topics_of_upd tc)
  moreover have "subs_wf (subscriptions ?h)"
    using assms(1) by (auto simp: hub_ok_def subs_wf_def s List.insert_def split: option.splits if_splits)
  moreover have "client_ok (unregisterChan h) c cl" using assms(1) c by (simp add: hub_ok_def clients_ok_def)
  then have "clients_ok ?h"
    using assms by (intro clients_ok_upd [OF _ k q]) (auto simp: hub_ok_def client_ok_def)
  ultimately show ?thesis by (simp add: hub_ok_def)
qed

lemma hub_ok_Unsubscribe:
  assumes "hub_ok h" and c: "clients h c = Some cl"
  shows "hub_ok (Unsubscribe c topic h)"
proof -
  let ?h = "Unsubscribe c topic h"
  have s: "subscriptions ?h = remove_client c topic (subscriptions h)"
    and k: "clients ?h = (clients h)(c \<mapsto> cl\<lparr>topics := removeAll topic (topics cl)\<rparr>)" and q: "unregisterChan ?h = unregisterChan h"
    using c by (simp_all add: Unsubscribe_def)
  have ag: "agree h" using assms(1) by (simp add: hub_ok_def)
  have tc: "c \<in> members (subscriptions h) t \<longleftrightarrow> t \<in> set (topics cl)" for t using agree_topics [OF ag c] .
  have "agree ?h"
    by (intro agree_upd [OF ag, where c = c]) (auto simp: s members_remove k topics_of_upd tc)
  moreover have "client_ok (unregisterChan h) c cl" using assms(1) c by (simp add: hub_ok_def clients_ok_def)
  then have "clients_ok ?h"
    using assms(1) by (intro clients_ok_upd [OF _ k q]) (auto simp: hub_ok_def client_ok_def)
  ultimately show ?thesis using assms(1) by (simp add: hub_ok_def s subs_wf_remove)
qed

lemma hub_ok_read_end:
  assumes "hub_ok h" and c: "clients h c = Some cl" and "reading cl"
  shows "hub_ok (read_end c h)"
proof -
  let ?h = "read_end c h"
  have k: "clients ?h = (clients h)(c \<mapsto> cl\<lparr>reading := False\<rparr>)" and q: "unregisterChan ?h = unregisterChan h @ [c]"
    and s: "subscriptions ?h = subscriptions h" using c by (simp_all add: read_end_def)
  have "client_ok (unregisterChan h) c cl" using assms(1) c by (simp add: hub_ok_def clients_ok_def)
  with assms(3) have n: "c \<notin> set (unregisterChan h)" "\<not> closed cl" by (auto simp: client_ok_def)
  have ag: "agree h" using assms(1) by (simp add: hub_ok_def)
  have "topics_of (clients ?h) x = topics_of (clients h) x" for x using c by (simp add: topics_of_def k)
  then have "agree ?h" using ag by (simp add: agree_def s)
  moreover have "clients_ok ?h" using assms(1) n by (auto simp: hub_ok_def clients_ok_def client_ok_def k q)
  ultimately show ?thesis using assms(1) by (simp add: hub_ok_def s)
qed

text \<open>An unregistration that is due can be carried out: no channel is closed twice.\<close>

lemma hub_ok_unregister:
  assumes ok: "hub_ok h"
  shows "\<exists>h'. run_unregister h = Done h' \<and> hub_ok h'"
proof (cases "unregisterChan h")
  case Nil
  then show ?thesis using ok by (simp add: run_unregister_def)
next
  case q: (Cons c cs)
  with ok obtain cl where k: "clients h c = Some cl" by (auto simp: hub_ok_def clients_ok_def)
  have nc: "\<not> closed cl" "\<not> reading cl" "c \<notin> set cs" using ok q k by (auto simp: hub_ok_def clients_ok_def client_ok_def)
  let ?h = "h\<lparr>unregisterChan := cs, subscriptions := fold (remove_client c) (topics cl) (subscriptions h),
      clients := (clients h)(c \<mapsto> cl\<lparr>topics := [], closed := True\<rparr>)\<rparr>"
  have r: "run_unregister h = Done ?h" using q k nc by (simp add: run_unregister_def unsubscribeAll_def Let_def)
  have ag: "agree h" using ok by (simp add: hub_ok_def)
  have "agree ?h"
    by (intro agree_upd [OF ag, where c = c]) (auto simp: members_fold topics_of_upd agree_topics [OF ag k])
  moreover have "clients_ok ?h" using ok q nc by (auto simp: hub_ok_def clients_ok_def client_ok_def)
  ultimately have "hub_ok ?h" using ok by (simp add: hub_ok_def subs_wf_fold)
  with r show ?thesis by blast
qed

section \<open>Broadcasts\<close>

definition queue_message :: "string \<Rightarrow> client \<Rightarrow> client" where
  "queue_message msg cl = cl\<lparr>Send := Send cl @ [msg]\<rparr>"

lemma deliver_Done:
  assumes "distinct cs" and "\<forall>c \<in> set cs. \<exists>cl. clients h c = Some cl \<and> \<not> closed cl \<and> length (Send cl) < sendCap"
  shows "deliver msg cs h = Done (h\<lparr>clients := (\<lambda>c. if c \<in> set cs then map_option (queue_message msg) (clients h c) else clients h c)\<rparr>)"
  using assms
proof (induction cs arbitrary: h)
  case (Cons c cs)
  then obtain cl where cl: "clients h c = Some cl" "\<not> closed cl" "length (Send cl) < sendCap" by auto
  let ?h = "h\<lparr>clients := (clients h)(c \<mapsto> queue_message msg cl)\<rparr>"
  have "\<forall>x \<in> set cs. \<exists>cl. clients ?h x = Some cl \<and> \<not> closed cl \<and> length (Send cl) < sendCap" using Cons.prems by auto
  from Cons.IH [OF _ this] Cons.prems(1)
  have "deliver msg cs ?h = Done (?h\<lparr>clients := (\<lambda>x. if x \<in> set cs then map_option (queue_message msg) (clients ?h x) else clients ?h x)\<rparr>)"
    by simp
  moreover have "deliver msg (c # cs) h = deliver msg cs ?h" using cl by (simp add: queue_message_def)
  moreover have "(\<lambda>x. if x \<in> set cs then map_option (queue_message msg) (clients ?h x) else clients ?h x)
      = (\<lambda>x. if x \<in> set (c # cs) then map_option (queue_message msg) (clients h x) else clients h x)"
    using Cons.prems(1) cl(1) by (auto simp: fun_eq_iff)
  ultimately show ?case by simp
qed simp

lemma deliver_Deadlock:
  assumes "distinct cs" and "\<forall>c \<in> set cs. \<exists>cl. clients h c = Some cl \<and> \<not> closed cl"
    and "\<exists>c \<in> set cs. \<exists>cl. clients h c = Some cl \<and> \<not> length (Send cl) < sendCap"
  shows "deliver msg cs h = Deadlock"
  using assms
proof (induction cs arbitrary: h)
  case (Cons c cs)
  then obtain cl where cl: "clients h c = Some cl" "\<not> closed cl" by auto
  show ?case
  proof (cases "length (Send cl) < sendCap")
    case True
    let ?h = "h\<lparr>clients := (clients h)(c \<mapsto> cl\<lparr>Send := Send cl @ [msg]\<rparr>)\<rparr>"
    have "deliver msg cs ?h = Deadlock"
    proof (rule Cons.IH)
      show "distinct cs" using Cons.prems(1) by simp
      show "\<forall>x \<in> set cs. \<exists>cl. clients ?h x = Some cl \<and> \<not> closed cl" using Cons.prems(1,2) by auto
      show "\<exists>x \<in> set cs. \<exists>cl. clients ?h x = Some cl \<and> \<not> length (Send cl) < sendCap" using Cons.prems(1,3) cl True by auto
    qed
    then show ?thesis using cl True by simp
  qed (use cl in simp)
qed simp

lemma hub_ok_map:
  assumes "hub_ok h" and "clients h' = (\<lambda>c. map_option (f c) (clients h c))" and "subscriptions h' = subscriptions h"
    and "unregisterChan h' = unregisterChan h" and "\<And>c cl. topics (f c cl) = topics cl \<and> closed (f c cl) = closed cl \<and> reading (f c cl) = reading cl"
  shows "hub_ok h'"
proof -
  have "topics_of (clients h') c = topics_of (clients h) c" for c
    using assms(5) by (simp add: topics_of_def assms(2) split: option.split)
  then have "agree h'" using assms(1,3) by (simp add: hub_ok_def agree_def)
  moreover have "clients_ok h'"
    using assms(1,5) by (auto simp: hub_ok_def clients_ok_def client_ok_def assms(2,4))
  ultimately show ?thesis using assms(1,3) by (simp add: hub_ok_def)
qed

lemma run_broadcast_eval:
  assumes ok: "hub_ok h"
  shows "if \<exists>c cl. clients h c = Some cl \<and> topic \<in> set (topics cl) \<and> sendCap \<le> length (Send cl) then run_broadcast topic msg h = Deadlock
    else run_broadcast topic msg h = Done (h\<lparr>clients := (\<lambda>c. map_option (\<lambda>cl. if topic \<in> set (topics cl) then queue_message msg cl else cl) (clients h c))\<rparr>)"
proof -
  have ag: "agree h" using ok by (simp add: hub_ok_def)
  have open_client: "\<not> closed cl" if "clients h c = Some cl" "topic \<in> set (topics cl)" for c cl
    using ok that by (auto simp: hub_ok_def clients_ok_def client_ok_def)
  show ?thesis
  proof (cases "subscriptions h topic")
    case None
    then have no: "topic \<notin> set (topics cl)" if "clients h c = Some cl" for c cl
      using agree_topics [OF ag that, of topic] by (simp add: members_def)
    then have "(\<lambda>c. map_option (\<lambda>cl. if topic \<in> set (topics cl) then queue_message msg cl else cl) (clients h c)) = clients h"
      by (auto simp: fun_eq_iff map_option_case split: option.split)
    then show ?thesis using None no by (auto simp: run_broadcast_def)
  next
    case (Some cs)
    have iff: "c \<in> set cs \<longleftrightarrow> topic \<in> set (topics cl)" if "clients h c = Some cl" for c cl
      using agree_topics [OF ag that, of topic] Some by (simp add: members_def)
    have d: "distinct cs" using ok Some by (auto simp: hub_ok_def subs_wf_def)
    have ex: "\<exists>cl. clients h c = Some cl \<and> \<not> closed cl" if "c \<in> set cs" for c
    proof -
      have "c \<in> members (subscriptions h) topic" using that Some by (simp add: members_def)
      then have "topic \<in> topics_of (clients h) c" using ag by (simp add: agree_def)
      then obtain cl where "clients h c = Some cl" "topic \<in> set (topics cl)" by (auto simp: topics_of_def split: option.splits)
      then show ?thesis using open_client by blast
    qed
    show ?thesis
    proof (cases "\<exists>c cl. clients h c = Some cl \<and> topic \<in> set (topics cl) \<and> sendCap \<le> length (Send cl)")
      case True
      then have "deliver msg cs h = Deadlock" using ex iff d by (intro deliver_Deadlock) (auto simp: not_less)
      with True Some show ?thesis by (simp add: run_broadcast_def)
    next
      case False
      have "deliver msg cs h = Done (h\<lparr>clients := (\<lambda>c. if c \<in> set cs then map_option (queue_message msg) (clients h c) else clients h c)\<rparr>)"
      proof (intro deliver_Done d ballI)
        fix c
        assume c: "c \<in> set cs"
        with ex obtain cl where cl: "clients h c = Some cl" "\<not> closed cl" by blast
        with c iff False have "length (Send cl) < sendCap" by (meson not_le)
        with cl show "\<exists>cl. clients h c = Some cl \<and> \<not> closed cl \<and> length (Send cl) < sendCap" by blast
      qed
      moreover have "(\<lambda>c. if c \<in> set cs then map_option (queue_message msg) (clients h c) else clients h c)
          = (\<lambda>c. map_option (\<lambda>cl. if topic \<in> set (topics cl) then queue_message msg cl else cl) (clients h c))"
      proof
        fix c
        show "(if c \<in> set cs then map_option (queue_message msg) (clients h c) else clients h c)
            = map_option (\<lambda>cl. if topic \<in> set (topics cl) then queue_message msg cl else cl) (clients h c)"
          using iff [of c] by (cases "clients h c") auto
      qed
      ultimately show ?thesis using False Some by (simp add: run_broadcast_def)
    qed
  qed
qed

lemma hub_step_ok:
  assumes "hub_step h h'" and ok: "hub_ok h"
  shows "hub_ok h'"
  using assms(1)
proof (cases rule: hub_step.cases)
  case (message c cl action topic)
  then show ?thesis using ok by (auto simp: read_message_def intro: hub_ok_Subscribe hub_ok_Unsubscribe)
next
  case unregister
  then show ?thesis using hub_ok_unregister [OF ok] by auto
next
  case (broadcast topic msg)
  then have "h' = h\<lparr>clients := (\<lambda>c. map_option (\<lambda>cl. if topic \<in> set (topics cl) then queue_message msg cl else cl) (clients h c))\<rparr>"
    using run_broadcast_eval [OF ok, of topic msg] by (auto split: if_splits)
  then show ?thesis
    by (intro hub_ok_map [OF ok, where f = "\<lambda>c cl. if topic \<in> set (topics cl) then queue_message msg cl else cl"]) (auto simp: queue_message_def)
next
  case (write_out c)
  then show ?thesis
  proof (cases "clients h c")
    case (Some cl)
    show ?thesis unfolding write_out
      using Some by (intro hub_ok_map [OF ok, where f = "\<lambda>x cl. if x = c then cl\<lparr>Send := []\<rparr> else cl"]) (auto simp: write_frame_def fun_eq_iff map_option_case split: option.split)
  qed (use ok in \<open>simp add: write_frame_def\<close>)
next
  case (write_fails c)
  then show ?thesis
  proof (cases "clients h c")
    case (Some cl)
    show ?thesis unfolding write_fails
      using Some by (intro hub_ok_map [OF ok, where f = "\<lambda>x cl. if x = c then cl\<lparr>Send := tl (Send cl)\<rparr> else cl"]) (auto simp: lose_message_def fun_eq_iff map_option_case split: option.split)
  qed (use ok in \<open>simp add: lose_message_def\<close>)
qed (use ok in \<open>auto intro: hub_ok_connect hub_ok_read_end\<close>)

lemma hub_reachable_ok: "hub_reachable h \<Longrightarrow> hub_ok h"
proof (induction rule: hub_reachable.induct)
  case init
  then show ?case by (simp add: hub_ok_def NewHub_def subs_wf_def agree_def members_def topics_of_def clients_ok_def)
next
  case (step h h')
  then show ?case using hub_step_ok by blast
qed

text \<open>
  Property C19. In every state the hub can reach, the table of topics and the topics of the clients
  agree, no topic without clients is kept, and a client whose channel is closed has no topics; so the
  next unregistration never closes a channel twice.
\<close>

theorem hub_consistent:
  assumes "hub_reachable h"
  shows "(\<forall>c cl t. clients h c = Some cl \<longrightarrow> ((\<exists>cs. subscriptions h t = Some cs \<and> c \<in> set cs) \<longleftrightarrow> t \<in> set (topics cl)))
    \<and> (\<forall>t cs. subscriptions h t = Some cs \<longrightarrow> cs \<noteq> [] \<and> distinct cs)
    \<and> (\<forall>c cl. clients h c = Some cl \<and> closed cl \<longrightarrow> topics cl = [])
    \<and> run_unregister h \<noteq> CloseOfClosed"
proof -
  have ok: "hub_ok h" by (rule hub_reachable_ok [OF assms])
  then have ag: "agree h" by (simp add: hub_ok_def)
  have "(\<exists>cs. subscriptions h t = Some cs \<and> c \<in> set cs) \<longleftrightarrow> c \<in> members (subscriptions h) t" for t c
    by (simp add: members_def split: option.split)
  then have 1: "(\<exists>cs. subscriptions h t = Some cs \<and> c \<in> set cs) \<longleftrightarrow> t \<in> set (topics cl)" if "clients h c = Some cl" for c cl t
    using agree_topics [OF ag that] by simp
  have 2: "closed cl \<Longrightarrow> topics cl = []" if "clients h c = Some cl" for c cl
    using ok that by (auto simp: hub_ok_def clients_ok_def client_ok_def)
  have 3: "run_unregister h \<noteq> CloseOfClosed" using hub_ok_unregister [OF ok] by auto
  have 4: "\<forall>t cs. subscriptions h t = Some cs \<longrightarrow> cs \<noteq> [] \<and> distinct cs" using ok by (simp add: hub_ok_def subs_wf_def)
  show ?thesis using 1 2 3 4 by blast
qed

definition ex_hub :: hub where
  "ex_hub = Subscribe 7 ''asset:1'' (NewHub\<lparr>clients := (clients NewHub)(7 \<mapsto> NewClient)\<rparr>)"

lemma ex_hub_reachable: "hub_reachable ex_hub"
proof -
  let ?h = "NewHub\<lparr>clients := (clients NewHub)(7 \<mapsto> NewClient)\<rparr>"
  have "hub_step NewHub ?h" by (intro hub_step.connect) (simp add: NewHub_def)
  then have "hub_reachable ?h" by (blast intro: hub_reachable.intros)
  moreover have "hub_step ?h (read_message 7 ''subscribe'' ''asset:1'' ?h)"
    by (intro hub_step.message [where cl = NewClient]) (simp_all add: NewClient_def)
  ultimately show ?thesis unfolding ex_hub_def by (auto simp: read_message_def intro: hub_reachable.intros)
qed

theorem hub_consistent_witness: "subscriptions ex_hub ''asset:1'' = Some [7] \<and> run_unregister ex_hub \<noteq> CloseOfClosed"
proof
  show "subscriptions ex_hub ''asset:1'' = Some [7]" by (simp add: ex_hub_def Subscribe_def NewHub_def Let_def)
  show "run_unregister ex_hub \<noteq> CloseOfClosed" using hub_consistent [OF ex_hub_reachable] by blast
qed

text \<open>
  Property C18. A broadcast in a state the hub can reach: if every subscriber of the topic has room, the
  message is put once at the end of the queue of every subscriber and of nobody else. If one subscriber
  has a full queue, the loop does not drop it, as it means to: it waits for its own read lock, forever.
\<close>

theorem broadcast_delivers_or_deadlocks:
  assumes "hub_reachable h"
  shows "if \<exists>c cl. clients h c = Some cl \<and> topic \<in> set (topics cl) \<and> 256 \<le> length (Send cl) then run_broadcast topic msg h = Deadlock
    else \<exists>h'. run_broadcast topic msg h = Done h' \<and> subscriptions h' = subscriptions h
      \<and> (\<forall>c. clients h' c = map_option (\<lambda>cl. if topic \<in> set (topics cl) then cl\<lparr>Send := Send cl @ [msg]\<rparr> else cl) (clients h c))"
  using run_broadcast_eval [OF hub_reachable_ok [OF assms], of topic msg]
  by (auto simp: queue_message_def sendCap_def map_option_case split: if_splits option.split)

theorem broadcast_delivers_or_deadlocks_witness:
  "\<exists>h'. run_broadcast ''asset:1'' ''9.5'' ex_hub = Done h' \<and> map_option Send (clients h' 7) = Some [''9.5'']"
  using broadcast_delivers_or_deadlocks [OF ex_hub_reachable, of "''asset:1''" "''9.5''"]
  by (auto simp: ex_hub_def Subscribe_def NewHub_def NewClient_def Let_def split: if_splits)

end
