(* ===== verification/Pumps.thy ===== *)
theory Pumps
  imports Hub Kafka
begin

text \<open>
  The two goroutines of a web socket client (internal/websocket/client.go): \<^verbatim>\<open>ReadPump\<close> reads the
  client's messages until the connection fails and then has the client unregistered, \<^verbatim>\<open>WritePump\<close>
  writes what the hub has queued, a ping now and then, and a close frame at the end. The connection is
  the sequence of what reading from it gives and whether writing to it works.
\<close>

section \<open>The read pump\<close>

text \<open>What \<^verbatim>\<open>Conn.ReadMessage\<close> returns: an error, or a message, which is JSON or not.\<close>

datatype ws_read = ReadFails | ReadText "json option"

record ClientMessage =
  cm_Action :: string
  cm_Topic :: string

definition client_message_fields :: "ClientMessage fields" where
  "client_message_fields = [(''action'', string_field (\<lambda>x r. r\<lparr>cm_Action := x\<rparr>)), (''topic'', string_field (\<lambda>x r. r\<lparr>cm_Topic := x\<rparr>))]"

definition client_message :: "json option \<Rightarrow> ClientMessage option" where
  "client_message j = (case j of None \<Rightarrow> None | Some j \<Rightarrow> Unmarshal client_message_fields \<lparr>cm_Action = [], cm_Topic = []\<rparr> j)"

text \<open>The loop, and whether it has ended.\<close>

fun ReadPump :: "int \<Rightarrow> ws_read list \<Rightarrow> hub \<Rightarrow> hub" where
  "ReadPump c [] h = h"
| "ReadPump c (ReadFails # rs) h = read_end c h"
| "ReadPump c (ReadText j # rs) h = ReadPump c rs (case client_message j of
     None \<Rightarrow> h
   | Some m \<Rightarrow> read_message c (cm_Action m) (cm_Topic m) h)"

section \<open>The write pump\<close>

datatype frame = TextFrame string | CloseFrame | PingFrame

text \<open>The messages of one frame, a line each.\<close>

fun lines_text :: "string list \<Rightarrow> string" where
  "lines_text [] = []"
| "lines_text [m] = m"
| "lines_text (m # ms) = m @ CHR 0x0A # lines_text ms"

text \<open>
  One turn of the loop. The channel has a message: with it, all that is queued goes into one frame; if
  no writer can be had the message taken is lost, if the frame cannot be closed all of it is. The
  channel is closed and empty: the close frame, and the end. The ticker: a ping.
\<close>

datatype turn = Receive bool bool | Tick bool

datatype pump = Runs | Ended

definition WritePump_turn :: "int \<Rightarrow> turn \<Rightarrow> hub \<Rightarrow> frame list \<times> pump \<times> hub" where
  "WritePump_turn c t h = (case t of
     Tick ok \<Rightarrow> if ok then ([PingFrame], Runs, h) else ([], Ended, h)
   | Receive writer closes \<Rightarrow> (case clients h c of
       None \<Rightarrow> ([], Runs, h)
     | Some cl \<Rightarrow> (case Send cl of
         [] \<Rightarrow> if closed cl then ([CloseFrame], Ended, h) else ([], Runs, h)
       | m # ms \<Rightarrow>
           if \<not> writer then ([], Ended, lose_message c h)
           else (let (all, h1) = write_frame c h in
             if closes then ([TextFrame (lines_text all)], Runs, h1) else ([], Ended, h1)))))"

fun WritePump :: "int \<Rightarrow> turn list \<Rightarrow> hub \<Rightarrow> frame list \<times> pump \<times> hub" where
  "WritePump c [] h = ([], Runs, h)"
| "WritePump c (t # ts) h = (case WritePump_turn c t h of
     (fs, Ended, h1) \<Rightarrow> (fs, Ended, h1)
   | (fs, Runs, h1) \<Rightarrow> (case WritePump c ts h1 of (gs, p, h2) \<Rightarrow> (fs @ gs, p, h2)))"

section \<open>handler.go\<close>

text \<open>A connection that is upgraded becomes a client, whose pumps are started. The hub ignores what is registered.\<close>

definition Connect :: "bool \<Rightarrow> int \<Rightarrow> hub \<Rightarrow> hub" where
  "Connect upgraded c h = (if \<not> upgraded then h else h\<lparr>clients := (clients h)(c \<mapsto> NewClient)\<rparr>)"

section \<open>The pumps do what the hub's steps do\<close>

lemma ReadPump_reachable:
  assumes "hub_reachable h" and "clients h c = Some cl" and "reading cl"
  shows "hub_reachable (ReadPump c rs h)"
  using assms
proof (induction rs arbitrary: h cl)
  case (Cons r rs)
  show ?case
  proof (cases r)
    case ReadFails
    then show ?thesis using Cons.prems by (auto intro: hub_reachable.step hub_step.disconnect)
  next
    case (ReadText j)
    show ?thesis
    proof (cases "client_message j")
      case (Some m)
      let ?h = "read_message c (cm_Action m) (cm_Topic m) h"
      have "hub_reachable ?h" using Cons.prems by (auto intro: hub_reachable.step hub_step.message)
      moreover have "\<exists>cl'. clients ?h c = Some cl' \<and> reading cl'"
        using Cons.prems(2,3) by (auto simp: read_message_def Subscribe_def Unsubscribe_def Let_def)
      ultimately show ?thesis using Cons.IH ReadText Some by auto
    qed (use Cons ReadText in simp)
  qed
qed simp

text \<open>A pump whose connection failed leaves the client to be unregistered, and then it is in no topic.\<close>

lemma ReadPump_ends:
  assumes "ReadFails \<in> set rs" and "clients h c = Some cl"
  shows "c \<in> set (unregisterChan (ReadPump c rs h))"
  using assms
proof (induction rs arbitrary: h cl)
  case (Cons r rs)
  show ?case
  proof (cases r)
    case ReadFails
    then show ?thesis using Cons.prems by (simp add: read_end_def)
  next
    case (ReadText j)
    let ?h = "case client_message j of None \<Rightarrow> h | Some m \<Rightarrow> read_message c (cm_Action m) (cm_Topic m) h"
    have "\<exists>cl'. clients ?h c = Some cl'"
      using Cons.prems(2) by (auto simp: read_message_def Subscribe_def Unsubscribe_def Let_def split: option.split)
    then show ?thesis using Cons ReadText by auto
  qed
qed simp

section \<open>What a client is sent\<close>

fun lines_of :: "string \<Rightarrow> string list" where
  "lines_of [] = [[]]"
| "lines_of (c # s) = (if c = CHR 0x0A then [] # lines_of s else case lines_of s of l # ls \<Rightarrow> (c # l) # ls | [] \<Rightarrow> [[c]])"

lemma lines_of_nonempty [simp]: "lines_of s \<noteq> []"
  by (induction s) (auto split: list.split)

lemma lines_of_line: "CHR 0x0A \<notin> set m \<Longrightarrow> lines_of (m @ CHR 0x0A # s) = m # lines_of s"
  by (induction m) auto

lemma lines_of_last: "CHR 0x0A \<notin> set m \<Longrightarrow> lines_of m = [m]"
  by (induction m) auto

lemma lines_of_text: "ms \<noteq> [] \<Longrightarrow> list_all (\<lambda>m. CHR 0x0A \<notin> set m) ms \<Longrightarrow> lines_of (lines_text ms) = ms"
  by (induction ms rule: lines_text.induct) (simp_all add: lines_of_last lines_of_line)

definition frame_messages :: "frame \<Rightarrow> string list" where
  "frame_messages f = (case f of TextFrame s \<Rightarrow> lines_of s | _ \<Rightarrow> [])"

definition queue_of :: "hub \<Rightarrow> int \<Rightarrow> string list" where
  "queue_of h c = (case clients h c of None \<Rightarrow> [] | Some cl \<Rightarrow> Send cl)"

text \<open>
  A run of the hub as one client sees it: what was broadcast to topics it had at that moment, and the
  frames its write pump has written, which works; the other clients and the reading are any steps.
\<close>

inductive client_run :: "int \<Rightarrow> hub \<Rightarrow> string list \<Rightarrow> frame list \<Rightarrow> hub \<Rightarrow> bool" for c h where
  start: "client_run c h [] [] h"
| broadcast: "client_run c h qs fs h1 \<Longrightarrow> run_broadcast topic msg h1 = Done h2 \<Longrightarrow> CHR 0x0A \<notin> set msg \<Longrightarrow>
    client_run c h (qs @ (if topic \<in> topics_of (clients h1) c then [msg] else [])) fs h2"
| pump: "client_run c h qs fs h1 \<Longrightarrow> list_all (\<lambda>t. t \<in> {Receive True True, Tick True}) ts \<Longrightarrow> WritePump c ts h1 = (gs, p, h2) \<Longrightarrow>
    client_run c h qs (fs @ gs) h2"
| other_pump: "client_run c h qs fs h1 \<Longrightarrow> d \<noteq> c \<Longrightarrow> WritePump d ts h1 = (gs, p, h2) \<Longrightarrow> client_run c h qs fs h2"
| read: "client_run c h qs fs h1 \<Longrightarrow> clients h1 d = Some cl \<Longrightarrow> reading cl \<Longrightarrow> client_run c h qs fs (ReadPump d rs h1)"
| unregister: "client_run c h qs fs h1 \<Longrightarrow> run_unregister h1 = Done h2 \<Longrightarrow> client_run c h qs fs h2"
| connect: "client_run c h qs fs h1 \<Longrightarrow> clients h1 d = None \<Longrightarrow> client_run c h qs fs (Connect upgraded d h1)"

lemma WritePump_turn_reachable: "hub_reachable h \<Longrightarrow> WritePump_turn c t h = (fs, p, h') \<Longrightarrow> hub_reachable h'"
  using hub_step.write_out [of h c] hub_step.write_fails [of h c]
  by (auto simp: WritePump_turn_def Let_def split: turn.splits option.splits list.splits if_splits prod.splits intro: hub_reachable.step)

lemma WritePump_reachable: "hub_reachable h \<Longrightarrow> WritePump c ts h = (fs, p, h') \<Longrightarrow> hub_reachable h'"
proof (induction ts arbitrary: h fs)
  case (Cons t ts)
  then show ?case using WritePump_turn_reachable [OF Cons.prems(1), of c t] by (auto split: prod.splits pump.splits)
qed simp

lemma WritePump_turn_other: "WritePump_turn d t h = (fs, p, h') \<Longrightarrow> d \<noteq> c \<Longrightarrow> queue_of h' c = queue_of h c"
  by (auto simp: WritePump_turn_def queue_of_def write_frame_def lose_message_def split: turn.splits option.splits list.splits if_splits)

lemma WritePump_other: "WritePump d ts h = (fs, p, h') \<Longrightarrow> d \<noteq> c \<Longrightarrow> queue_of h' c = queue_of h c"
proof (induction ts arbitrary: h fs)
  case (Cons t ts)
  then show ?case using WritePump_turn_other [of d t h _ _ _ c] by (auto split: prod.splits pump.splits)
qed simp

abbreviation one_line :: "string \<Rightarrow> bool" where
  "one_line m \<equiv> CHR 0x0A \<notin> set m"

lemma WritePump_turn_queue:
  assumes "WritePump_turn c t h = (fs, p, h')" and "t \<in> {Receive True True, Tick True}" and "list_all one_line (queue_of h c)"
  shows "concat (map frame_messages fs) @ queue_of h' c = queue_of h c"
  using assms by (auto simp: WritePump_turn_def queue_of_def write_frame_def frame_messages_def lines_of_text split: option.splits list.splits if_splits)

lemma WritePump_queue:
  assumes "WritePump c ts h = (fs, p, h')" and "list_all (\<lambda>t. t \<in> {Receive True True, Tick True}) ts" and "list_all one_line (queue_of h c)"
  shows "concat (map frame_messages fs) @ queue_of h' c = queue_of h c"
  using assms
proof (induction ts arbitrary: h fs)
  case (Cons t ts)
  obtain gs q h1 where t: "WritePump_turn c t h = (gs, q, h1)" by (cases "WritePump_turn c t h")
  have q: "concat (map frame_messages gs) @ queue_of h1 c = queue_of h c"
    using WritePump_turn_queue [OF t] Cons.prems(2,3) by auto
  then have l: "list_all one_line (queue_of h1 c)" using Cons.prems(3) by (metis list_all_append)
  show ?case
  proof (cases q)
    case Runs
    obtain gs2 where "WritePump c ts h1 = (gs2, p, h')" "fs = gs @ gs2" using Cons.prems(1) t Runs by (auto split: prod.splits)
    then show ?thesis using Cons.IH [of h1 gs2] Cons.prems(2) l q by auto
  qed (use Cons.prems(1) t q in auto)
qed simp

lemma read_queue: "queue_of (ReadPump d rs h) c = queue_of h c"
proof (induction rs arbitrary: h)
  case (Cons r rs)
  have "queue_of (read_end d h) c = queue_of h c" "queue_of (read_message d a t h) c = queue_of h c" for a t h
    by (auto simp: queue_of_def read_end_def read_message_def Subscribe_def Unsubscribe_def Let_def split: option.split)
  then show ?case using Cons by (cases r) (auto split: option.split)
qed simp

lemma unregister_queue: "run_unregister h = Done h' \<Longrightarrow> queue_of h' c = queue_of h c"
  by (auto simp: queue_of_def run_unregister_def unsubscribeAll_def Let_def split: list.splits option.splits if_splits)

lemma broadcast_queue:
  assumes "hub_reachable h" and "run_broadcast topic msg h = Done h'"
  shows "queue_of h' c = queue_of h c @ (if topic \<in> topics_of (clients h) c then [msg] else [])"
  using run_broadcast_eval [OF hub_reachable_ok [OF assms(1)], of topic msg] assms(2)
  by (auto simp: queue_of_def topics_of_def queue_message_def split: if_splits option.split)

lemma client_run_queue:
  assumes "client_run c h qs fs h'" and "hub_reachable h" and "list_all one_line (queue_of h c)"
  shows "hub_reachable h' \<and> list_all one_line (queue_of h' c) \<and> concat (map frame_messages fs) @ queue_of h' c = queue_of h c @ qs"
  using assms(1)
proof induction
  case start
  then show ?case using assms(2,3) by simp
next
  case (broadcast qs fs h1 topic msg h2)
  then show ?case using broadcast_queue [of h1 topic msg h2 c] by (auto intro: hub_reachable.step hub_step.broadcast simp flip: append_assoc)
next
  case (pump qs fs h1 ts gs p h2)
  from WritePump_queue [OF pump(3,2)] pump.IH have q: "concat (map frame_messages gs) @ queue_of h2 c = queue_of h1 c" by simp
  then have "list_all one_line (queue_of h2 c)" using pump.IH by (metis list_all_append)
  then show ?case using q pump.IH WritePump_reachable [OF _ pump(3)] by simp
next
  case (other_pump qs fs h1 d ts gs p h2)
  then show ?case using WritePump_other [OF other_pump(3,2)] WritePump_reachable [OF _ other_pump(3)] by simp
next
  case (read qs fs h1 d cl rs)
  then show ?case using ReadPump_reachable [of h1 d cl rs] by (simp add: read_queue)
next
  case (unregister qs fs h1 h2)
  then show ?case using unregister_queue [of h1 h2 c] by (auto intro: hub_reachable.step hub_step.unregister)
next
  case (connect qs fs h1 d upgraded)
  then have "queue_of (Connect upgraded d h1) c = queue_of h1 c" by (auto simp: Connect_def queue_of_def NewClient_def)
  then show ?case using connect by (auto simp: Connect_def intro: hub_reachable.step hub_step.connect)
qed

text \<open>
  Property C36. Nothing is lost on the way to a client, nothing comes twice and nothing out of order:
  whatever the other clients do, what its write pump has written into frames, line by line, together
  with what still waits in its channel is exactly what waited before and then, in the order of the
  broadcasts, every message for a topic that the client had at the time.
\<close>

theorem client_sees_broadcasts:
  assumes "hub_reachable h" and "list_all (\<lambda>m. CHR 0x0A \<notin> set m) (queue_of h c)" and "client_run c h qs fs h'"
  shows "concat (map frame_messages fs) @ queue_of h' c = queue_of h c @ qs"
  using client_run_queue [OF assms(3,1,2)] by blast

definition ex_hub_with :: "string list \<Rightarrow> hub" where
  "ex_hub_with ms = \<lparr>subscriptions = [''asset:1'' \<mapsto> [7]],
     clients = [7 \<mapsto> \<lparr>topics = [''asset:1''], Send = ms, closed = False, reading = True\<rparr>], unregisterChan = []\<rparr>"

lemma ex_hub_with: "ex_hub = ex_hub_with []" "topics_of (clients (ex_hub_with ms)) 7 = {''asset:1''}" "queue_of (ex_hub_with ms) 7 = ms"
  "length ms < 256 \<Longrightarrow> run_broadcast ''asset:1'' m (ex_hub_with ms) = Done (ex_hub_with (ms @ [m]))"
  by (simp_all add: ex_hub_def ex_hub_with_def Subscribe_def NewHub_def NewClient_def topics_of_def queue_of_def run_broadcast_def sendCap_def fun_eq_iff)

theorem client_sees_broadcasts_witness:
  "\<exists>fs. client_run 7 ex_hub [''9.5'', ''9.6''] fs (ex_hub_with []) \<and> concat (map frame_messages fs) = [''9.5'', ''9.6'']"
proof -
  have b: "client_run 7 ex_hub [''9.5''] [] (ex_hub_with [''9.5''])"
    using client_run.broadcast [OF client_run.start, of "''asset:1''" "''9.5''" ex_hub _ 7] ex_hub_with(2) [of "[]"] ex_hub_with(4) [of "[]" "''9.5''"]
    by (simp add: ex_hub_with(1))
  have "client_run 7 ex_hub [''9.5'', ''9.6''] [] (ex_hub_with [''9.5'', ''9.6''])"
    using client_run.broadcast [OF b, of "''asset:1''" "''9.6''"] ex_hub_with(2) [of "[''9.5'']"] ex_hub_with(4) [of "[''9.5'']" "''9.6''"] by simp
  moreover have "WritePump 7 [Tick True, Receive True True] (ex_hub_with [''9.5'', ''9.6''])
      = ([PingFrame, TextFrame (lines_text [''9.5'', ''9.6''])], Runs, ex_hub_with [])"
    by (simp add: WritePump_turn_def write_frame_def ex_hub_with_def fun_eq_iff)
  ultimately have r: "client_run 7 ex_hub [''9.5'', ''9.6''] [PingFrame, TextFrame (lines_text [''9.5'', ''9.6''])] (ex_hub_with [])"
    using client_run.pump [of 7 ex_hub "[''9.5'', ''9.6'']" "[]" "ex_hub_with [''9.5'', ''9.6'']" "[Tick True, Receive True True]"] by simp
  then show ?thesis using client_sees_broadcasts [OF ex_hub_reachable _ r] ex_hub_with(1) ex_hub_with(3) [of "[]"] by auto
qed

end
