(* ===== verification/Chain.thy ===== *)
theory Chain
  imports Http
begin

text \<open>
  The middleware around every request (main.go, internal/middleware): the recovery from panics, the
  request's identity, the Prometheus counters and the line in the log. What follows \<^verbatim>\<open>c.Next()\<close> in a
  middleware is skipped when a panic goes through it, for nothing there is deferred. The status that
  gin keeps of the answers written, and a new UUID, are arguments.
\<close>

section \<open>A request as it arrives\<close>

record incoming =
  in_Request :: request
  in_URLPath :: string
  in_RawQuery :: string
  in_RequestID :: string
  in_UUID :: string

text \<open>Behind the middleware: the handlers of the route, or \<^verbatim>\<open>404\<close>. An error is a panic.\<close>

definition handle :: "server \<Rightarrow> request \<Rightarrow> answer list io" where
  "handle S rq = (case find_route rq of
     None \<Rightarrow> ret [(404, BText ''404 page not found'')]
   | Some (r, i) \<Rightarrow> run_route S r i rq)"

text \<open>\<^verbatim>\<open>c.FullPath()\<close>: the template of the route, empty if there is none.\<close>

definition FullPath :: "request \<Rightarrow> string" where
  "FullPath rq = (case find_route rq of
     None \<Rightarrow> []
   | Some (r, i) \<Rightarrow> concat (map (\<lambda>s. ''/'' @ (case s of Lit x \<Rightarrow> x | Param \<Rightarrow> '':id'')) (r_Pattern r)))"

section \<open>The middleware\<close>

definition RequestID :: "incoming \<Rightarrow> string" where
  "RequestID i = (if in_RequestID i = [] then in_UUID i else in_RequestID i)"

record log_line =
  ln_Method :: string
  ln_Path :: string
  ln_Status :: int
  ln_IP :: string
  ln_RequestID :: string

record telemetry =
  HTTPRequestsTotal :: "string \<times> string \<times> string \<Rightarrow> nat"
  HTTPRequestDuration :: "string \<times> string \<Rightarrow> nat"
  log_lines :: "log_line list"

text \<open>The histogram of the durations is kept as the number of its observations.\<close>

definition metric_path :: "incoming \<Rightarrow> string" where
  "metric_path i = (if FullPath (in_Request i) = [] then in_URLPath i else FullPath (in_Request i))"

definition metric_label :: "incoming \<Rightarrow> int \<Rightarrow> string \<times> string \<times> string" where
  "metric_label i status = (rq_Method (in_Request i), metric_path i, show_int status)"

definition PrometheusMiddleware :: "incoming \<Rightarrow> int \<Rightarrow> telemetry \<Rightarrow> telemetry" where
  "PrometheusMiddleware i status tm =
     (let label = metric_label i status; d = (rq_Method (in_Request i), metric_path i) in
      tm\<lparr>HTTPRequestsTotal := (HTTPRequestsTotal tm)(label := HTTPRequestsTotal tm label + 1),
         HTTPRequestDuration := (HTTPRequestDuration tm)(d := HTTPRequestDuration tm d + 1)\<rparr>)"

definition LoggingMiddleware :: "incoming \<Rightarrow> int \<Rightarrow> telemetry \<Rightarrow> telemetry" where
  "LoggingMiddleware i status tm = tm\<lparr>log_lines := log_lines tm @
     [\<lparr>ln_Method = rq_Method (in_Request i),
       ln_Path = (if in_RawQuery i = [] then in_URLPath i else in_URLPath i @ ''?'' @ in_RawQuery i),
       ln_Status = status, ln_IP = rq_ClientIP (in_Request i), ln_RequestID = RequestID i\<rparr>]\<rparr>"

text \<open>
  One request through all of it: the header with its identity, the answers, whether they are those of the
  recovery from a panic, the world and the telemetry.
\<close>

type_synonym response = "string \<times> answer list \<times> bool"

definition recovered :: "answer list" where
  "recovered = [(500, BEmpty)]"

definition serve :: "(answer list \<Rightarrow> int) \<Rightarrow> server \<Rightarrow> incoming \<Rightarrow> world \<times> telemetry \<Rightarrow> response \<times> world \<times> telemetry" where
  "serve written S i st = (case handle S (in_Request i) (fst st) of
     (Inl e, w) \<Rightarrow> ((RequestID i, recovered, True), w, snd st)
   | (Inr as, w) \<Rightarrow> ((RequestID i, as, False), w, PrometheusMiddleware i (written as) (LoggingMiddleware i (written as) (snd st))))"

fun serve_all :: "(answer list \<Rightarrow> int) \<Rightarrow> server \<Rightarrow> incoming list \<Rightarrow> world \<times> telemetry \<Rightarrow> (incoming \<times> response) list \<times> world \<times> telemetry" where
  "serve_all written S [] st = ([], st)"
| "serve_all written S (i # is) st = (case serve written S i st of
     (r, st1) \<Rightarrow> (case serve_all written S is st1 of (rs, st2) \<Rightarrow> ((i, r) # rs, st2)))"

section \<open>What is counted\<close>

text \<open>The same requests without the middleware: what is answered, and whether the handler panicked.\<close>

definition panics :: "server \<Rightarrow> request \<Rightarrow> world \<Rightarrow> bool" where
  "panics S rq w \<longleftrightarrow> (case find_route rq of None \<Rightarrow> False | Some (r, i) \<Rightarrow> isl (fst (run_route S r i rq w)))"

fun outcomes :: "server \<Rightarrow> request list \<Rightarrow> world \<Rightarrow> (answer list \<times> bool) list \<times> world" where
  "outcomes S [] w = ([], w)"
| "outcomes S (rq # rqs) w = (case outcomes S rqs (snd (ServeHTTP S rq w)) of
     (xs, w') \<Rightarrow> ((fst (ServeHTTP S rq w), panics S rq w) # xs, w'))"

text \<open>The line of the log and the labels of the counter that an answered request is to leave behind.\<close>

definition line_of :: "(answer list \<Rightarrow> int) \<Rightarrow> incoming \<times> response \<Rightarrow> log_line" where
  "line_of written x = (case x of (i, rid, as, p) \<Rightarrow>
     \<lparr>ln_Method = rq_Method (in_Request i),
      ln_Path = in_URLPath i @ (if in_RawQuery i = [] then [] else ''?'' @ in_RawQuery i),
      ln_Status = written as, ln_IP = rq_ClientIP (in_Request i), ln_RequestID = rid\<rparr>)"

definition labels_of :: "(answer list \<Rightarrow> int) \<Rightarrow> incoming \<times> response \<Rightarrow> string \<times> string \<times> string" where
  "labels_of written x = (case x of (i, rid, as, p) \<Rightarrow>
     (rq_Method (in_Request i), if FullPath (in_Request i) = [] then in_URLPath i else FullPath (in_Request i), show_int (written as)))"

definition panicked :: "incoming \<times> response \<Rightarrow> bool" where
  "panicked x \<longleftrightarrow> snd (snd (snd x))"

lemma middleware_telemetry:
  fixes i :: incoming and st :: int and tm :: telemetry
  defines "tm' \<equiv> PrometheusMiddleware i st (LoggingMiddleware i st tm)"
  shows "HTTPRequestsTotal tm' = (HTTPRequestsTotal tm)(metric_label i st := HTTPRequestsTotal tm (metric_label i st) + 1)"
    and "log_lines tm' = log_lines tm @
      [\<lparr>ln_Method = rq_Method (in_Request i), ln_Path = in_URLPath i @ (if in_RawQuery i = [] then [] else ''?'' @ in_RawQuery i),
        ln_Status = st, ln_IP = rq_ClientIP (in_Request i), ln_RequestID = RequestID i\<rparr>]"
  by (simp_all add: tm'_def PrometheusMiddleware_def LoggingMiddleware_def Let_def)

lemma metric_label_of: "metric_label i (written as) = labels_of written (i, rid, as, p)"
  by (simp add: labels_of_def metric_label_def metric_path_def)

lemma handle_outcome:
  "ServeHTTP S rq w = (case fst (handle S rq w) of Inl e \<Rightarrow> [(500, BEmpty)] | Inr as \<Rightarrow> as, snd (handle S rq w))"
  "panics S rq w = isl (fst (handle S rq w))"
  by (simp_all add: handle_def ServeHTTP_def panics_def ret_def split: option.split prod.split sum.split)

lemma serve_telemetry:
  assumes "serve written S i (w, tm) = (r, w', tm')"
  shows "HTTPRequestsTotal tm' label = HTTPRequestsTotal tm label + (if \<not> panicked (i, r) \<and> labels_of written (i, r) = label then 1 else 0)
    \<and> log_lines tm' = log_lines tm @ (if panicked (i, r) then [] else [line_of written (i, r)])
    \<and> fst r = (if in_RequestID i = [] then in_UUID i else in_RequestID i) \<and> (panicked (i, r) \<longrightarrow> fst (snd r) = [(500, BEmpty)])
    \<and> snd r = (fst (ServeHTTP S (in_Request i) w), panics S (in_Request i) w) \<and> w' = snd (ServeHTTP S (in_Request i) w)"
proof (cases "handle S (in_Request i) w")
  case (Pair q w1)
  show ?thesis
  proof (cases q)
    case (Inl e)
    with assms Pair show ?thesis by (auto simp: serve_def handle_outcome panicked_def recovered_def RequestID_def)
  next
    case (Inr as)
    with assms Pair have r: "r = (RequestID i, as, False)" "w' = w1"
      and t: "tm' = PrometheusMiddleware i (written as) (LoggingMiddleware i (written as) tm)"
      by (simp_all add: serve_def)
    show ?thesis unfolding t middleware_telemetry metric_label_of [where rid = "RequestID i" and p = False]
      using Pair Inr by (simp add: r handle_outcome panicked_def RequestID_def line_of_def)
  qed
qed

text \<open>
  Property C39. The telemetry of any sequence of requests, whose answers are those of their handlers: the
  log has one line for each request that was answered, in their order, with its method, path and query, the
  status written, the client's address and the identity in its header; the counter of a method, path and
  status has grown by the requests that were answered so. A request whose handler panicked is answered
  with 500 and is in neither.
\<close>

theorem requests_counted:
  assumes "serve_all written S is (w, tm) = (rs, w', tm')"
  shows "log_lines tm' = log_lines tm @ map (line_of written) (filter (\<lambda>x. \<not> panicked x) rs)
    \<and> HTTPRequestsTotal tm' label = HTTPRequestsTotal tm label + length (filter (\<lambda>x. \<not> panicked x \<and> labels_of written x = label) rs)
    \<and> outcomes S (map in_Request is) w = (map (\<lambda>x. snd (snd x)) rs, w')
    \<and> list_all (\<lambda>(i, rid, as, p). rid = (if in_RequestID i = [] then in_UUID i else in_RequestID i) \<and> (p \<longrightarrow> as = [(500, BEmpty)])) rs
    \<and> map fst rs = is"
  using assms
proof (induction "is" arbitrary: w tm rs)
  case (Cons i "is")
  obtain r w1 tm1 where s: "serve written S i (w, tm) = (r, w1, tm1)" by (cases "serve written S i (w, tm)") auto
  obtain rs1 where a: "serve_all written S is (w1, tm1) = (rs1, w', tm')" "rs = (i, r) # rs1"
    using Cons.prems s by (auto split: prod.splits)
  from serve_telemetry [OF s, of label] Cons.IH [OF a(1)] show ?case using a(2)
    by (cases r) (auto simp: panicked_def)
qed simp

text \<open>A request for a path without a route, and no telemetry yet.\<close>

definition ex_incoming :: incoming where
  "ex_incoming = \<lparr>in_Request = ex_http_request ''GET'' [''nowhere''] [], in_URLPath = ''/nowhere'', in_RawQuery = [], in_RequestID = [], in_UUID = ''id-1''\<rparr>"

definition no_telemetry :: telemetry where
  "no_telemetry = \<lparr>HTTPRequestsTotal = (\<lambda>_. 0), HTTPRequestDuration = (\<lambda>_. 0), log_lines = []\<rparr>"

definition first_status :: "answer list \<Rightarrow> int" where
  "first_status as = (case as of [] \<Rightarrow> 200 | a # _ \<Rightarrow> fst a)"

lemma ex_nowhere: "find_route (in_Request ex_incoming) = None"
  by (simp add: ex_incoming_def ex_http_request_def find_route_def routes_def auth_routes_def admin_routes_def wallet_routes_def asset_routes_def
      order_routes_def)

theorem requests_counted_witness:
  "\<exists>rs w' tm'. serve_all first_status ex_server [ex_incoming] (ex_world, no_telemetry) = (rs, w', tm')
     \<and> HTTPRequestsTotal tm' (''GET'', ''/nowhere'', ''404'') = 1
     \<and> map (\<lambda>l. (ln_Path l, ln_Status l, ln_RequestID l)) (log_lines tm') = [(''/nowhere'', 404, ''id-1'')]"
proof -
  obtain rs w' tm' where r: "serve_all first_status ex_server [ex_incoming] (ex_world, no_telemetry) = (rs, w', tm')"
    by (cases "serve_all first_status ex_server [ex_incoming] (ex_world, no_telemetry)") auto
  have l: "show_int 404 = ''404''" by code_simp
  have "rs = [(ex_incoming, ''id-1'', [(404, BText ''404 page not found'')], False)]"
    using r by (auto simp: serve_def handle_def ex_nowhere ret_def RequestID_def) (simp_all add: ex_incoming_def)
  moreover have "labels_of first_status (ex_incoming, ''id-1'', [(404, BText ''404 page not found'')], False) = (''GET'', ''/nowhere'', ''404'')"
    by (simp add: labels_of_def first_status_def FullPath_def ex_nowhere l) (simp add: ex_incoming_def ex_http_request_def)
  moreover have "line_of first_status (ex_incoming, ''id-1'', [(404, BText ''404 page not found'')], False)
      = \<lparr>ln_Method = ''GET'', ln_Path = ''/nowhere'', ln_Status = 404, ln_IP = rq_ClientIP (in_Request ex_incoming), ln_RequestID = ''id-1''\<rparr>"
    by (simp add: line_of_def first_status_def ex_incoming_def ex_http_request_def)
  moreover have "log_lines no_telemetry = []" "HTTPRequestsTotal no_telemetry l = 0" for l by (simp_all add: no_telemetry_def)
  moreover note requests_counted [OF r, of "(''GET'', ''/nowhere'', ''404'')"]
  ultimately have "HTTPRequestsTotal tm' (''GET'', ''/nowhere'', ''404'') = 1"
    and "map (\<lambda>l. (ln_Path l, ln_Status l, ln_RequestID l)) (log_lines tm') = [(''/nowhere'', 404, ''id-1'')]"
    by (simp_all add: panicked_def)
  with r show ?thesis by - (rule exI [of _ rs], rule exI [of _ w'], rule exI [of _ tm'], rule conjI, assumption, rule conjI)
qed

end
