(* ===== verification/Migrations.thy ===== *)
theory Migrations
  imports AssetService "HOL-Library.Multiset"
begin

text \<open>
  internal/database/database.go: \<^verbatim>\<open>RunMigrations\<close>, which brings the schema up to date at the start of the
  program. The schema itself is a type variable, and what a script does to it is an argument, as are
  the directory and its files; \<^verbatim>\<open>sort.Slice\<close>, which is not stable, is an argument with its law. Every
  statement may fail, in any order.
\<close>

section \<open>State\<close>

record dir_entry =
  de_Name :: string
  de_IsDir :: bool

record migrationFile =
  mf_version :: int
  mf_name :: string

text \<open>The tracker table: the versions it has, with \<^verbatim>\<open>dirty\<close>.\<close>

record 'a migration_db =
  md_schema :: 'a
  md_versions :: "int \<rightharpoonup> bool"

record 'a migration_world =
  md_db :: "'a migration_db"
  md_faults :: "string option list"

type_synonym ('a, 'r) mio = "'a migration_world \<Rightarrow> (string + 'r) \<times> 'a migration_world"

definition mret :: "'r \<Rightarrow> ('a, 'r) mio" where
  "mret x = (\<lambda>w. (Inr x, w))"

definition mbind :: "('a, 'r) mio \<Rightarrow> ('r \<Rightarrow> ('a, 's) mio) \<Rightarrow> ('a, 's) mio" where
  "mbind m f = (\<lambda>w. case m w of (Inl e, w1) \<Rightarrow> (Inl e, w1) | (Inr x, w1) \<Rightarrow> f x w1)"

text \<open>A statement on the database; it fails when the next fault says so, or by itself. A message is put before the error.\<close>

definition stmt :: "string \<Rightarrow> ('a migration_db \<Rightarrow> string + 'r \<times> 'a migration_db) \<Rightarrow> ('a, 'r) mio" where
  "stmt msg q = (\<lambda>w.
     let run = (\<lambda>v. case q (md_db v) of Inl e \<Rightarrow> (Inl (msg @ e), v) | Inr (x, d) \<Rightarrow> (Inr x, v\<lparr>md_db := d\<rparr>)) in
     case md_faults w of
       [] \<Rightarrow> run w
     | None # fs \<Rightarrow> run (w\<lparr>md_faults := fs\<rparr>)
     | Some e # fs \<Rightarrow> (Inl (msg @ e), w\<lparr>md_faults := fs\<rparr>))"

text \<open>A transaction: an error rolls back, and so does a commit that fails.\<close>

definition commit_migration :: "string \<Rightarrow> ('a, unit) mio" where
  "commit_migration name = stmt (''failed to commit migration transaction for '' @ name @ '': '') (\<lambda>d. Inr ((), d))"

definition in_migration_tx :: "string \<Rightarrow> ('a, unit) mio \<Rightarrow> ('a, unit) mio" where
  "in_migration_tx name body = mbind (stmt ''failed to start migration transaction: '' (\<lambda>d. Inr (d, d))) (\<lambda>snap w.
     case mbind body (\<lambda>_. commit_migration name) w of
       (Inl e, w1) \<Rightarrow> (Inl e, w1\<lparr>md_db := snap\<rparr>)
     | (Inr _, w1) \<Rightarrow> (Inr (), w1))"

section \<open>RunMigrations\<close>

definition HasSuffix :: "string \<Rightarrow> string \<Rightarrow> bool" where
  "HasSuffix s suf \<longleftrightarrow> length suf \<le> length s \<and> drop (length s - length suf) s = suf"

definition migration_of :: "dir_entry \<Rightarrow> migrationFile option" where
  "migration_of f = (let name = de_Name f in
     if de_IsDir f then None
     else if HasSuffix name ''.up.sql'' \<and> CHR ''_'' \<in> set name
       then map_option (\<lambda>v. \<lparr>mf_version = v, mf_name = name\<rparr>) (atoi (takeWhile (\<lambda>c. c \<noteq> CHR ''_'') name))
       else None)"

definition set_version :: "int \<Rightarrow> bool \<Rightarrow> 'a migration_db \<Rightarrow> 'a migration_db" where
  "set_version v dirty d = d\<lparr>md_versions := (md_versions d)(v \<mapsto> dirty)\<rparr>"

definition migration_status :: "migrationFile \<Rightarrow> ('a, bool \<times> bool) mio" where
  "migration_status m = stmt (''failed to check migration status for version '' @ show_int (mf_version m) @ '': '')
     (\<lambda>d. Inr ((md_versions d (mf_version m) = Some False, md_versions d (mf_version m) = Some True), d))"

definition execute_script :: "(string \<Rightarrow> 'a \<Rightarrow> string + 'a) \<Rightarrow> string \<Rightarrow> 'a migration_db \<Rightarrow> string + unit \<times> 'a migration_db" where
  "execute_script exec sqlContent d = (case exec sqlContent (md_schema d) of
     Inl e \<Rightarrow> Inl e | Inr s \<Rightarrow> Inr ((), d\<lparr>md_schema := s\<rparr>))"

text \<open>Inside the transaction: marked as dirty, executed, marked as clean.\<close>

definition migrate :: "(string \<Rightarrow> 'a \<Rightarrow> string + 'a) \<Rightarrow> migrationFile \<Rightarrow> string \<Rightarrow> ('a, unit) mio" where
  "migrate exec m sqlContent =
     mbind (stmt (''failed to mark migration '' @ show_int (mf_version m) @ '' as dirty: '') (\<lambda>d. Inr ((), set_version (mf_version m) True d))) (\<lambda>_.
     mbind (stmt (''failed to execute migration script '' @ mf_name m @ '': '') (execute_script exec sqlContent)) (\<lambda>_.
     stmt (''failed to mark migration '' @ show_int (mf_version m) @ '' as clean: '') (\<lambda>d. Inr ((), set_version (mf_version m) False d))))"

definition fail :: "string \<Rightarrow> ('a, 'r) mio" where
  "fail e = (\<lambda>w. (Inl e, w))"

definition apply_migration :: "(string \<Rightarrow> string + string) \<Rightarrow> (string \<Rightarrow> 'a \<Rightarrow> string + 'a) \<Rightarrow> migrationFile \<Rightarrow> ('a, unit) mio" where
  "apply_migration readFile exec m = mbind (migration_status m) (\<lambda>(isApplied, isDirty).
     if isDirty then fail (''database schema is in a dirty state for migration version '' @ show_int (mf_version m) @ ''. Please resolve manually'')
     else if isApplied then mret ()
     else (case readFile (mf_name m) of
         Inl e \<Rightarrow> fail (''failed to read migration file '' @ mf_name m @ '': '' @ e)
       | Inr sqlContent \<Rightarrow> in_migration_tx (mf_name m) (migrate exec m sqlContent)))"

fun apply_all :: "(string \<Rightarrow> string + string) \<Rightarrow> (string \<Rightarrow> 'a \<Rightarrow> string + 'a) \<Rightarrow> migrationFile list \<Rightarrow> ('a, unit) mio" where
  "apply_all readFile exec [] = mret ()"
| "apply_all readFile exec (m # ms) = mbind (apply_migration readFile exec m) (\<lambda>_. apply_all readFile exec ms)"

definition RunMigrations :: "(migrationFile list \<Rightarrow> migrationFile list) \<Rightarrow> (string \<Rightarrow> string + string) \<Rightarrow> (string \<Rightarrow> 'a \<Rightarrow> string + 'a)
    \<Rightarrow> string + dir_entry list \<Rightarrow> ('a, unit) mio" where
  "RunMigrations sortSlice readFile exec dir =
     mbind (stmt ''failed to create migrations tracker table: '' (\<lambda>d. Inr ((), d))) (\<lambda>_.
     case dir of
       Inl e \<Rightarrow> fail (''failed to read migrations directory: '' @ e)
     | Inr files \<Rightarrow> apply_all readFile exec (sortSlice (List.map_filter migration_of files)))"

section \<open>What a run does\<close>

text \<open>Scripts executed one after the other.\<close>

fun exec_scripts :: "(string \<Rightarrow> string + string) \<Rightarrow> (string \<Rightarrow> 'a \<Rightarrow> string + 'a) \<Rightarrow> migrationFile list \<Rightarrow> 'a \<Rightarrow> 'a option" where
  "exec_scripts readFile exec [] s = Some s"
| "exec_scripts readFile exec (m # ms) s = (case readFile (mf_name m) of
     Inl _ \<Rightarrow> None
   | Inr c \<Rightarrow> (case exec c s of Inl _ \<Rightarrow> None | Inr s' \<Rightarrow> exec_scripts readFile exec ms s'))"

definition mark_applied :: "migrationFile list \<Rightarrow> (int \<rightharpoonup> bool) \<Rightarrow> (int \<rightharpoonup> bool)" where
  "mark_applied ms vs = (\<lambda>v. if v \<in> mf_version ` set ms then Some False else vs v)"

lemma mbind_cases: "mbind m f w = (r, w') \<longleftrightarrow> (\<exists>e. m w = (Inl e, w') \<and> r = Inl e) \<or> (\<exists>x w1. m w = (Inr x, w1) \<and> f x w1 = (r, w'))"
  by (auto simp: mbind_def split: prod.splits sum.splits)

lemma stmt_Inl: "stmt msg q w = (Inl e, w') \<Longrightarrow> md_db w' = md_db w"
  by (auto simp: stmt_def Let_def split: list.splits option.splits sum.splits)

lemma stmt_Inr: "stmt msg q w = (Inr x, w') \<Longrightarrow> \<exists>d. q (md_db w) = Inr (x, d) \<and> md_db w' = d"
  by (auto simp: stmt_def Let_def split: list.splits option.splits sum.splits)

lemma in_migration_tx_cases:
  assumes "in_migration_tx name body w = (r, w')"
  shows "(\<exists>e. r = Inl e \<and> md_db w' = md_db w) \<or> (r = Inr () \<and> (\<exists>w1 w2. md_db w1 = md_db w \<and> body w1 = (Inr (), w2) \<and> md_db w' = md_db w2))"
  using assms [unfolded in_migration_tx_def mbind_cases [of "stmt _ _"]]
proof (elim disjE exE conjE)
  fix snap w1 assume "stmt ''failed to start migration transaction: '' (\<lambda>d. Inr (d, d)) w = (Inr snap, w1)"
    and run: "(case mbind body (\<lambda>_. commit_migration name) w1 of (Inl e, w1) \<Rightarrow> (Inl e, w1\<lparr>md_db := snap\<rparr>) | (Inr _, w1) \<Rightarrow> (Inr (), w1)) = (r, w')"
  from stmt_Inr [OF this(1)] have d: "snap = md_db w" "md_db w1 = md_db w" by auto
  obtain q w2 where q: "mbind body (\<lambda>_. commit_migration name) w1 = (q, w2)" by fastforce
  show ?thesis
  proof (cases q)
    case (Inl e)
    with run q d show ?thesis by auto
  next
    case (Inr u)
    with q obtain w3 where "body w1 = (Inr (), w3)" "commit_migration name w3 = (Inr (), w2)" by (auto simp: mbind_cases)
    moreover from this(2) have "md_db w2 = md_db w3" unfolding commit_migration_def by (auto dest: stmt_Inr)
    ultimately show ?thesis using run q Inr d by auto
  qed
qed (auto dest: stmt_Inl)

lemma migrate_Inr:
  assumes "migrate exec m c w = (Inr (), w')"
  shows "\<exists>s. exec c (md_schema (md_db w)) = Inr s
    \<and> md_db w' = (md_db w)\<lparr>md_schema := s, md_versions := (md_versions (md_db w))(mf_version m \<mapsto> False)\<rparr>"
proof -
  from assms obtain w1 w2 a b e x y where "stmt a (\<lambda>d. Inr ((), set_version (mf_version m) True d)) w = (Inr x, w1)"
    and "stmt b (execute_script exec c) w1 = (Inr y, w2)"
    and "stmt e (\<lambda>d. Inr ((), set_version (mf_version m) False d)) w2 = (Inr (), w')"
    unfolding migrate_def by (auto simp only: mbind_cases sum.simps simp_thms)
  note st = this [THEN stmt_Inr]
  from st(2) obtain s where s: "exec c (md_schema (md_db w1)) = Inr s" "md_db w2 = (md_db w1)\<lparr>md_schema := s\<rparr>"
    by (auto simp: execute_script_def split: sum.splits)
  moreover have "md_db w1 = set_version (mf_version m) True (md_db w)" "md_db w' = set_version (mf_version m) False (md_db w2)"
    using st(1,3) by auto
  ultimately show ?thesis by (simp add: set_version_def)
qed

text \<open>One migration: it is skipped, or executed as a whole, or it fails and leaves everything as it was.\<close>

lemma apply_migration_cases:
  assumes "apply_migration readFile exec m w = (r, w')"
  shows "(\<exists>e. r = Inl e \<and> md_db w' = md_db w)
    \<or> (r = Inr () \<and> md_versions (md_db w) (mf_version m) = Some False \<and> md_db w' = md_db w)
    \<or> (r = Inr () \<and> md_versions (md_db w) (mf_version m) = None
       \<and> (\<exists>c s. readFile (mf_name m) = Inr c \<and> exec c (md_schema (md_db w)) = Inr s
          \<and> md_db w' = (md_db w)\<lparr>md_schema := s, md_versions := (md_versions (md_db w))(mf_version m \<mapsto> False)\<rparr>))"
  using assms [unfolded apply_migration_def mbind_cases [of "migration_status m"]]
proof (elim disjE exE conjE)
  fix fl w1 assume st: "migration_status m w = (Inr fl, w1)"
    and run: "(case fl of (isApplied, isDirty) \<Rightarrow>
     if isDirty then fail (''database schema is in a dirty state for migration version '' @ show_int (mf_version m) @ ''. Please resolve manually'')
     else if isApplied then mret ()
     else (case readFile (mf_name m) of
         Inl e \<Rightarrow> fail (''failed to read migration file '' @ mf_name m @ '': '' @ e)
       | Inr sqlContent \<Rightarrow> in_migration_tx (mf_name m) (migrate exec m sqlContent))) w1 = (r, w')"
  let ?v = "md_versions (md_db w) (mf_version m)"
  from stmt_Inr [OF st [unfolded migration_status_def]] have f: "fl = (?v = Some False, ?v = Some True)" and d: "md_db w1 = md_db w" by auto
  consider "?v = Some True" | "?v = Some False" | "?v = None" by (cases ?v) auto
  then show ?thesis
  proof cases
    case 3
    show ?thesis
    proof (cases "readFile (mf_name m)")
      case (Inr c)
      with 3 run f have "in_migration_tx (mf_name m) (migrate exec m c) w1 = (r, w')" by simp
      from in_migration_tx_cases [OF this] show ?thesis using migrate_Inr 3 Inr d by fastforce
    qed (use 3 run f d in \<open>auto simp: fail_def\<close>)
  qed (use run f d in \<open>auto simp: mret_def fail_def\<close>)
qed (auto simp: migration_status_def dest: stmt_Inl)

section \<open>A run\<close>

lemma apply_all_cases:
  assumes "apply_all readFile exec ms w = (r, w')" and "sorted_wrt (\<le>) (map mf_version ms)"
  shows "\<exists>ds. set ds \<subseteq> set ms \<and> sorted_wrt (<) (map mf_version ds)
    \<and> (\<forall>m \<in> set ds. md_versions (md_db w) (mf_version m) = None)
    \<and> exec_scripts readFile exec ds (md_schema (md_db w)) = Some (md_schema (md_db w'))
    \<and> md_versions (md_db w') = mark_applied ds (md_versions (md_db w))
    \<and> (r = Inr () \<longrightarrow> (\<forall>m \<in> set ms. md_versions (md_db w') (mf_version m) = Some False))"
  using assms
proof (induction ms arbitrary: w)
  case Nil
  then show ?case by (intro exI [of _ "[]"]) (simp add: mret_def mark_applied_def)
next
  case (Cons m ms)
  obtain q w1 where q: "apply_migration readFile exec m w = (q, w1)" by fastforce
  show ?case
  proof (cases q)
    case (Inl e)
    with apply_migration_cases [OF q] Cons.prems(1) q show ?thesis
      by (intro exI [of _ "[]"]) (auto simp: mbind_def mark_applied_def)
  next
    case (Inr u)
    then have "apply_all readFile exec ms w1 = (r, w')" using Cons.prems(1) q by (simp add: mbind_def)
    from Cons.IH [OF this] Cons.prems(2) obtain ds where ds: "set ds \<subseteq> set ms" "sorted_wrt (<) (map mf_version ds)"
      "\<forall>x \<in> set ds. md_versions (md_db w1) (mf_version x) = None"
      "exec_scripts readFile exec ds (md_schema (md_db w1)) = Some (md_schema (md_db w'))"
      "md_versions (md_db w') = mark_applied ds (md_versions (md_db w1))"
      "r = Inr () \<longrightarrow> (\<forall>x \<in> set ms. md_versions (md_db w') (mf_version x) = Some False)" by auto
    have le: "mf_version m \<le> mf_version x" if "x \<in> set ms" for x using Cons.prems(2) that by simp
    from apply_migration_cases [OF q] Inr consider
      "md_versions (md_db w) (mf_version m) = Some False" "md_db w1 = md_db w"
    | c s where "md_versions (md_db w) (mf_version m) = None" "readFile (mf_name m) = Inr c" "exec c (md_schema (md_db w)) = Inr s"
        "md_db w1 = (md_db w)\<lparr>md_schema := s, md_versions := (md_versions (md_db w))(mf_version m \<mapsto> False)\<rparr>" by auto
    then show ?thesis
    proof cases
      case 1
      then show ?thesis using ds by (intro exI [of _ ds]) (auto simp: mark_applied_def)
    next
      case (2 c s)
      have ne: "mf_version x \<noteq> mf_version m" if "x \<in> set ds" for x using ds(3) that 2(4) by auto
      then have "mf_version m < mf_version x" if "x \<in> set ds" for x using le ds(1) that by (metis order_le_imp_less_or_eq subsetD)
      then show ?thesis using ds 2 ne
        by (intro exI [of _ "m # ds"]) (auto simp: mark_applied_def fun_eq_iff)
    qed
  qed
qed

text \<open>What is relied on of \<^verbatim>\<open>sort.Slice\<close>: the same files, by version; files of one version in any order.\<close>

definition sorts :: "(migrationFile list \<Rightarrow> migrationFile list) \<Rightarrow> bool" where
  "sorts f \<longleftrightarrow> (\<forall>xs. mset (f xs) = mset xs \<and> sorted_wrt (\<le>) (map mf_version (f xs)))"

lemma apply_all_applied:
  assumes "\<forall>m \<in> set ms. md_versions (md_db w) (mf_version m) = Some False" and "md_faults w = []"
  shows "apply_all readFile exec ms w = (Inr (), w)"
  using assms
  by (induction ms) (auto simp: mret_def apply_migration_def migration_status_def mbind_def stmt_def)

lemma RunMigrations_run:
  assumes "sorts sortSlice" and "RunMigrations sortSlice readFile exec (Inr files) w = (r, w')"
  obtains ds where "set ds \<subseteq> set (List.map_filter migration_of files)" and "sorted_wrt (<) (map mf_version ds)"
    and "\<forall>m \<in> set ds. md_versions (md_db w) (mf_version m) = None"
    and "exec_scripts readFile exec ds (md_schema (md_db w)) = Some (md_schema (md_db w'))"
    and "md_versions (md_db w') = mark_applied ds (md_versions (md_db w))"
    and "r = Inr () \<Longrightarrow> \<forall>m \<in> set (List.map_filter migration_of files). md_versions (md_db w') (mf_version m) = Some False"
proof -
  let ?ms = "sortSlice (List.map_filter migration_of files)"
  have s: "sorted_wrt (\<le>) (map mf_version ?ms)" "set ?ms = set (List.map_filter migration_of files)"
    using assms(1) by (auto simp: sorts_def dest: mset_eq_setD)
  from assms(2) [unfolded RunMigrations_def mbind_cases] show thesis
  proof (elim disjE exE conjE)
    fix e assume "stmt ''failed to create migrations tracker table: '' (\<lambda>d. Inr ((), d)) w = (Inl e, w')" "r = Inl e"
    then show thesis using stmt_Inl by (intro that [of "[]"]) (fastforce simp: mark_applied_def)+
  next
    fix x w1 assume "stmt ''failed to create migrations tracker table: '' (\<lambda>d. Inr ((), d)) w = (Inr x, w1)"
      and "(case Inr files of Inl e \<Rightarrow> fail (''failed to read migrations directory: '' @ e)
        | Inr files \<Rightarrow> apply_all readFile exec (sortSlice (List.map_filter migration_of files))) w1 = (r, w')"
    moreover from stmt_Inr [OF this(1)] have "md_db w1 = md_db w" by auto
    ultimately show thesis
      using apply_all_cases [OF _ s(1), of readFile exec w1 r w'] s(2) by (auto intro: that)
  qed
qed

text \<open>
  Property C24. A start of the program, whatever statement fails: of the migrations of the directory
  some that were not applied before are executed, each as a whole, in ascending order and only one of each
  number, and exactly these are recorded; no number is left dirty. If it reports success, every
  number of the directory is recorded, and the next start executes nothing.
\<close>

theorem RunMigrations_once:
  assumes "sorts sortSlice" and "RunMigrations sortSlice readFile exec (Inr files) w = (r, w')"
  shows "\<exists>ds. set ds \<subseteq> set (List.map_filter migration_of files) \<and> sorted_wrt (<) (map mf_version ds)
    \<and> (\<forall>m \<in> set ds. md_versions (md_db w) (mf_version m) = None)
    \<and> exec_scripts readFile exec ds (md_schema (md_db w)) = Some (md_schema (md_db w'))
    \<and> md_versions (md_db w') = mark_applied ds (md_versions (md_db w))
    \<and> (r = Inr () \<longrightarrow> (\<forall>m \<in> set (List.map_filter migration_of files). md_versions (md_db w') (mf_version m) = Some False)
        \<and> RunMigrations sortSlice readFile exec (Inr files) (w'\<lparr>md_faults := []\<rparr>) = (Inr (), w'\<lparr>md_faults := []\<rparr>))"
proof -
  from RunMigrations_run [OF assms] obtain ds where ds: "set ds \<subseteq> set (List.map_filter migration_of files)"
    "sorted_wrt (<) (map mf_version ds)" "\<forall>m \<in> set ds. md_versions (md_db w) (mf_version m) = None"
    "exec_scripts readFile exec ds (md_schema (md_db w)) = Some (md_schema (md_db w'))"
    "md_versions (md_db w') = mark_applied ds (md_versions (md_db w))"
    "r = Inr () \<Longrightarrow> \<forall>m \<in> set (List.map_filter migration_of files). md_versions (md_db w') (mf_version m) = Some False"
    by blast
  have "set (sortSlice (List.map_filter migration_of files)) = set (List.map_filter migration_of files)"
    using assms(1) by (auto simp: sorts_def dest: mset_eq_setD)
  then have "RunMigrations sortSlice readFile exec (Inr files) (w'\<lparr>md_faults := []\<rparr>) = (Inr (), w'\<lparr>md_faults := []\<rparr>)" if "r = Inr ()"
    using apply_all_applied [of "sortSlice (List.map_filter migration_of files)" "w'\<lparr>md_faults := []\<rparr>"] ds(6) [OF that]
    by (simp add: RunMigrations_def mbind_def stmt_def)
  with ds show ?thesis by (intro exI [of _ ds]) simp
qed

text \<open>The migrations of the repository that have the number 2: one of them is executed, the other never.\<close>

definition ex_files :: "dir_entry list" where
  "ex_files = [\<lparr>de_Name = ''000002_assets_broker_id.up.sql'', de_IsDir = False\<rparr>, \<lparr>de_Name = ''000002_create_wallets.up.sql'', de_IsDir = False\<rparr>]"

definition ex_start :: "string list migration_world" where
  "ex_start = \<lparr>md_db = \<lparr>md_schema = [], md_versions = Map.empty\<rparr>, md_faults = []\<rparr>"

lemma sorts_sort_key: "sorts (sort_key mf_version)"
  by (simp add: sorts_def)

theorem RunMigrations_once_witness:
  "length (md_schema (md_db (snd (RunMigrations (sort_key mf_version) (\<lambda>n. Inr n) (\<lambda>c s. Inr (s @ [c])) (Inr ex_files) ex_start)))) \<le> 1"
proof -
  have v: "List.map_filter migration_of ex_files = [\<lparr>mf_version = 2, mf_name = ''000002_assets_broker_id.up.sql''\<rparr>,
      \<lparr>mf_version = 2, mf_name = ''000002_create_wallets.up.sql''\<rparr>]" by code_simp
  have ex: "exec_scripts (\<lambda>n. Inr n) (\<lambda>c s. Inr (s @ [c])) ms s = Some (s @ map mf_name ms)" for ms s
    by (induction ms arbitrary: s) simp_all
  let ?run = "RunMigrations (sort_key mf_version) (\<lambda>n. Inr n) (\<lambda>c s. Inr (s @ [c])) (Inr ex_files) ex_start"
  from RunMigrations_once [OF sorts_sort_key, of "\<lambda>n. Inr n" "\<lambda>c s. Inr (s @ [c])" ex_files ex_start "fst ?run" "snd ?run"]
  obtain ds where ds: "set ds \<subseteq> set (List.map_filter migration_of ex_files)" "sorted_wrt (<) (map mf_version ds)"
    "md_schema (md_db (snd ?run)) = map mf_name ds" by (auto simp: ex ex_start_def)
  have "set (map mf_version ds) \<subseteq> {2}" using ds(1) by (auto simp: v)
  moreover have "distinct (map mf_version ds)" using ds(2) by (simp add: strict_sorted_iff)
  ultimately have "length ds \<le> 1" using card_mono [of "{2}" "set (map mf_version ds)"] distinct_card [of "map mf_version ds"] by simp
  with ds(3) show ?thesis by simp
qed

end
