(* ===== verification/Config.thy ===== *)
theory Config
  imports Auth Migrations Example
begin

text \<open>
  internal/config and the start of the program (cmd/api/main.go): the configuration is read from the
  environment, a file and defaults by viper, which is an argument; \<open>viper_ok\<close> is its documented
  order of precedence. Durations are read as package \<^verbatim>\<open>time\<close> does, in nanoseconds, with its floats for
  fractions and its unsigned 64-bit sums.
\<close>

section \<open>time.ParseDuration\<close>

definition unitMap :: "(string \<times> nat) list" where
  "unitMap = [(''ns'', 1), (''us'', 1000), ([CHR 0xC2, CHR 0xB5, CHR ''s''], 1000), ([CHR 0xCE, CHR 0xBC, CHR ''s''], 1000),
     (''ms'', 1000000), (''s'', 1000000000), (''m'', 60000000000), (''h'', 3600000000000)]"

fun leadingInt :: "nat \<Rightarrow> string \<Rightarrow> (nat \<times> string) option" where
  "leadingInt x [] = Some (x, [])"
| "leadingInt x (c # s) =
     (if \<not> is_digit c then Some (x, c # s)
      else if x > 2 ^ 63 div 10 then None
      else let y = x * 10 + digit_val c in if y > 2 ^ 63 then None else leadingInt y s)"

text \<open>The digits, the power of ten they are to be divided by, and whether the rest of them is dropped.\<close>

fun leadingFraction :: "nat \<Rightarrow> rat \<Rightarrow> bool \<Rightarrow> string \<Rightarrow> nat \<times> rat \<times> string" where
  "leadingFraction x scale over [] = (x, scale, [])"
| "leadingFraction x scale over (c # s) =
     (if \<not> is_digit c then (x, scale, c # s)
      else if over \<or> x > (2 ^ 63 - 1) div 10 \<or> x * 10 + digit_val c > 2 ^ 63 then leadingFraction x scale True s
      else leadingFraction (x * 10 + digit_val c) (rnd 53 (scale * 10)) False s)"

text \<open>One number with its unit: the nanoseconds, and what follows.\<close>

definition parse_unit :: "nat \<Rightarrow> nat \<Rightarrow> rat \<Rightarrow> string \<Rightarrow> (nat \<times> string) option" where
  "parse_unit v f scale s =
     (let u = takeWhile (\<lambda>c. \<not> (c = CHR ''.'' \<or> is_digit c)) s in
      case map_of unitMap u of
        None \<Rightarrow> None
      | Some unit \<Rightarrow>
          if v > 2 ^ 63 div unit then None
          else let n = v * unit + (if f > 0 then nat \<lfloor>rnd 53 (rnd 53 (of_nat f) * rnd 53 (of_nat unit / scale))\<rfloor> else 0) in
            if f > 0 \<and> n > 2 ^ 63 then None else Some (n, drop (length u) s))"

definition parse_term :: "string \<Rightarrow> (nat \<times> string) option" where
  "parse_term s =
     (case leadingInt 0 s of
        None \<Rightarrow> None
      | Some (v, s1) \<Rightarrow>
          (let pre = (length s1 \<noteq> length s) in
           case s1 of
             c # s2 \<Rightarrow>
               if c = CHR ''.'' then
                 (case leadingFraction 0 1 False s2 of (f, scale, s3) \<Rightarrow>
                    if \<not> pre \<and> length s3 = length s2 then None else parse_unit v f scale s3)
               else if \<not> pre then None else parse_unit v 0 1 s1
           | [] \<Rightarrow> if \<not> pre then None else parse_unit v 0 1 s1))"

lemma leadingInt_length: "leadingInt x s = Some (v, s') \<Longrightarrow> length s' \<le> length s"
  by (induction x s rule: leadingInt.induct) (auto simp: Let_def split: if_splits)

lemma leadingFraction_length: "leadingFraction x sc b s = (f, sc', s') \<Longrightarrow> length s' \<le> length s"
  by (induction x sc b s rule: leadingFraction.induct) (auto split: if_splits)

lemma parse_unit_length: "parse_unit v f sc s = Some (n, s') \<Longrightarrow> length s' < length s"
  by (cases s) (auto simp: parse_unit_def unitMap_def Let_def split: option.splits if_splits)

lemma parse_term_length: "parse_term s = Some (n, s') \<Longrightarrow> length s' < length s"
  by (auto simp: parse_term_def Let_def split: option.splits prod.splits list.splits if_splits
      dest!: leadingInt_length leadingFraction_length parse_unit_length)

function parse_terms :: "nat \<Rightarrow> string \<Rightarrow> nat option" where
  "parse_terms d s =
     (if s = [] then Some d
      else case parse_term s of
        None \<Rightarrow> None
      | Some (v, s') \<Rightarrow> let d' = (d + v) mod 2 ^ 64 in if d' > 2 ^ 63 then None else parse_terms d' s')"
  by pat_completeness auto

termination
  by (relation "measure (\<lambda>(d, s). length s)") (auto dest: parse_term_length)

declare parse_terms.simps [simp del]

definition ParseDuration :: "string \<Rightarrow> int option" where
  "ParseDuration text =
     (let neg = (case text of c # _ \<Rightarrow> c = CHR ''-'' | [] \<Rightarrow> False);
          s = (case text of c # r \<Rightarrow> if c = CHR ''-'' \<or> c = CHR ''+'' then r else text | [] \<Rightarrow> [])
      in if s = ''0'' then Some 0
         else if s = [] then None
         else case parse_terms 0 s of
           None \<Rightarrow> None
         | Some d \<Rightarrow> if neg then Some (- int d) else if d > 2 ^ 63 - 1 then None else Some (int d))"

text \<open>A duration written as whole numbers, each with its unit, is read as their sum.\<close>

fun duration_text :: "(nat \<times> string) list \<Rightarrow> string" where
  "duration_text [] = []"
| "duration_text ((n, u) # ts) = show_nat n @ u @ duration_text ts"

fun duration_sum :: "(nat \<times> string) list \<Rightarrow> nat" where
  "duration_sum [] = 0"
| "duration_sum ((n, u) # ts) = n * the (map_of unitMap u) + duration_sum ts"

definition starts_number :: "string \<Rightarrow> bool" where
  "starts_number s \<longleftrightarrow> (case s of [] \<Rightarrow> True | c # _ \<Rightarrow> is_digit c)"

lemma duration_text_starts: "starts_number (duration_text ts)"
proof (cases ts)
  case (Cons t us)
  obtain n u where t: "t = (n, u)" by fastforce
  obtain c cs where "show_nat n = c # cs" by (cases "show_nat n") auto
  with show_nat_digits [of n] show ?thesis by (auto simp: Cons t starts_number_def)
qed (simp add: starts_number_def)

lemma unitMap_shape:
  assumes "map_of unitMap u = Some k"
  shows "0 < k" and "u \<noteq> []" and "\<forall>c \<in> set u. \<not> (c = CHR ''.'' \<or> is_digit c)"
  using assms by (auto simp: unitMap_def is_digit_def split: if_splits)

lemma digits_val_ge: "acc \<le> digits_val acc ds"
  using digits_val_acc [of acc ds] by (simp add: trans_le_add1)

lemma leadingInt_digits:
  assumes "\<forall>c \<in> set ds. is_digit c" and "digits_val x ds \<le> 2 ^ 63" and "case s of [] \<Rightarrow> True | c # _ \<Rightarrow> \<not> is_digit c"
  shows "leadingInt x (ds @ s) = Some (digits_val x ds, s)"
  using assms
proof (induction ds arbitrary: x)
  case Nil
  then show ?case by (cases s) auto
next
  case (Cons d ds)
  have "x * 10 + digit_val d \<le> digits_val x (d # ds)" using digits_val_ge [of "x * 10 + digit_val d" ds] by simp
  with Cons.prems(2) have "x * 10 + digit_val d \<le> 2 ^ 63" by simp
  then have "\<not> x > 2 ^ 63 div 10" "\<not> x * 10 + digit_val d > 2 ^ 63" by simp_all
  with Cons show ?case by (simp add: Let_def)
qed

lemma parse_term_whole:
  assumes u: "map_of unitMap u = Some k" and n: "n * k \<le> 2 ^ 63" and s: "starts_number s"
  shows "parse_term (show_nat n @ u @ s) = Some (n * k, s)"
proof -
  from unitMap_shape [OF u] obtain c cs where c: "u = c # cs" "\<not> is_digit c" "c \<noteq> CHR ''.''" and k: "0 < k" by (cases u) auto
  have "n \<le> n * k" using k by simp
  with n have "n \<le> 2 ^ 63" by linarith
  then have "leadingInt 0 (show_nat n @ u @ s) = Some (n, u @ s)"
    using leadingInt_digits [of "show_nat n" 0 "u @ s"] show_nat_digits [of n] c by simp
  moreover have "takeWhile (\<lambda>c. \<not> (c = CHR ''.'' \<or> is_digit c)) (u @ s) = u"
    using unitMap_shape(3) [OF u] s by (cases s) (auto simp: takeWhile_append starts_number_def takeWhile_eq_all_conv)
  moreover have "n \<le> 2 ^ 63 div k" using n k by (simp add: less_eq_div_iff_mult_less_eq)
  ultimately show ?thesis using u c by (simp add: parse_term_def parse_unit_def Let_def)
qed

lemma parse_terms_whole:
  assumes "\<forall>(n, u) \<in> set ts. u \<in> dom (map_of unitMap)" and "d + duration_sum ts \<le> 2 ^ 63"
  shows "parse_terms d (duration_text ts) = Some (d + duration_sum ts)"
  using assms
proof (induction ts arbitrary: d)
  case (Cons t ts)
  obtain n u where t: "t = (n, u)" by fastforce
  from Cons.prems(1) obtain k where k: "map_of unitMap u = Some k" by (auto simp: t)
  then have "n * k \<le> 2 ^ 63" "d + n * k \<le> 2 ^ 63" using Cons.prems(2) by (simp_all add: t)
  with parse_term_whole [OF k _ duration_text_starts, of n ts] Cons k show ?case
    by (simp add: t parse_terms.simps [of d] Let_def add.assoc)
qed (simp add: parse_terms.simps)

text \<open>
  A duration in a configuration is read as what it says: whole numbers with units, one
  after the other, give the sum in nanoseconds, with a sign in front the negative of it. So
  \<^verbatim>\<open>1h30m\<close> is an hour and a half, and nothing is lost up to the 292 years of an \<^verbatim>\<open>int64\<close>.
\<close>

theorem ParseDuration_sum:
  assumes "ts \<noteq> []" and "\<forall>(n, u) \<in> set ts. u \<in> dom (map_of unitMap)" and "duration_sum ts < 2 ^ 63"
  shows "ParseDuration (duration_text ts) = Some (int (duration_sum ts))
    \<and> ParseDuration (CHR ''-'' # duration_text ts) = Some (- int (duration_sum ts))"
proof -
  obtain n u us where ts: "ts = (n, u) # us" using assms(1) by (cases ts) auto
  obtain c cs where c: "show_nat n = c # cs" by (cases "show_nat n") auto
  then have d: "is_digit c" using show_nat_digits [of n] by simp
  have "u \<noteq> []" using assms(2) unitMap_shape(2) by (auto simp: ts)
  then have "duration_text ts \<noteq> ''0''" by (auto simp: ts c)
  moreover have "parse_terms 0 (duration_text ts) = Some (duration_sum ts)"
    using parse_terms_whole [OF assms(2), of 0] assms(3) by simp
  moreover have "\<exists>r. duration_text ts = c # r" by (simp add: ts c)
  ultimately show ?thesis using is_digit_not_special [OF d] assms(3) by (auto simp: ParseDuration_def Let_def)
qed

theorem ParseDuration_sum_witness:
  "ParseDuration (duration_text [(1, ''h''), (30, ''m'')]) = Some 5400000000000 \<and> duration_text [(1, ''h''), (30, ''m'')] = ''1h30m''"
proof -
  have "duration_text [(1, ''h''), (30, ''m'')] = ''1h30m''" by code_simp
  then show ?thesis using ParseDuration_sum [of "[(1, ''h''), (30, ''m'')]"] by (simp add: unitMap_def)
qed

section \<open>internal/config\<close>

record AppConfig =
  app_Env :: string
  app_Port :: string

record DBConfig =
  db_Host :: string
  db_Port :: string
  db_User :: string
  db_Password :: string
  db_Name :: string
  db_SSLMode :: string

record RedisConfig =
  redis_Host :: string
  redis_Port :: string
  redis_Password :: string

record JWTConfig =
  cfg_Secret :: string
  cfg_AccessExpiry :: int
  cfg_RefreshExpiry :: int

record Config =
  cfg_App :: AppConfig
  cfg_Database :: DBConfig
  cfg_Redis :: RedisConfig
  cfg_Brokers :: string
  cfg_JWT :: JWTConfig

text \<open>
  What the program finds where it is started: which files are there, what reading the file gives (the
  chosen one, or the library's own search if none was chosen), the environment, and the library's
  choice between environment, file and defaults.
\<close>

datatype config_file = FileValues "string \<rightharpoonup> string" | ConfigFileNotFound | ReadFailed string

record viper =
  vp_Stat :: "string \<Rightarrow> bool"
  vp_ReadInConfig :: "string option \<Rightarrow> config_file"
  vp_Env :: "string \<rightharpoonup> string"
  vp_GetString :: "(string \<times> string) list \<Rightarrow> (string \<rightharpoonup> string) \<Rightarrow> (string \<rightharpoonup> string) \<Rightarrow> string \<Rightarrow> string"

datatype config_error = FailedToReadFile string | InvalidAccessExpiry string | InvalidRefreshExpiry string

fun find_config :: "(string \<Rightarrow> bool) \<Rightarrow> nat \<Rightarrow> string \<Rightarrow> string option" where
  "find_config stat 0 f = None"
| "find_config stat (Suc i) f = (if stat f then Some f else find_config stat i (''../'' @ f))"

definition config_defaults :: "(string \<times> string) list" where
  "config_defaults = [(''APP_ENV'', ''development''), (''PORT'', ''8080''), (''DB_HOST'', ''localhost''), (''DB_PORT'', ''5432''),
     (''DB_USER'', ''postgres''), (''DB_PASS'', ''postgrespassword''), (''DB_NAME'', ''tradecore''), (''DB_SSLMODE'', ''disable''),
     (''REDIS_HOST'', ''localhost''), (''REDIS_PORT'', ''6379''), (''KAFKA_BROKERS'', ''localhost:9092''),
     (''JWT_SECRET'', ''supersecretjwtkeyforportfolio''), (''JWT_ACCESS_EXPIRY'', ''15m''), (''JWT_REFRESH_EXPIRY'', ''168h'')]"

definition config_values :: "(string \<Rightarrow> string) \<Rightarrow> config_error + Config" where
  "config_values get =
     (case ParseDuration (get ''JWT_ACCESS_EXPIRY'') of
        None \<Rightarrow> Inl (InvalidAccessExpiry (get ''JWT_ACCESS_EXPIRY''))
      | Some accessDuration \<Rightarrow>
          (case ParseDuration (get ''JWT_REFRESH_EXPIRY'') of
             None \<Rightarrow> Inl (InvalidRefreshExpiry (get ''JWT_REFRESH_EXPIRY''))
           | Some refreshDuration \<Rightarrow> Inr \<lparr>
               cfg_App = \<lparr>app_Env = get ''APP_ENV'', app_Port = get ''PORT''\<rparr>,
               cfg_Database = \<lparr>db_Host = get ''DB_HOST'', db_Port = get ''DB_PORT'', db_User = get ''DB_USER'',
                 db_Password = get ''DB_PASS'', db_Name = get ''DB_NAME'', db_SSLMode = get ''DB_SSLMODE''\<rparr>,
               cfg_Redis = \<lparr>redis_Host = get ''REDIS_HOST'', redis_Port = get ''REDIS_PORT'', redis_Password = get ''REDIS_PASS''\<rparr>,
               cfg_Brokers = get ''KAFKA_BROKERS'',
               cfg_JWT = \<lparr>cfg_Secret = get ''JWT_SECRET'', cfg_AccessExpiry = accessDuration, cfg_RefreshExpiry = refreshDuration\<rparr>\<rparr>))"

definition LoadConfig :: "viper \<Rightarrow> config_error + Config" where
  "LoadConfig v =
     (case vp_ReadInConfig v (find_config (vp_Stat v) 5 ''.env'') of
        FileValues vs \<Rightarrow> config_values (vp_GetString v config_defaults vs (vp_Env v))
      | ConfigFileNotFound \<Rightarrow> config_values (vp_GetString v config_defaults Map.empty (vp_Env v))
      | ReadFailed e \<Rightarrow> Inl (FailedToReadFile (''failed to read .env file: '' @ e)))"

text \<open>
  What is relied on: \<^verbatim>\<open>AutomaticEnv\<close> puts the environment before the file and the file before the
  defaults; a variable set to the empty text counts as not set; a key that is nowhere is empty.
\<close>

definition setting :: "(string \<times> string) list \<Rightarrow> (string \<rightharpoonup> string) \<Rightarrow> (string \<rightharpoonup> string) \<Rightarrow> string \<Rightarrow> string" where
  "setting defaults file env k =
     (case env k of
        Some (c # cs) \<Rightarrow> c # cs
      | _ \<Rightarrow> (case file k of Some s \<Rightarrow> s | None \<Rightarrow> (case map_of defaults k of Some s \<Rightarrow> s | None \<Rightarrow> [])))"

definition viper_ok :: "viper \<Rightarrow> bool" where
  "viper_ok v \<longleftrightarrow> (\<forall>defaults file env k. vp_GetString v defaults file env k = setting defaults file env k)"

section \<open>The start of the program\<close>

fun split_at :: "char \<Rightarrow> string \<Rightarrow> string list" where
  "split_at sep [] = [[]]"
| "split_at sep (c # s) = (if c = sep then [] # split_at sep s else (case split_at sep s of p # ps \<Rightarrow> (c # p) # ps | [] \<Rightarrow> [[c]]))"

definition dsn :: "DBConfig \<Rightarrow> string" where
  "dsn d = ''host='' @ db_Host d @ '' port='' @ db_Port d @ '' user='' @ db_User d @ '' password='' @ db_Password d
     @ '' dbname='' @ db_Name d @ '' sslmode='' @ db_SSLMode d"

text \<open>The driver: what connecting to an address and a ping after it give.\<close>

definition ConnectDB :: "(string \<Rightarrow> string option) \<Rightarrow> string option \<Rightarrow> Config \<Rightarrow> string + unit" where
  "ConnectDB connect dbPing cfg =
     (case connect (dsn (cfg_Database cfg)) of
        Some e \<Rightarrow> Inl (''database connection failed: '' @ e)
      | None \<Rightarrow> (case dbPing of Some e \<Rightarrow> Inl (''database ping failed: '' @ e) | None \<Rightarrow> Inr ()))"

definition redis_addr :: "Config \<Rightarrow> string" where
  "redis_addr cfg = redis_Host (cfg_Redis cfg) @ '':'' @ redis_Port (cfg_Redis cfg)"

text \<open>The service of tokens counts in microseconds.\<close>

definition NewJWTService :: "string \<Rightarrow> int \<Rightarrow> int \<Rightarrow> JWTService" where
  "NewJWTService secret access refresh = \<lparr>jwt_secret = secret, accessExpiry = access div 1000, refreshExpiry = refresh div 1000\<rparr>"

record program =
  pr_release :: bool
  pr_addr :: string
  pr_brokers :: "string list"
  pr_redis :: "string \<times> string"
  pr_jwt :: JWTService
  pr_queue :: nat

datatype start_error = LoadFailed config_error | ConnectFailed string | MigrationFailed string

definition wire :: "Config \<Rightarrow> program" where
  "wire cfg = \<lparr>pr_release = (app_Env (cfg_App cfg) = ''production''), pr_addr = '':'' @ app_Port (cfg_App cfg),
     pr_brokers = split_at (CHR '','') (cfg_Brokers cfg), pr_redis = (redis_addr cfg, redis_Password (cfg_Redis cfg)),
     pr_jwt = NewJWTService (cfg_Secret (cfg_JWT cfg)) (cfg_AccessExpiry (cfg_JWT cfg)) (cfg_RefreshExpiry (cfg_JWT cfg)), pr_queue = 1024\<rparr>"

text \<open>\<^verbatim>\<open>main\<close> up to \<^verbatim>\<open>ListenAndServe\<close>: a start that fails ends the process (\<^verbatim>\<open>log.Fatal\<close>).\<close>

definition main :: "viper \<Rightarrow> (string \<Rightarrow> string option) \<Rightarrow> string option \<Rightarrow> ('a, unit) mio \<Rightarrow> 'a migration_world \<Rightarrow> (start_error + program) \<times> 'a migration_world" where
  "main v connect dbPing migrations w =
     (case LoadConfig v of
        Inl e \<Rightarrow> (Inl (LoadFailed e), w)
      | Inr cfg \<Rightarrow>
          (case ConnectDB connect dbPing cfg of
             Inl e \<Rightarrow> (Inl (ConnectFailed e), w)
           | Inr _ \<Rightarrow>
               (case migrations w of
                  (Inl e, w1) \<Rightarrow> (Inl (MigrationFailed e), w1)
                | (Inr _, w1) \<Rightarrow> (Inr (wire cfg), w1))))"

definition config_get :: "viper \<Rightarrow> string \<Rightarrow> string" where
  "config_get v = setting config_defaults
     (case vp_ReadInConfig v (find_config (vp_Stat v) 5 ''.env'') of FileValues vs \<Rightarrow> vs | _ \<Rightarrow> Map.empty) (vp_Env v)"

lemma LoadConfig_values:
  assumes "viper_ok v" and "LoadConfig v = Inr cfg"
  shows "config_values (config_get v) = Inr cfg"
proof -
  have "vp_GetString v d f e = setting d f e" for d f e using assms(1) by (auto simp: viper_ok_def)
  with assms(2) show ?thesis by (auto simp: LoadConfig_def config_get_def split: config_file.splits)
qed

lemma config_values_Inr:
  assumes "config_values get = Inr cfg"
  shows "app_Env (cfg_App cfg) = get ''APP_ENV''" and "app_Port (cfg_App cfg) = get ''PORT''"
    and "cfg_Secret (cfg_JWT cfg) = get ''JWT_SECRET''"
    and "ParseDuration (get ''JWT_ACCESS_EXPIRY'') = Some (cfg_AccessExpiry (cfg_JWT cfg))"
    and "ParseDuration (get ''JWT_REFRESH_EXPIRY'') = Some (cfg_RefreshExpiry (cfg_JWT cfg))"
    and "cfg_Database cfg = \<lparr>db_Host = get ''DB_HOST'', db_Port = get ''DB_PORT'', db_User = get ''DB_USER'',
                 db_Password = get ''DB_PASS'', db_Name = get ''DB_NAME'', db_SSLMode = get ''DB_SSLMODE''\<rparr>"
  using assms by (auto simp: config_values_def split: option.splits)

lemma main_cases:
  assumes "main v connect dbPing migrations w = (r, w')"
  shows "(\<exists>cfg. LoadConfig v = Inr cfg \<and> connect (dsn (cfg_Database cfg)) = None \<and> dbPing = None
           \<and> (\<exists>x. migrations w = (x, w') \<and> (x = Inr () \<and> r = Inr (wire cfg) \<or> (\<exists>e. x = Inl e \<and> r = Inl (MigrationFailed e)))))
    \<or> w' = w \<and> (\<exists>e. r = Inl (LoadFailed e) \<or> (\<exists>e. r = Inl (ConnectFailed e)))"
  using assms by (auto simp: main_def ConnectDB_def split: sum.splits option.splits prod.splits)

text \<open>
  Property C37. The server listens only when the configuration could be read, the database of that
  configuration answers and every migration of the directory is recorded as applied; a start that
  fails before the migrations leaves the database as it was. The address, the secret and the lifetimes of
  the tokens are those of the environment, or else of the file, or else the defaults.
\<close>

theorem main_listens:
  assumes "viper_ok v" and "sorts sortSlice"
    and "main v connect dbPing (RunMigrations sortSlice readFile exec (Inr files)) w = (r, w')"
  shows "(\<exists>e. r = Inl (MigrationFailed e)) \<or> w' = w \<and> (\<exists>e. r = Inl e)
    \<or> (\<exists>p access refresh. r = Inr p \<and> dbPing = None
        \<and> connect (dsn \<lparr>db_Host = config_get v ''DB_HOST'', db_Port = config_get v ''DB_PORT'', db_User = config_get v ''DB_USER'',
            db_Password = config_get v ''DB_PASS'', db_Name = config_get v ''DB_NAME'', db_SSLMode = config_get v ''DB_SSLMODE''\<rparr>) = None
        \<and> (\<forall>m \<in> set (List.map_filter migration_of files). md_versions (md_db w') (mf_version m) = Some False)
        \<and> pr_addr p = '':'' @ config_get v ''PORT'' \<and> (pr_release p \<longleftrightarrow> config_get v ''APP_ENV'' = ''production'')
        \<and> ParseDuration (config_get v ''JWT_ACCESS_EXPIRY'') = Some access \<and> ParseDuration (config_get v ''JWT_REFRESH_EXPIRY'') = Some refresh
        \<and> pr_jwt p = NewJWTService (config_get v ''JWT_SECRET'') access refresh)"
  using main_cases [OF assms(3)]
proof (elim disjE exE conjE)
  fix cfg x assume l: "LoadConfig v = Inr cfg" and c: "connect (dsn (cfg_Database cfg)) = None" "dbPing = None"
    and m: "RunMigrations sortSlice readFile exec (Inr files) w = (x, w')" and x: "x = Inr ()" "r = Inr (wire cfg)"
  from RunMigrations_run [OF assms(2) m] x(1)
  have "\<forall>m \<in> set (List.map_filter migration_of files). md_versions (md_db w') (mf_version m) = Some False" by metis
  then show ?thesis using config_values_Inr [OF LoadConfig_values [OF assms(1) l]] c x(2) by (simp add: wire_def)
qed auto

definition ex_viper :: "(string \<rightharpoonup> string) \<Rightarrow> viper" where
  "ex_viper env = \<lparr>vp_Stat = (\<lambda>f. False), vp_ReadInConfig = (\<lambda>f. ConfigFileNotFound), vp_Env = env, vp_GetString = setting\<rparr>"

lemma ex_viper_ok [simp]: "viper_ok (ex_viper env)"
  by (simp add: viper_ok_def ex_viper_def)

definition ex_env :: "string \<rightharpoonup> string" where
  "ex_env = [''APP_ENV'' \<mapsto> ''production'', ''PORT'' \<mapsto> ''9000'', ''JWT_ACCESS_EXPIRY'' \<mapsto> ''1h30m'', ''DB_USER'' \<mapsto> []]"

definition ex_migrations :: "(string list, unit) mio" where
  "ex_migrations = RunMigrations (sort_key mf_version) (\<lambda>n. Inr n) (\<lambda>c s. Inr (s @ [c])) (Inr ex_files)"

lemma ex_main: "fst (main (ex_viper ex_env) (\<lambda>d. None) None ex_migrations ex_start)
  = Inr \<lparr>pr_release = True, pr_addr = '':9000'', pr_brokers = [''localhost:9092''], pr_redis = (''localhost:6379'', []),
      pr_jwt = \<lparr>jwt_secret = ''supersecretjwtkeyforportfolio'', accessExpiry = 5400000000, refreshExpiry = 604800000000\<rparr>, pr_queue = 1024\<rparr>"
  by code_simp

theorem main_listens_witness:
  "\<exists>p. pr_addr p = '':9000'' \<and> pr_jwt p = NewJWTService ''supersecretjwtkeyforportfolio'' 5400000000000 604800000000000
    \<and> fst (main (ex_viper ex_env) (\<lambda>d. None) None ex_migrations ex_start) = Inr p"
proof -
  have "config_get (ex_viper ex_env) ''PORT'' = ''9000''" "config_get (ex_viper ex_env) ''JWT_SECRET'' = ''supersecretjwtkeyforportfolio''"
    "ParseDuration (config_get (ex_viper ex_env) ''JWT_ACCESS_EXPIRY'') = Some 5400000000000"
    "ParseDuration (config_get (ex_viper ex_env) ''JWT_REFRESH_EXPIRY'') = Some 604800000000000"
    by code_simp+
  with main_listens [OF ex_viper_ok sorts_sort_key, of ex_env "\<lambda>d. None" None "\<lambda>n. Inr n" "\<lambda>c s. Inr (s @ [c])" ex_files ex_start
      "fst (main (ex_viper ex_env) (\<lambda>d. None) None ex_migrations ex_start)", folded ex_migrations_def, OF prod.collapse [symmetric]]
    ex_main show ?thesis by auto
qed

text \<open>
  Property C38. The secret that signs the tokens has a default in the source, and nothing asks for another:
  started without \<^verbatim>\<open>JWT_SECRET\<close>, in production too, the server accepts every unexpired token that anyone
  has signed with the text of the repository, with any user and any role in it (the times of the claims
  are kept to the precision of the library).
\<close>

theorem default_secret_forges:
  assumes "viper_ok v" and "jwt_ok L" and "main v connect dbPing migrations w = (Inr p, w')"
    and "vp_Env v ''JWT_SECRET'' \<in> {None, Some []}"
    and "\<And>f vs. vp_ReadInConfig v f = FileValues vs \<Longrightarrow> vs ''JWT_SECRET'' = None"
    and "SignedString L ''supersecretjwtkeyforportfolio'' c = Inr tok" and "now u < NewNumericDate L (c_ExpiresAt c)"
  shows "ParseToken L (pr_jwt p) tok u =
    (Inr (c\<lparr>c_IssuedAt := NewNumericDate L (c_IssuedAt c), c_ExpiresAt := NewNumericDate L (c_ExpiresAt c)\<rparr>), u)"
proof -
  from main_cases [OF assms(3)] obtain cfg where l: "LoadConfig v = Inr cfg" "p = wire cfg" by auto
  have d: "map_of config_defaults ''JWT_SECRET'' = Some ''supersecretjwtkeyforportfolio''" by (simp add: config_defaults_def)
  define vals where "vals = (case vp_ReadInConfig v (find_config (vp_Stat v) 5 ''.env'') of FileValues vs \<Rightarrow> vs | _ \<Rightarrow> Map.empty)"
  have "vals ''JWT_SECRET'' = None" unfolding vals_def
    by (cases "vp_ReadInConfig v (find_config (vp_Stat v) 5 ''.env'')") (simp_all add: assms(5))
  moreover have "config_get v = setting config_defaults vals (vp_Env v)" by (simp only: config_get_def vals_def)
  ultimately have "config_get v ''JWT_SECRET'' = ''supersecretjwtkeyforportfolio''" using assms(4) d by (elim insertE) (simp_all add: setting_def)
  with config_values_Inr(3) [OF LoadConfig_values [OF assms(1) l(1)]]
  have "jwt_secret (pr_jwt p) = ''supersecretjwtkeyforportfolio''" by (simp add: l(2) wire_def NewJWTService_def)
  then have "token_key (pr_jwt p) ''HS256'' = Inr ''supersecretjwtkeyforportfolio''" by (simp add: token_key_def is_HMAC_def)
  with assms(6,7) have "ParseWithClaims L (token_key (pr_jwt p)) (now u) tok = Inr (kept_claims L c, True)"
    using conjunct1 [OF conjunct2 [OF assms(2) [unfolded jwt_ok_def]]] by blast
  then show ?thesis by (simp add: kept_claims_def ParseToken_def bindE_def time_now_def ret_def)
qed

definition ex_forged :: Claims where
  "ex_forged = \<lparr>c_UserID = 1, c_Role = ''ADMIN'', c_TokenType = TokenTypeAccess, c_IssuedAt = 0, c_ExpiresAt = 1000, c_Issuer = []\<rparr>"

theorem default_secret_forges_witness:
  "\<exists>p :: program. pr_release p \<and> ParseToken ex_jwt (pr_jwt p) (encode_token ''supersecretjwtkeyforportfolio'' ex_forged) (ex_world\<lparr>now := 5\<rparr>)
    = (Inr ex_forged, ex_world\<lparr>now := 5\<rparr>)"
proof -
  obtain p w' where m: "main (ex_viper ex_env) (\<lambda>d. None) None ex_migrations ex_start = (Inr p, w')" "pr_release p"
    using ex_main by (cases "main (ex_viper ex_env) (\<lambda>d. None) None ex_migrations ex_start") auto
  have "ParseToken ex_jwt (pr_jwt p) (encode_token ''supersecretjwtkeyforportfolio'' ex_forged) (ex_world\<lparr>now := 5\<rparr>)
      = (Inr ex_forged, ex_world\<lparr>now := 5\<rparr>)"
    using default_secret_forges [OF ex_viper_ok ex_jwt_ok(1) m(1), of ex_forged]
    by (simp add: ex_viper_def ex_env_def ex_jwt_def ex_forged_def)
  with m(2) show ?thesis by blast
qed

end
