(* ===== verification/Schedule.thy ===== *)
theory Schedule
  imports Cron "HOL-Library.Multiset"
begin

text \<open>
  internal/cronjobs/scheduler.go: the jobs and the times at which the cron library starts them. When an
  expression is due is an argument; \<open>cron_ok\<close> is the meaning that standard expressions have. Jobs that are due
  in the same minute run in any order; a panic in one of them ends the process.
\<close>

datatype job = ExpireJob | ReconcileJob | SettlementJob | HealthJob

definition schedule :: "(string \<times> job) list" where
  "schedule = [(''0 * * * *'', ExpireJob), (''0 0 * * *'', ReconcileJob), (''0 1 * * *'', SettlementJob), (''*/5 * * * *'', HealthJob)]"

text \<open>The health check only logs what its pings answer.\<close>

definition run_job :: "job \<Rightarrow> unit io" where
  "run_job j = (case j of
     ExpireJob \<Rightarrow> bindE ExpireStaleOrders (\<lambda>_. ret ())
   | ReconcileJob \<Rightarrow> bindE ReconcileWallets (\<lambda>_. ret ())
   | SettlementJob \<Rightarrow> bindE VerifyTradeSettlements (\<lambda>_. ret ())
   | HealthJob \<Rightarrow> ret ())"

fun run_jobs :: "job list \<Rightarrow> unit io" where
  "run_jobs [] = ret ()"
| "run_jobs (j # js) = bindE (run_job j) (\<lambda>_. run_jobs js)"

text \<open>The jobs of a minute of the day.\<close>

definition due_jobs :: "(string \<Rightarrow> int \<Rightarrow> bool) \<Rightarrow> int \<Rightarrow> job list" where
  "due_jobs due m = map snd (filter (\<lambda>(spec, j). due spec m) schedule)"

definition cron_ok :: "(string \<Rightarrow> int \<Rightarrow> bool) \<Rightarrow> bool" where
  "cron_ok due \<longleftrightarrow> (\<forall>m. 0 \<le> m \<and> m < 1440 \<longrightarrow>
     (due ''0 * * * *'' m \<longleftrightarrow> m mod 60 = 0) \<and> (due ''0 0 * * *'' m \<longleftrightarrow> m = 0) \<and> (due ''0 1 * * *'' m \<longleftrightarrow> m = 60)
     \<and> (due ''*/5 * * * *'' m \<longleftrightarrow> m mod 5 = 0))"

section \<open>Jobs that only look\<close>

definition steady :: "'a io \<Rightarrow> bool" where
  "steady m \<longleftrightarrow> (\<forall>w r w'. m w = (r, w') \<longrightarrow> db w' = db w \<and> now w' = now w \<and> (faults w = [] \<longrightarrow> faults w' = []))"

lemma steadyD: "steady m \<Longrightarrow> m w = (r, w') \<Longrightarrow> db w' = db w \<and> now w' = now w \<and> (faults w = [] \<longrightarrow> faults w' = [])"
  by (simp add: steady_def)

lemma steady_bindE: "steady m \<Longrightarrow> (\<And>x. steady (f x)) \<Longrightarrow> steady (bindE m f)"
  unfolding steady_def bindE_def by (force split: prod.splits sum.splits)

lemma steady_attempt: "steady m \<Longrightarrow> steady (attempt m)"
  unfolding steady_def attempt_def by (force split: prod.splits sum.splits if_splits)

lemma steady_sql: "steady m \<Longrightarrow> steady (sql m)"
  unfolding steady_def sql_def by (force split: list.splits option.splits)

lemma steady_basic [simp]: "steady (ret x)" "steady (raise e)" "steady get_db"
  by (simp_all add: steady_def ret_def raise_def get_db_def)

lemma steady_partial [simp]: "steady (orPanic s x)" "steady (to_numeric t)"
  by (auto simp: steady_def orPanic_def to_numeric_def ret_def raise_def split: option.splits)

lemmas steady_rules = steady_bindE steady_attempt steady_sql steady_basic steady_partial

lemma steady_reconcile: "steady (reconcile_loop n ws)"
  by (induction ws arbitrary: n) (auto intro!: steady_rules simp: reconcile_wallet_def sum_transactions_def split: option.split sum.split)

lemma steady_verify: "steady (verify_loop n ts)"
  by (induction ts arbitrary: n) (auto intro!: steady_rules simp: verify_trade_def verify_side_def transaction_exists_def)

lemma steady_jobs: "j \<noteq> ExpireJob \<Longrightarrow> steady (run_job j)"
  by (cases j) (auto intro!: steady_rules steady_reconcile steady_verify
      simp: run_job_def ReconcileWallets_def VerifyTradeSettlements_def split: sum.split)

section \<open>The jobs of a minute\<close>

lemma expire_idem: "expire t (expire t d) = expire t d"
  by (simp add: expire_def upd_where_def stale_def const_defs)

lemma run_jobs_db:
  assumes "run_jobs js w = (Inr (), w')" and "faults w = []"
  shows "db w' = (if ExpireJob \<in> set js then expire (now w) (db w) else db w) \<and> now w' = now w \<and> faults w' = []"
  using assms
proof (induction js arbitrary: w)
  case (Cons j js)
  from Cons.prems(1) obtain w1 where j: "run_job j w = (Inr (), w1)" and js: "run_jobs js w1 = (Inr (), w')" by (auto simp: bindE_Inr)
  show ?case
  proof (cases "j = ExpireJob")
    case True
    then have "w1 = w\<lparr>db := expire (now w) (db w)\<rparr>" using j ExpireStaleOrders_run [OF Cons.prems(2)] by (simp add: run_job_def bindE_def ret_def)
    with Cons.IH [OF js] Cons.prems(2) True show ?thesis by (simp add: expire_idem)
  next
    case False
    with steadyD [OF steady_jobs j] Cons.IH [OF js] Cons.prems(2) show ?thesis by auto
  qed
qed (simp add: ret_def)

text \<open>
  The schedule, in any order of the jobs of a minute and when no statement fails: after the full
  hour no order is open that is older than a day, and nothing but such orders has changed; at any other minute
  the jobs change nothing.
\<close>

theorem cron_keeps_orders_fresh:
  assumes "cron_ok due" and "0 \<le> m" and "m < 1440" and "mset js = mset (due_jobs due m)" and "faults w = []"
    and "run_jobs js w = (Inr (), w')"
  shows "db w' = (if m mod 60 = 0 then expire (now w) (db w) else db w)
    \<and> (m mod 60 = 0 \<longrightarrow> (\<forall>r \<in> set (orders (db w')). order_open r \<longrightarrow> now w - day \<le> o_CreatedAt r))"
proof -
  have "set js = set (due_jobs due m)" using assms(4) by (metis set_mset_mset)
  then have "ExpireJob \<in> set js \<longleftrightarrow> m mod 60 = 0"
    using assms(1-3) by (auto simp: due_jobs_def schedule_def cron_ok_def)
  moreover have "\<forall>r \<in> set (orders (expire t d)). order_open r \<longrightarrow> t - day \<le> o_CreatedAt r" for t d
    by (auto simp: expire_def set_upd_where stale_open) (auto simp: order_open_def const_defs)
  ultimately show ?thesis using run_jobs_db [OF assms(6,5)] by simp
qed

definition ex_due :: "string \<Rightarrow> int \<Rightarrow> bool" where
  "ex_due spec m \<longleftrightarrow> (spec = ''0 * * * *'' \<and> m mod 60 = 0) \<or> (spec = ''0 0 * * *'' \<and> m = 0) \<or> (spec = ''0 1 * * *'' \<and> m = 60)
     \<or> (spec = ''*/5 * * * *'' \<and> m mod 5 = 0)"

theorem cron_keeps_orders_fresh_witness:
  "\<exists>w'. run_jobs [HealthJob, ExpireJob] (ex_world\<lparr>now := day + 2\<rparr>) = (Inr (), w') \<and> db w' = expire (day + 2) (db ex_world)"
proof -
  let ?w = "ex_world\<lparr>now := day + 2\<rparr>"
  have f: "faults ?w = []" by simp
  obtain w' where r: "run_jobs [HealthJob, ExpireJob] ?w = (Inr (), w')"
    using ExpireStaleOrders_run [OF f] by (simp add: run_job_def bindE_def ret_def)
  have "mset [HealthJob, ExpireJob] = mset (due_jobs ex_due 120)" by (simp add: due_jobs_def schedule_def ex_due_def)
  from cron_keeps_orders_fresh [OF _ _ _ this f r] r show ?thesis by (auto simp: cron_ok_def ex_due_def)
qed

end
