(* ===== verification/Prices.thy ===== *)
theory Prices
  imports AssetService Hub EngineLoop
begin

text \<open>
  From a trade to the screens: the engine publishes the price on a channel of Redis (executor.go), a
  goroutine of main.go forwards what arrives on \<^verbatim>\<open>price_updates:*\<close> to the hub, and the hub queues it for the
  subscribers of the asset's topic. The text of the message (\<^verbatim>\<open>json.Marshal\<close> with a formatted time) is an
  argument.
\<close>

section \<open>main.go: the forwarding of prices\<close>

text \<open>\<^verbatim>\<open>fmt.Sscanf(msg.Channel, "price_updates:%d", &assetID)\<close> with its error dropped: 0 if nothing was read.\<close>

definition channel_prefix :: string where
  "channel_prefix = ''price_updates:''"

definition Sscanf_channel :: "string \<Rightarrow> int" where
  "Sscanf_channel s =
     (if take (length channel_prefix) s \<noteq> channel_prefix then 0
      else let r = dropWhile (\<lambda>c. c \<in> set blanks) (drop (length channel_prefix) s);
               sgn = takeWhile (\<lambda>c. c = CHR ''+'' \<or> c = CHR ''-'') (take 1 r);
               tok = takeWhile (\<lambda>c. is_digit c \<or> c = CHR ''_'') (drop (length sgn) r)
           in case atoi (sgn @ tok) of None \<Rightarrow> 0 | Some i \<Rightarrow> i)"

definition price_topic :: "int \<Rightarrow> string" where
  "price_topic assetID = ''asset:'' @ show_int assetID"

fun forward_prices :: "(int \<Rightarrow> string \<Rightarrow> string \<Rightarrow> int \<Rightarrow> string) \<Rightarrow> effect list \<Rightarrow> hub \<Rightarrow> outcome" where
  "forward_prices marshal [] h = Done h"
| "forward_prices marshal (PublishPrice channel a p q t # es) h =
     (let assetID = Sscanf_channel channel in
      if assetID > 0 then
        (case run_broadcast (price_topic assetID) (marshal a p q t) h of
           Done h' \<Rightarrow> forward_prices marshal es h'
         | stuck \<Rightarrow> stuck)
      else forward_prices marshal es h)"
| "forward_prices marshal (_ # es) h = forward_prices marshal es h"

section \<open>The channel names the asset\<close>

lemma is_digit_takeWhile: "\<forall>c \<in> set s. is_digit c \<Longrightarrow> takeWhile (\<lambda>c. is_digit c \<or> c = CHR ''_'') s = s"
  by (simp add: takeWhile_eq_all_conv)

lemma atoi_show: "0 < i \<Longrightarrow> i < 2 ^ 63 \<Longrightarrow> atoi (show_int i) = Some i"
proof -
  assume i: "0 < i" "i < 2 ^ 63"
  obtain c r where s: "show_nat (nat i) = c # r" by (meson list.exhaust show_nat_nonempty)
  have d: "list_all is_digit (c # r)" using show_nat_digits [of "nat i"] s by (simp add: list_all_iff)
  have v: "digits_val 0 (c # r) = nat i" using digits_val_show_nat [of "nat i"] s by simp
  have "c \<noteq> CHR ''-''" "c \<noteq> CHR ''+''" using d by (auto simp: is_digit_def)
  then show ?thesis using i d v by (simp add: atoi_def show_int_def s Let_def)
qed

lemma Sscanf_channel_price: "0 < i \<Longrightarrow> i < 2 ^ 63 \<Longrightarrow> Sscanf_channel (''price_updates:'' @ show_int i) = i"
proof -
  assume i: "0 < i" "i < 2 ^ 63"
  obtain c r where s: "show_int i = c # r" using i show_nat_nonempty [of "nat i"] by (cases "show_int i") (auto simp: show_int_def)
  have d: "\<forall>x \<in> set (c # r). is_digit x" using show_nat_digits [of "nat i"] s i by (simp add: show_int_def)
  then have c: "c \<notin> set blanks" "c \<noteq> CHR ''-''" "c \<noteq> CHR ''+''" by (auto simp: is_digit_def blanks_def)
  have "takeWhile (\<lambda>c. is_digit c \<or> c = CHR ''_'') (c # r) = c # r" using d by (rule is_digit_takeWhile)
  then show ?thesis using c atoi_show [OF i] s by (simp add: Sscanf_channel_def channel_prefix_def Let_def)
qed

section \<open>The trade of the message is a row\<close>

lemma trade_Insert_row:
  "trade_Insert t w = (Inr x, w') \<Longrightarrow> \<exists>r. trades (db w') = trades (db w) @ [r] \<and> x = scan_trade r
     \<and> t_BuyOrderID r = t_BuyOrderID t \<and> t_SellOrderID r = t_SellOrderID t"
  by (fastforce simp: trade_Insert_def bindE_Inr Let_def nextval_def get_db_def time_now_def put_db_def ret_def to_numeric_def raise_def
      dest!: sql_Inr split: if_splits option.splits)

lemma UpdateFill_trades: "preserves (\<lambda>d s. trades d = ts) (UpdateFill i n st)"
  unfolding UpdateFill_def
  by (intro preserves_wrapE preserves_sql) (auto simp: preserves_def monad_defs add_fill_def split: option.splits if_splits)

lemma update_orders_row:
  assumes "update_orders b s q p w = (Inr t, w')"
  shows "\<exists>r. trades (db w') = trades (db w) @ [r] \<and> t = scan_trade r \<and> t_BuyOrderID r = o_ID b \<and> t_SellOrderID r = o_ID s"
proof -
  from assms obtain t0 w1 w2 i1 n1 s1 i2 n2 s2 where t: "trade_Insert t0 w = (Inr t, w1)" "t_BuyOrderID t0 = o_ID b" "t_SellOrderID t0 = o_ID s"
    and u1: "UpdateFill i1 n1 s1 w1 = (Inr (), w2)" and u2: "UpdateFill i2 n2 s2 w2 = (Inr (), w')"
    by (fastforce simp: update_orders_def Let_def bindE_Inr ret_def big_def)
  have "trades (db w2) = trades (db w1)" using UpdateFill_trades [of "trades (db w1)" i1 n1 s1] u1 by (auto simp: preserves_def)
  moreover have "trades (db w') = trades (db w2)" using UpdateFill_trades [of "trades (db w2)" i2 n2 s2] u2 by (auto simp: preserves_def)
  ultimately show ?thesis using trade_Insert_row [OF t(1)] t(2,3) by auto
qed

lemma lock_orders_ids:
  assumes "lock_orders b s w = (Inr (b', s'), w')"
  shows "o_ID b' = o_ID b \<and> o_ID s' = o_ID s"
proof -
  have g: "o_ID k = i" if "GetByIDForUpdate i v = (Inr k, v')" for i v k v'
    using that
    by (auto simp: GetByIDForUpdate_def bindE_Inr get_db_def ret_def raise_def dest!: sql_Inr find_SomeD split: option.splits)
  from assms show ?thesis
    by (auto simp: lock_orders_def Let_def bindE_Inr ret_def dest!: g split: if_splits)
qed

lemma executeTrade_tx_row:
  assumes "executeTrade_tx b s c w = (Inr (Some st), w')"
  shows "\<exists>r. trades (db w') = trades (db w) @ [r] \<and> s_Trade st = scan_trade r \<and> t_BuyOrderID r = o_ID b \<and> t_SellOrderID r = o_ID s"
proof -
  from assms obtain b1 s1 u0 fq u1 q p u2 v u t w1 x2 w2 x3 w3 where l: "lock_orders b s w = (Inr (b1, s1), u0)"
    and f: "fill_quantity b1 s1 u0 = (Inr (Some q), u1)" and pr: "big c u1 = (Inr p, u2)" and mu: "orPanic ''big.ErrNaN'' (Mul 0 q p) u2 = (Inr v, u)"
    and u: "update_orders b1 s1 q p u = (Inr t, w1)" and d: "debit_buyer b1 v w1 = (Inr x2, w2)"
    and cr: "credit_seller s1 v w2 = (Inr x3, w3)" and mv: "move_asset b1 s1 q p w3 = (Inr (), w')" and t: "s_Trade st = t"
    by (fastforce simp: executeTrade_tx_def bindE_Inr ret_def split: prod.splits option.splits)
  let ?I = "\<lambda>ts d (s :: string \<Rightarrow> int). trades d = ts"
  have "trades (db u0) = trades (db w)" using preservesD [OF lock_orders_rules(1) [of "?I (trades (db w))"] l] by simp
  moreover have "trades (db u1) = trades (db u0)" using preservesD [OF fill_quantity_rules(1) [of "?I (trades (db u0))"] f] by simp
  moreover have "trades (db u) = trades (db u1)"
    using preservesD [OF big_rules(1) [of "?I (trades (db u1))"] pr] preservesD [OF preserves_orPanic [of "?I (trades (db u2))"] mu] by simp
  moreover have "trades (db w2) = trades (db w1)" using preservesD [OF settlement_frame(1) d] by simp
  moreover have "trades (db w3) = trades (db w2)" using preservesD [OF settlement_frame(2) cr] by simp
  moreover have "trades (db w') = trades (db w3)" using preservesD [OF settlement_frame(3) mv] by simp
  ultimately show ?thesis using update_orders_row [OF u] lock_orders_ids [OF l] t by auto
qed

definition is_price :: "effect \<Rightarrow> bool" where
  "is_price e \<longleftrightarrow> (case e of PublishPrice _ _ _ _ _ \<Rightarrow> True | _ \<Rightarrow> False)"

lemma forward_others: "list_all (\<lambda>e. \<not> is_price e) es \<Longrightarrow> forward_prices M es h = Done h"
  by (induction es) (auto simp: is_price_def split: effect.splits)

text \<open>What a trade sends, whatever failed before it succeeded: the price of the row it inserted, then events.\<close>

definition is_event :: "effect \<Rightarrow> bool" where
  "is_event e \<longleftrightarrow> (case e of PublishEvent _ _ _ \<Rightarrow> True | _ \<Rightarrow> False)"

text \<open>The row of a trade of these two orders.\<close>

definition trade_of :: "string order \<Rightarrow> string order \<Rightarrow> numeric trade \<Rightarrow> bool" where
  "trade_of incoming candidate r \<longleftrightarrow>
     (if o_Side incoming = ''BUY'' then t_BuyOrderID r = o_ID incoming \<and> t_SellOrderID r = o_ID candidate
      else t_BuyOrderID r = o_ID candidate \<and> t_SellOrderID r = o_ID incoming)"

lemma executeTrade_out:
  assumes "executeTrade i k w = (Inr True, w')" and "cacheClient w"
  shows "\<exists>r es. trades (db w') = trades (db w) @ [r] \<and> trade_of i k r \<and> out w' = out w @ SetPrice (t_AssetID r) (numeric_out (t_Price r))
      # PublishPrice (''price_updates:'' @ show_int (t_AssetID r)) (t_AssetID r) (numeric_out (t_Price r)) (numeric_out (t_Quantity r)) (now w) # es
      \<and> list_all is_event es"
proof -
  from assms(1) obtain st w1 w2 where
    t: "trade_transaction (executeTrade_tx (if o_Side i = OrderSideBuy then i else k) (if o_Side i = OrderSideBuy then k else i) (o_Price k)) w
      = (Inr (Some st), w1)"
    and p: "publish_price (s_Trade st) w1 = (Inr (), w2)" and k: "publish_trade st w2 = (Inr (), w')"
    unfolding executeTrade_def Let_def by (auto simp: bindE_Inr ret_def split: option.splits prod.splits if_splits)
  from trade_transaction_cases [OF t] obtain fs fs' v where v: "executeTrade_tx (if o_Side i = OrderSideBuy then i else k)
      (if o_Side i = OrderSideBuy then k else i) (o_Price k) (w\<lparr>faults := fs\<rparr>) = (Inr (Some st), v)" "w1 = v\<lparr>faults := fs'\<rparr>"
    by auto
  from executeTrade_tx_row [OF v(1)] obtain r where r: "trades (db v) = trades (db w) @ [r]" "s_Trade st = scan_trade r" "trade_of i k r"
    by (auto simp: trade_of_def OrderSideBuy_def split: if_splits)
  from db_onlyD [OF executeTrade_tx_rules(3) v(1)] have w1: "out w1 = out w" "now w1 = now w" "cacheClient w1" using v(2) assms(2) by simp_all
  have o2: "out w2 = out w @ [SetPrice (t_AssetID r) (numeric_out (t_Price r)), PublishPrice (''price_updates:'' @ show_int (t_AssetID r)) (t_AssetID r)
      (numeric_out (t_Price r)) (numeric_out (t_Quantity r)) (now w)]" "db w2 = db w1"
    using p w1 by (auto simp: publish_price_def r(2) scan_trade_def bindE_def emit_def)
  obtain es where "out w' = out w2 @ es" "list_all is_event es" "db w' = db w2"
    using k by (auto simp: publish_trade_def bindE_def emit_def ret_def Let_def is_event_def split: if_splits)
  with o2 r v(2) show ?thesis by (intro exI [of _ r] exI [of _ es]) auto
qed

lemma executeTrade_price:
  assumes "executeTrade i k w = (Inr True, w')" and "cacheClient w"
  shows "\<exists>r e es. trades (db w') = trades (db w) @ [r] \<and> trade_of i k r
      \<and> out w' = out w @ e # PublishPrice (''price_updates:'' @ show_int (t_AssetID r)) (t_AssetID r)
      (numeric_out (t_Price r)) (numeric_out (t_Quantity r)) (now w) # es \<and> \<not> is_price e \<and> list_all (\<lambda>e. \<not> is_price e) es"
proof -
  have "list_all (\<lambda>e. \<not> is_price e) es" if "list_all is_event es" for es
    using that by (induction es) (auto simp: is_event_def is_price_def split: effect.splits)
  with executeTrade_out [OF assms] show ?thesis by (fastforce simp: is_price_def)
qed



end
