(* ===== verification/Cache.thy ===== *)
theory Cache
  imports Prices
begin

text \<open>
  The prices kept in Redis (internal/redis/cache.go) and what the asset service makes of them. Redis is
  an argument: a store with keys that lapse, whose writes may fail; \<open>kv_ok\<close> is what is documented of SET with
  an expiry, GET and DEL, \<open>kv_up\<close> that the writes are answered. The calls that the services send out are
  replayed on the store in their order.
\<close>

section \<open>Redis\<close>

record 's redis_kv =
  kv_Set :: "string \<Rightarrow> string \<Rightarrow> int \<Rightarrow> int \<Rightarrow> 's \<Rightarrow> 's option"
  kv_Get :: "string \<Rightarrow> int \<Rightarrow> 's \<Rightarrow> string option"
  kv_Del :: "string \<Rightarrow> int \<Rightarrow> 's \<Rightarrow> 's option"

definition kv_ok :: "'s redis_kv \<Rightarrow> bool" where
  "kv_ok R \<longleftrightarrow>
     (\<forall>k v ttl t s s'. kv_Set R k v ttl t s = Some s' \<longrightarrow> (\<forall>j t'. t \<le> t' \<longrightarrow>
        kv_Get R j t' s' = (if j = k then if t' < t + ttl then Some v else None else kv_Get R j t' s)))
   \<and> (\<forall>k t s s'. kv_Del R k t s = Some s' \<longrightarrow> (\<forall>j t'. t \<le> t' \<longrightarrow> kv_Get R j t' s' = (if j = k then None else kv_Get R j t' s)))"

definition kv_up :: "'s redis_kv \<Rightarrow> bool" where
  "kv_up R \<longleftrightarrow> (\<forall>k v ttl t s. kv_Set R k v ttl t s \<noteq> None) \<and> (\<forall>k t s. kv_Del R k t s \<noteq> None)"

section \<open>cache.go\<close>

definition DefaultTTL :: int where "DefaultTTL = 10 * 60 * 1000000"

definition AssetPriceKey :: "int \<Rightarrow> string" where
  "AssetPriceKey assetID = ''asset:'' @ show_int assetID @ '':price''"

text \<open>An error of Redis is logged only: nothing is stored then, and nothing is read.\<close>

definition cache_SetPrice :: "'s redis_kv \<Rightarrow> int \<Rightarrow> int \<Rightarrow> string \<Rightarrow> 's \<Rightarrow> 's" where
  "cache_SetPrice R t assetID price s = (case kv_Set R (AssetPriceKey assetID) price DefaultTTL t s of None \<Rightarrow> s | Some s' \<Rightarrow> s')"

definition cache_GetPrice :: "'s redis_kv \<Rightarrow> int \<Rightarrow> 's \<Rightarrow> int \<Rightarrow> string option" where
  "cache_GetPrice R t s assetID = kv_Get R (AssetPriceKey assetID) t s"

definition cache_InvalidatePrice :: "'s redis_kv \<Rightarrow> int \<Rightarrow> int \<Rightarrow> 's \<Rightarrow> 's" where
  "cache_InvalidatePrice R t assetID s = (case kv_Del R (AssetPriceKey assetID) t s of None \<Rightarrow> s | Some s' \<Rightarrow> s')"

text \<open>The calls of a computation, in their order.\<close>

fun cache_calls :: "'s redis_kv \<Rightarrow> int \<Rightarrow> effect list \<Rightarrow> 's \<Rightarrow> 's" where
  "cache_calls R t [] s = s"
| "cache_calls R t (SetPrice i p # es) s = cache_calls R t es (cache_SetPrice R t i p s)"
| "cache_calls R t (InvalidatePrice i # es) s = cache_calls R t es (cache_InvalidatePrice R t i s)"
| "cache_calls R t (_ # es) s = cache_calls R t es s"

section \<open>What the cache holds\<close>

lemma show_int_inj [simp]: "show_int a = show_int b \<longleftrightarrow> a = b"
proof -
  have "show_nat n \<noteq> CHR ''-'' # s" for n s using show_nat_digits [of n] by (auto simp: is_digit_def)
  then show ?thesis by (auto simp: show_int_def split: if_splits) (metis (no_types))
qed

lemma AssetPriceKey_inj [simp]: "AssetPriceKey a = AssetPriceKey b \<longleftrightarrow> a = b"
  by (simp add: AssetPriceKey_def)

lemma cache_laws:
  assumes "kv_ok R" and "kv_up R" and "t \<le> t'"
  shows "cache_GetPrice R t' (cache_SetPrice R t i p s) j = (if j = i then if t' < t + DefaultTTL then Some p else None else cache_GetPrice R t' s j)"
    and "cache_GetPrice R t' (cache_InvalidatePrice R t i s) j = (if j = i then None else cache_GetPrice R t' s j)"
proof -
  obtain u where u: "kv_Set R (AssetPriceKey i) p DefaultTTL t s = Some u" using assms(2) unfolding kv_up_def by blast
  then show "cache_GetPrice R t' (cache_SetPrice R t i p s) j = (if j = i then if t' < t + DefaultTTL then Some p else None else cache_GetPrice R t' s j)"
    using assms(1,3) unfolding kv_ok_def by (simp add: cache_GetPrice_def cache_SetPrice_def)
  obtain v where v: "kv_Del R (AssetPriceKey i) t s = Some v" using assms(2) unfolding kv_up_def by blast
  then show "cache_GetPrice R t' (cache_InvalidatePrice R t i s) j = (if j = i then None else cache_GetPrice R t' s j)"
    using assms(1,3) unfolding kv_ok_def by (simp add: cache_GetPrice_def cache_InvalidatePrice_def)
qed

lemma cache_calls_events: "list_all is_event es \<Longrightarrow> cache_calls R t es s = s"
  by (induction es) (auto simp: is_event_def split: effect.splits)

text \<open>Reading an asset: its row, with the cached price if there is one.\<close>

lemma GetAsset_eval:
  assumes "faults v = []" and "find (\<lambda>x. a_ID x = i) (assets (db v)) = Some x"
  shows "\<exists>v'. GetAsset get i v = (Inr ((scan_asset x)\<lparr>a_Price := (case get i of None \<Rightarrow> price_out (a_Price x) | Some p \<Rightarrow> p)\<rparr>), v')"
proof -
  have "a_ID x = i" using find_SomeD [OF assms(2)] by simp
  then show ?thesis using assms
    by (auto simp: GetAsset_def bindE_def asset_GetByID_eval cached_price_def emit_def ret_def scan_asset_def split: option.splits)
qed

lemma UpdateAsset_row:
  assumes ok: "schema_ok (db w) (seqs w)" and run: "UpdateAsset pgnum b i inp w = (Inr a, w')"
  shows "\<exists>x. find (\<lambda>x. a_ID x = i) (assets (db w')) = Some x \<and> a = scan_asset x \<and> out w' = out w @ [InvalidatePrice i, SetPrice i (a_Price a)]"
proof -
  from run obtain ex w1 ch w2 w3 where o: "owned_asset ''update asset: get'' b i w = (Inr ex, w1)" and ap: "apply_input inp ex w1 = (Inr ch, w2)"
    and u: "asset_Update pgnum ch w2 = (Inr a, w3)" and w': "w' = w3\<lparr>out := out w3 @ [InvalidatePrice (a_ID a), SetPrice (a_ID a) (a_Price a)]\<rparr>"
    by (auto simp: UpdateAsset_def bindE_Inr)
  from o obtain y where "attempt (asset_GetByID i) w = (Inr y, w1)" "y = Inr ex"
    by (auto simp: owned_asset_def bindE_Inr) (auto split: sum.splits if_splits)
  then have g: "asset_GetByID i w = (Inr ex, w1)" by simp
  have w1: "db w1 = db w" using preservesD [OF asset_GetByID_preserves [where I = "\<lambda>d s. d = db w"] g] by simp
  have o1: "out w1 = out w" using db_onlyD [OF asset_GetByID_db_only g] by simp
  obtain r where r: "find (\<lambda>r. a_ID r = i) (assets (db w)) = Some r" "ex = scan_asset r"
    using obliviousD [OF asset_GetByID_oblivious g] asset_GetByID_eval [of "w\<lparr>faults := []\<rparr>" i] by (auto split: option.splits)
  have ch: "w2 = w1" "a_ID ch = i" using ap r find_SomeD [OF r(1)] by (auto simp: apply_input_def bindE_Inr Let_def)
  from u obtain p q t x where x: "x \<in> set (assets (db w))" "a_ID x = i" "a_BrokerID x = a_BrokerID ch" "db w3 = set_asset ch p q t (db w)" "out w3 = out w"
      "a = scan_asset (x\<lparr>a_Name := a_Name ch, a_Description := a_Description ch, a_Price := p, a_Quantity := q, a_Status := a_Status ch, a_UpdatedAt := t\<rparr>)"
    unfolding asset_Update_def using ch w1 o1
    by (auto simp: bindE_Inr dest!: sql_Inr find_SomeD split: option.split_asm) (erule allE, auto)
  have "find (\<lambda>x. a_ID x = i) (assets (db w)) = Some x" using asset_by_id [OF ok x(1)] x(2) by simp
  then show ?thesis using x(2-6) w' ch(2) by (auto simp: set_asset_def find_upd_where scan_asset_def)
qed

section \<open>Properties\<close>

lemma cache_answers:
  assumes "kv_ok R" and "t \<le> t'"
  shows "cache_GetPrice R t' (cache_SetPrice R t i p s) i = None \<or> cache_GetPrice R t' (cache_SetPrice R t i p s) i = Some p
      \<or> kv_Set R (AssetPriceKey i) p DefaultTTL t s = None \<and> cache_SetPrice R t i p s = s"
    and "cache_GetPrice R t' (cache_InvalidatePrice R t i s) i = None
      \<or> kv_Del R (AssetPriceKey i) t s = None \<and> cache_InvalidatePrice R t i s = s"
  using assms
  by (auto simp: kv_ok_def cache_GetPrice_def cache_SetPrice_def cache_InvalidatePrice_def split: option.split)

text \<open>
  Property C34. What a broker has set is what everybody reads: after an update that succeeded, whatever
  failed on the way in the database and whatever the cache held before, reading the asset gives the asset
  that the update returned, from the cache while the price is there, from the table when it has lapsed or
  Redis does not answer the read. The writes to Redis may fail too, which is only logged: then a price
  that differs is read in one case, when both the deletion and the new price failed, and it is the one
  that was cached before and has not lapsed yet.
\<close>

theorem UpdateAsset_read_back:
  assumes "schema_ok (db w) (seqs w)" and "UpdateAsset pgnum b i inp w = (Inr a, w')" and "kv_ok R"
    and "now w \<le> t" and "faults v = []" and "db v = db w'"
    and "get = cache_GetPrice R t (cache_calls R (now w) (drop (length (out w)) (out w')) s) \<or> get = (\<lambda>_. None)"
  shows "\<exists>p v'. GetAsset get i v = (Inr (a\<lparr>a_Price := p\<rparr>), v')
    \<and> (p = a_Price a
       \<or> kv_Del R (''asset:'' @ show_int i @ '':price'') (now w) s = None
         \<and> kv_Set R (''asset:'' @ show_int i @ '':price'') (a_Price a) 600000000 (now w) s = None
         \<and> kv_Get R (''asset:'' @ show_int i @ '':price'') t s = Some p)"
proof -
  from UpdateAsset_row [OF assms(1,2)] obtain x where x: "find (\<lambda>x. a_ID x = i) (assets (db v)) = Some x" "a = scan_asset x"
    and o: "drop (length (out w)) (out w') = [InvalidatePrice i, SetPrice i (a_Price a)]" using assms(6) by auto
  let ?k = "AssetPriceKey i" and ?inv = "cache_InvalidatePrice R (now w) i s"
  have "get i = None \<or> get i = Some (a_Price a)
      \<or> kv_Del R ?k (now w) s = None \<and> kv_Set R ?k (a_Price a) DefaultTTL (now w) s = None \<and> kv_Get R ?k t s = get i"
    using assms(7) cache_answers(1) [OF assms(3,4), of i "a_Price a" ?inv] cache_answers(2) [OF assms(3,4), of i s]
    by (auto simp: o cache_GetPrice_def)
  then show ?thesis using GetAsset_eval [OF assms(5) x(1), of get] x(2)
    by (cases "get i") (auto simp: scan_asset_def AssetPriceKey_def DefaultTTL_def)
qed

text \<open>A store as Redis is: a map of keys to values with the time they lapse.\<close>

definition ex_redis :: "(string \<rightharpoonup> string \<times> int) redis_kv" where
  "ex_redis = \<lparr>kv_Set = (\<lambda>k v ttl t s. Some (s(k \<mapsto> (v, t + ttl)))),
     kv_Get = (\<lambda>k t s. case s k of None \<Rightarrow> None | Some (v, e) \<Rightarrow> if t < e then Some v else None),
     kv_Del = (\<lambda>k t s. Some (s(k := None)))\<rparr>"

lemma ex_redis_ok: "kv_ok ex_redis" "kv_up ex_redis"
  by (auto simp: kv_ok_def kv_up_def ex_redis_def)

definition ex_update :: UpdateAssetInput where
  "ex_update = \<lparr>ua_Name = None, ua_Description = None, ua_Price = Some ''7'', ua_Quantity = None\<rparr>"

lemma ex_update_runs: "\<exists>a w'. UpdateAsset ex_pgnum 2 1 ex_update ex_world = (Inr a, w') \<and> a_Price a = ''7.00000000'' \<and> faults w' = []"
proof -
  define r where "r = hd (assets (db ex_world))"
  define c where "c = (scan_asset r)\<lparr>a_Price := ''7''\<rparr>"
  have q: "ex_pgnum ''7'' = Inr (Some 700000000)" "ex_pgnum (price_out (a_Quantity r)) = Inr (a_Quantity r)" "price_out (Some 700000000) = ''7.00000000''"
    unfolding r_def by code_simp+
  then have pg: "to_price ex_pgnum (a_Price c) = ret (Some 700000000)" "to_price ex_pgnum (a_Quantity c) = ret (a_Quantity r)"
    by (simp_all add: c_def scan_asset_def to_price_def)
  have f: "find (\<lambda>x. a_ID x = 1) (assets (db ex_world)) = Some r" "a_BrokerID r = 2"
    "find (\<lambda>x. a_ID x = a_ID c \<and> a_BrokerID x = a_BrokerID c) (assets (db ex_world)) = Some r"
    "asset_checks (c\<lparr>a_Symbol := []\<rparr>) (Some 700000000) (a_Quantity r) = None"
    by (simp_all add: r_def c_def ex_world_def ex_tables_def const_defs price_negative_def unit8_def asset_checks_def scan_asset_def)
  have "owned_asset ''update asset: get'' 2 1 ex_world = (Inr (scan_asset r), ex_world)"
    using f(1,2) ex_world_quiet by (simp add: owned_asset_eval)
  moreover have "apply_input ex_update (scan_asset r) ex_world = (Inr c, ex_world)"
    by (simp add: apply_input_def ex_update_def Let_def check_def validate_examples c_def)
  moreover have "\<exists>w'. asset_Update ex_pgnum c ex_world = (Inr (scan_asset (r\<lparr>a_Name := a_Name c, a_Description := a_Description c,
      a_Price := Some 700000000, a_Status := a_Status c, a_UpdatedAt := now ex_world\<rparr>)), w') \<and> faults w' = []"
    using f(3,4) ex_world_quiet by (auto simp: asset_Update_def pg bindE_def wrapE_def get_db_def time_now_def put_db_def ret_def)
  ultimately show ?thesis
    using q(3) by (auto simp: UpdateAsset_def bindE_def wrapE_def emit_def ret_def scan_asset_def)
qed

theorem UpdateAsset_read_back_witness:
  "\<exists>a w' v'. UpdateAsset ex_pgnum 2 1 ex_update ex_world = (Inr a, w') \<and> a_Price a = ''7.00000000''
     \<and> GetAsset (cache_GetPrice ex_redis 20 (cache_calls ex_redis 10 (out w') Map.empty)) 1 w' = (Inr a, v')"
proof -
  from ex_update_runs obtain a w' where r: "UpdateAsset ex_pgnum 2 1 ex_update ex_world = (Inr a, w')" "a_Price a = ''7.00000000''"
    "faults w' = []" by blast
  have n: "now ex_world = 10" "out ex_world = []" by (simp_all add: ex_world_def)
  have nd: "(kv_Del ex_redis k 10 Map.empty = None) = False" for k by (simp add: ex_redis_def)
  obtain v' where "GetAsset (cache_GetPrice ex_redis 20 (cache_calls ex_redis 10 (out w') Map.empty)) 1 w' = (Inr (a\<lparr>a_Price := a_Price a\<rparr>), v')"
    using UpdateAsset_read_back [OF ex_world_ok r(1) ex_redis_ok(1) _ r(3) refl disjI1 [OF refl], of 20 Map.empty] n by (auto simp: nd)
  then show ?thesis using r(1,2) by auto
qed

text \<open>
  After a trade the asset is shown with the price of the trade, for ten minutes; after
  that with the price its broker has listed it at, for trades do not change the table.
\<close>

theorem trade_price_shown:
  assumes "executeTrade incoming candidate w = (Inr True, w')" and "cacheClient w" and "kv_ok R" and "kv_up R"
  shows "\<exists>r. trades (db w') = trades (db w) @ [r] \<and> trade_of incoming candidate r \<and> (\<forall>t v x. now w \<le> t \<longrightarrow> faults v = [] \<longrightarrow> find (\<lambda>x. a_ID x = t_AssetID r) (assets (db v)) = Some x \<longrightarrow>
    (\<exists>v'. GetAsset (cache_GetPrice R t (cache_calls R (now w) (drop (length (out w)) (out w')) s)) (t_AssetID r) v
       = (Inr ((scan_asset x)\<lparr>a_Price := (if t < now w + 600000000 then numeric_out (t_Price r) else price_out (a_Price x))\<rparr>), v')))"
proof -
  from executeTrade_out [OF assms(1,2)] obtain r es where r: "trades (db w') = trades (db w) @ [r]" "trade_of incoming candidate r" and es: "list_all is_event es"
    and o: "drop (length (out w)) (out w') = SetPrice (t_AssetID r) (numeric_out (t_Price r))
      # PublishPrice (''price_updates:'' @ show_int (t_AssetID r)) (t_AssetID r) (numeric_out (t_Price r)) (numeric_out (t_Quantity r)) (now w) # es"
    by fastforce
  show ?thesis
  proof (intro exI [of _ r] conjI r allI impI)
    fix t and v :: world and x assume t: "now w \<le> t" and v: "faults v = []" "find (\<lambda>x. a_ID x = t_AssetID r) (assets (db v)) = Some x"
    show "\<exists>v'. GetAsset (cache_GetPrice R t (cache_calls R (now w) (drop (length (out w)) (out w')) s)) (t_AssetID r) v
       = (Inr ((scan_asset x)\<lparr>a_Price := (if t < now w + 600000000 then numeric_out (t_Price r) else price_out (a_Price x))\<rparr>), v')"
      using GetAsset_eval [OF v, of "cache_GetPrice R t (cache_calls R (now w) (drop (length (out w)) (out w')) s)"]
      unfolding o by (simp add: cache_laws [OF assms(3,4) t] cache_calls_events [OF es] DefaultTTL_def split: if_splits)
  qed
qed

theorem trade_price_shown_witness:
  "\<exists>w' p v'. executeTrade (scan_order ex_buy) (scan_order ex_sell) ex_world = (Inr True, w')
     \<and> GetAsset (cache_GetPrice ex_redis 20 (cache_calls ex_redis 10 (out w') Map.empty)) 1 ex_world
       = (Inr ((scan_asset (hd (assets ex_tables)))\<lparr>a_Price := p\<rparr>), v') \<and> p = numeric_out (o_Price ex_sell)"
proof -
  obtain w' where w': "executeTrade (scan_order ex_buy) (scan_order ex_sell) ex_world = (Inr True, w')"
    "trades (db w') = trades (db ex_world) @ [trade_row ex_buy ex_sell (3 * unit8) (o_Price ex_sell) ex_world]"
    using executeTrade_settled [OF ex_world_ok ex_world_quiet ex_trade(1,2) refl ex_trade(3-5)] by blast
  let ?t = "trade_row ex_buy ex_sell (3 * unit8) (o_Price ex_sell) ex_world"
  have a: "t_AssetID ?t = 1" "t_Price ?t = o_Price ex_sell" by (simp_all add: trade_row_def ex_order_def)
  have e: "cacheClient ex_world" "out ex_world = []" "now ex_world = 10" "find (\<lambda>x. a_ID x = 1) (assets (db ex_world)) = Some (hd (assets ex_tables))"
    by (simp_all add: ex_world_def ex_tables_def)
  from trade_price_shown [OF w'(1) e(1) ex_redis_ok, of Map.empty] obtain r where "trades (db w') = trades (db ex_world) @ [r]" and
    r: "\<And>u v x. 10 \<le> u \<Longrightarrow> faults v = [] \<Longrightarrow> find (\<lambda>x. a_ID x = t_AssetID r) (assets (db v)) = Some x \<Longrightarrow>
      \<exists>v'. GetAsset (cache_GetPrice ex_redis u (cache_calls ex_redis 10 (out w') Map.empty)) (t_AssetID r) v
        = (Inr ((scan_asset x)\<lparr>a_Price := (if u < 600000010 then numeric_out (t_Price r) else price_out (a_Price x))\<rparr>), v')"
    using e by auto
  then have "r = ?t" using w'(2) by simp
  with r [of 20 ex_world] a e ex_world_quiet w'(1) show ?thesis by auto
qed

end
