(* ===== verification/Shared.thy ===== *)
theory Shared
  imports Http RateLimit Cache
begin

text \<open>
  What the packages share beyond the core: the errors of internal/shared/errors, the page counts of
  internal/shared/utils, which are computed in floats, the answers of internal/shared/response, the
  compliance check, the analytics that are read back from Redis, and how events leave for Kafka and for
  web clients. Counters in Redis are an argument with the laws of its commands.
\<close>

section \<open>internal/shared/errors\<close>

text \<open>An error is a text, a text around an error (\<^verbatim>\<open>fmt.Errorf\<close> with \<^verbatim>\<open>%w\<close>), or an \<^verbatim>\<open>AppError\<close> that may hold another.\<close>

datatype go_error = ErrText string | Wrapped string go_error | AppError int string "go_error option"

fun error_text :: "go_error \<Rightarrow> string" where
  "error_text (ErrText s) = s"
| "error_text (Wrapped s e) = s @ '': '' @ error_text e"
| "error_text (AppError code msg None) = msg"
| "error_text (AppError code msg (Some e)) = msg @ '': '' @ error_text e"

definition Unwrap :: "go_error \<Rightarrow> go_error option" where
  "Unwrap err = (case err of ErrText s \<Rightarrow> None | Wrapped s e \<Rightarrow> Some e | AppError code msg e \<Rightarrow> e)"

definition New :: "int \<Rightarrow> string \<Rightarrow> go_error" where
  "New code msg = AppError code msg None"

definition Wrap :: "int \<Rightarrow> string \<Rightarrow> go_error option \<Rightarrow> go_error" where
  "Wrap code msg err = AppError code msg err"

text \<open>\<^verbatim>\<open>errors.As\<close>: the first \<^verbatim>\<open>AppError\<close> on the way down.\<close>

fun errors_As :: "go_error \<Rightarrow> (int \<times> string) option" where
  "errors_As (ErrText s) = None"
| "errors_As (Wrapped s e) = errors_As e"
| "errors_As (AppError code msg e) = Some (code, msg)"

definition ToHTTPStatus :: "go_error option \<Rightarrow> int" where
  "ToHTTPStatus err = (case Option.bind err errors_As of Some (code, _) \<Rightarrow> code | None \<Rightarrow> 500)"

definition IsAppError :: "go_error option \<Rightarrow> bool" where
  "IsAppError err \<longleftrightarrow> Option.bind err errors_As \<noteq> None"

definition app_errors :: "go_error list" where
  "app_errors = [New 404 ''resource not found'', New 401 ''authentication required'', New 403 ''access denied'', New 409 ''resource already exists'',
     New 422 ''request could not be processed'', New 500 ''internal server error'', New 400 ''bad request'',
     New 503 ''service temporarily unavailable'']"

text \<open>The status is that of the outermost application error, however deep it is wrapped; without one it is 500.\<close>

fun wrap_texts :: "string list \<Rightarrow> go_error \<Rightarrow> go_error" where
  "wrap_texts [] e = e"
| "wrap_texts (s # ss) e = Wrapped s (wrap_texts ss e)"

lemma errors_As_texts [simp]: "errors_As (wrap_texts ss e) = errors_As e"
  by (induction ss) simp_all

lemma ToHTTPStatus_outermost:
  "ToHTTPStatus (Some (wrap_texts ss (Wrap code msg e))) = code \<and> (\<not> IsAppError err \<longrightarrow> ToHTTPStatus err = 500)"
  by (auto simp: ToHTTPStatus_def IsAppError_def Wrap_def split: option.splits)

lemma errors_As_shape: "errors_As e = Some (code, msg) \<longleftrightarrow> (\<exists>ss e'. e = wrap_texts ss (AppError code msg e'))"
proof
  show "errors_As e = Some (code, msg) \<Longrightarrow> \<exists>ss e'. e = wrap_texts ss (AppError code msg e')"
  proof (induction e rule: errors_As.induct)
    case (2 s e)
    then obtain ss e' where "Wrapped s e = wrap_texts (s # ss) (AppError code msg e')" by auto
    then show ?case by blast
  next
    case (3 c m e)
    then have "AppError c m e = wrap_texts [] (AppError code msg e)" by simp
    then show ?case by blast
  qed simp
qed auto

section \<open>internal/shared/utils: the number of pages\<close>

text \<open>
  The quotient of two 64-bit floats, rounded up. Go does not say what the integer of an infinity, of
  \<^verbatim>\<open>NaN\<close> or of a float out of range is: \<open>None\<close>.
\<close>

definition CalculatePaginationMeta :: "int \<Rightarrow> int \<Rightarrow> int \<Rightarrow> Metadata option" where
  "CalculatePaginationMeta page pageSize totalCount =
     (if pageSize = 0 then None
      else let n = \<lceil>rnd 53 (rnd 53 (of_int totalCount) / rnd 53 (of_int pageSize))\<rceil> in
        if int64_range n then Some \<lparr>m_Total = totalCount, m_Page = page, m_PageSize = pageSize, m_TotalPages = n\<rparr> else None)"

lemma rnd_ceiling:
  assumes "0 < a" and "a < 2 ^ 52" and "1 \<le> b" and "b < 2 ^ 53"
  shows "\<lceil>rnd 53 (of_int a / of_int b)\<rceil> = \<lceil>of_int a / (of_int b :: rat)\<rceil>"
proof (rule ceiling_unique)
  let ?q = "of_int a / of_int b :: rat" and ?n = "\<lceil>of_int a / (of_int b :: rat)\<rceil>"
  have b: "(0::rat) < of_int b" using assms(3) by simp
  have q: "0 < ?q" "?q \<le> of_int a" using assms by (auto simp: divide_le_eq mult_le_cancel_left1)
  then have n: "0 < ?n" "?n \<le> a" by (simp_all add: ceiling_le_iff)
  have "?n < 2 ^ 53" by (rule order.strict_trans1 [OF n(2)]) (use assms(2) in simp)
  then have "\<bar>?n\<bar> < 2 ^ 53" unfolding abs_of_pos [OF n(1)] .
  then have "rnd 53 (of_int ?n) = (of_int ?n :: rat)" by (rule rnd_of_int)
  moreover have "rnd 53 ?q \<le> rnd 53 (of_int ?n)" by (rule rnd_mono) simp_all
  ultimately show "rnd 53 ?q \<le> of_int ?n" by simp
  have "of_int (?n - 1) < ?q" by linarith
  then have "of_int ((?n - 1) * b) < (of_int a :: rat)" using b by (simp add: less_divide_eq)
  then have "(?n - 1) * b + 1 \<le> a" by linarith
  then have "(of_int ((?n - 1) * b + 1) :: rat) \<le> of_int a" by (simp only: of_int_le_iff)
  then have "of_int ((?n - 1) * b + 1) / of_int b \<le> ?q" using b by (intro divide_right_mono) auto
  then have lo: "of_int ?n - 1 + 1 / of_int b \<le> ?q" using b by (simp add: add_divide_distrib)
  have "\<bar>rnd 53 ?q - ?q\<bar> \<le> ?q / 2 ^ 53" using rnd_error [of 53 ?q] q by simp
  moreover have "?q / 2 ^ 53 < 1 / of_int b" using b assms(2) by (simp add: field_simps)
  ultimately show "of_int ?n - 1 < rnd 53 ?q" using lo by linarith
qed

text \<open>
  Property C40. The two ways of counting pages agree: the floats of internal/shared/utils give the number
  that pkg/pagination computes in integers, for every listing that is not empty, up to \<open>2 ^ 52\<close> rows.
\<close>

theorem CalculatePaginationMeta_equivalent:
  assumes "0 < totalCount" and "totalCount < 2 ^ 52" and "1 \<le> pageSize" and "pageSize \<le> 100"
  shows "CalculatePaginationMeta page pageSize totalCount = Some (NewMetadata totalCount page pageSize)"
proof -
  let ?t = "totalPages totalCount pageSize"
  have c: "(?t - 1) * pageSize < totalCount" "totalCount \<le> ?t * pageSize" "0 < ?t"
    using totalPages_ceiling [of totalCount pageSize] assms by simp_all
  have "of_int ((?t - 1) * pageSize) < (of_int totalCount :: rat)" "(of_int totalCount :: rat) \<le> of_int (?t * pageSize)"
    using c by (simp_all only: of_int_less_iff of_int_le_iff)
  then have n: "\<lceil>of_int totalCount / (of_int pageSize :: rat)\<rceil> = ?t"
    using assms(3) by (intro ceiling_unique) (simp_all add: field_simps)
  have "(?t - 1) * 1 \<le> (?t - 1) * pageSize" using c(3) assms(3) by (intro mult_left_mono) auto
  from order.strict_trans1 [OF this c(1)] have "?t \<le> totalCount" by simp
  then have "int64_range ?t" using c(3) assms(2) by (simp add: int64_range_def)
  moreover have "rnd 53 (of_int totalCount) = (of_int totalCount :: rat)" "rnd 53 (of_int pageSize) = (of_int pageSize :: rat)"
    using assms by (auto intro: rnd_of_int)
  ultimately show ?thesis
    using rnd_ceiling [of totalCount pageSize] n assms by (simp add: CalculatePaginationMeta_def NewMetadata_def)
qed

theorem CalculatePaginationMeta_equivalent_witness:
  "CalculatePaginationMeta 3 20 41 = Some (NewMetadata 41 3 20) \<and> m_TotalPages (NewMetadata 41 3 20) = 3"
proof -
  have "m_TotalPages (NewMetadata 41 3 20) = 3" by code_simp
  then show ?thesis using CalculatePaginationMeta_equivalent [of 41 20 3] by simp
qed

text \<open>An empty listing has no page for the one and one page for the other; a page size of 0 has no meaning.\<close>

lemma CalculatePaginationMeta_empty:
  "1 \<le> pageSize \<Longrightarrow> CalculatePaginationMeta page pageSize 0 = Some \<lparr>m_Total = 0, m_Page = page, m_PageSize = pageSize, m_TotalPages = 0\<rparr>"
  and "CalculatePaginationMeta page 0 totalCount = None"
  by (simp_all add: CalculatePaginationMeta_def int64_range_def)

section \<open>internal/shared/response\<close>

definition response_JSON :: "int \<Rightarrow> body \<Rightarrow> answer" where
  "response_JSON statusCode data = (statusCode, data)"

definition response_NotFound :: "string \<Rightarrow> answer" where
  "response_NotFound msg = response_Error 404 (if msg = [] then ''resource not found'' else msg)"

definition response_BadRequest :: "string \<Rightarrow> answer" where
  "response_BadRequest msg = response_Error 400 msg"

definition response_InternalError :: answer where
  "response_InternalError = response_Error 500 ''an unexpected error occurred''"

section \<open>internal/compliance\<close>

text \<open>The check is a constant; its limit is a whole number of dollars.\<close>

definition CheckUser :: "int \<Rightarrow> error + bool \<times> string \<times> int" where
  "CheckUser userID = Inr (True, ''User KYC is active and compliant'', 10000)"

text \<open>The answer has the three values under their names.\<close>

definition h_CheckStatus :: "gin_context \<Rightarrow> answer" where
  "h_CheckStatus c = (case ctx_UserID c of
     None \<Rightarrow> response_Error 401 ''Unauthorized''
   | Some userID \<Rightarrow> (case CheckUser userID of
       Inl e \<Rightarrow> response_Error 500 ''Compliance check failed''
     | Inr r \<Rightarrow> response_Success 200 (VCompliance r)))"

section \<open>internal/analytics and the counters in Redis\<close>

record 's redis_counters =
  rc_IncrByFloat :: "string \<Rightarrow> float64 \<Rightarrow> 's \<Rightarrow> 's"
  rc_Incr :: "string \<Rightarrow> 's \<Rightarrow> 's"
  rc_Get :: "string \<Rightarrow> 's \<Rightarrow> string option"

text \<open>What is documented of INCR and INCRBYFLOAT, and that a command touches its own key only.\<close>

definition counters_ok :: "'s redis_counters \<Rightarrow> bool" where
  "counters_ok R \<longleftrightarrow>
     (\<forall>k s. rc_Get R k s = None \<longrightarrow> rc_Get R k (rc_Incr R k s) = Some (show_int 1))
   \<and> (\<forall>k s n. rc_Get R k s = Some (show_int n) \<and> n + 1 < 2 ^ 63 \<longrightarrow> rc_Get R k (rc_Incr R k s) = Some (show_int (n + 1)))
   \<and> (\<forall>k j s. j \<noteq> k \<longrightarrow> rc_Get R j (rc_Incr R k s) = rc_Get R j s)
   \<and> (\<forall>k j x s. j \<noteq> k \<longrightarrow> rc_Get R j (rc_IncrByFloat R k x s) = rc_Get R j s)"

fun redis_run :: "'s redis_counters \<Rightarrow> redis_command list \<Rightarrow> 's \<Rightarrow> 's" where
  "redis_run R [] s = s"
| "redis_run R (IncrByFloat k x # cs) s = redis_run R cs (rc_IncrByFloat R k x s)"
| "redis_run R (Incr k # cs) s = redis_run R cs (rc_Incr R k s)"

text \<open>An error of Redis reads as zero; a text that is not a number is an error.\<close>

definition GetTotalVolume :: "'s redis_counters \<Rightarrow> 's \<Rightarrow> float64 option" where
  "GetTotalVolume R s = (case rc_Get R ''analytics:total_volume'' s of None \<Rightarrow> Some (F64 0) | Some v \<Rightarrow> ParseFloat v)"

definition GetTradeCount :: "'s redis_counters \<Rightarrow> 's \<Rightarrow> int option" where
  "GetTradeCount R s = (case rc_Get R ''analytics:trade_count'' s of None \<Rightarrow> Some 0 | Some v \<Rightarrow> atoi v)"

definition RecordTrade :: "'s redis_counters \<Rightarrow> string \<Rightarrow> string \<Rightarrow> 's \<Rightarrow> 's option" where
  "RecordTrade R priceStr quantityStr s = map_option (\<lambda>cs. redis_run R cs s) (RecordAnalyticsTrade priceStr quantityStr)"

lemma redis_run_append: "redis_run R (cs @ ds) s = redis_run R ds (redis_run R cs s)"
  by (induction R cs s rule: redis_run.induct) simp_all

text \<open>The counter as a number, when it is one.\<close>

definition count_is :: "'s redis_counters \<Rightarrow> 's \<Rightarrow> int \<Rightarrow> bool" where
  "count_is R s n \<longleftrightarrow> 0 \<le> n \<and> (if n = 0 then rc_Get R ''analytics:trade_count'' s = None else rc_Get R ''analytics:trade_count'' s = Some (show_int n))"

lemma count_is_GetTradeCount: "count_is R s n \<Longrightarrow> n < 2 ^ 63 \<Longrightarrow> GetTradeCount R s = Some n"
  by (auto simp: count_is_def GetTradeCount_def atoi_show split: if_splits)

text \<open>An event with its keys and kind right, and with column values as the price and quantity of a trade.\<close>

fun countable_event :: "string \<times> payload \<Rightarrow> bool" where
  "countable_event (k, TradeEventPayload p) \<longleftrightarrow> k = ''trade.executed'' \<and> payload_ok (TradeEventPayload p)
     \<and> (\<exists>m n. te_Price p = numeric_out m \<and> te_Quantity p = numeric_out n)"
| "countable_event (k, p) \<longleftrightarrow> k \<noteq> ''trade.executed''"

fun is_trade :: "string \<times> payload \<Rightarrow> bool" where
  "is_trade (k, TradeEventPayload p) = True"
| "is_trade (k, p) = False"

lemma RecordAnalyticsTrade_columns:
  "\<exists>x. RecordAnalyticsTrade (numeric_out m) (numeric_out n) = Some [IncrByFloat ''analytics:total_volume'' x, Incr ''analytics:trade_count'']"
  by (simp add: RecordAnalyticsTrade_def SetString_0 SetString_load)

lemma analytics_handle_event:
  assumes "countable_event e"
  shows "\<exists>x. analytics_handle True \<lparr>ev_Type = fst e, ev_Timestamp = t, ev_Payload = Some (Marshal (snd e))\<rparr>
    = Some (if is_trade e then [IncrByFloat ''analytics:total_volume'' x, Incr ''analytics:trade_count''] else [])"
  using assms
proof (cases e rule: countable_event.cases)
  case (1 k p)
  then obtain m n where "te_Price p = numeric_out m" "te_Quantity p = numeric_out n" using assms by auto
  then show ?thesis using 1 assms RecordAnalyticsTrade_columns [of m n] by (simp add: analytics_handle_def read_trade_def)
qed (auto simp: analytics_handle_def)

lemma count_is_step:
  assumes "counters_ok R" and "count_is R s n" and "n + 1 < 2 ^ 63"
  shows "count_is R (redis_run R [IncrByFloat ''analytics:total_volume'' x, Incr ''analytics:trade_count''] s) (n + 1)"
proof -
  let ?s = "rc_IncrByFloat R ''analytics:total_volume'' x s"
  have g: "rc_Get R ''analytics:trade_count'' ?s = rc_Get R ''analytics:trade_count'' s"
    using assms(1) unfolding counters_ok_def by simp
  show ?thesis
  proof (cases "n = 0")
    case True
    then have "rc_Get R ''analytics:trade_count'' ?s = None" using assms(2) g by (simp add: count_is_def)
    then have "rc_Get R ''analytics:trade_count'' (rc_Incr R ''analytics:trade_count'' ?s) = Some (show_int 1)"
      using assms(1) unfolding counters_ok_def by blast
    with True show ?thesis by (simp add: count_is_def)
  next
    case False
    then have "rc_Get R ''analytics:trade_count'' ?s = Some (show_int n)" "0 < n" using assms(2) g by (auto simp: count_is_def)
    then have "rc_Get R ''analytics:trade_count'' (rc_Incr R ''analytics:trade_count'' ?s) = Some (show_int (n + 1))"
      using assms(1,3) unfolding counters_ok_def by blast
    with \<open>0 < n\<close> show ?thesis by (simp add: count_is_def)
  qed
qed

lemma analytics_consumer_counts:
  assumes "delivers rs evs" and "counters_ok R" and "list_all countable_event evs" and "count_is R s n"
    and "n + int (length (filter is_trade evs)) < 2 ^ 63"
  shows "\<exists>cs. analytics_consumer True rs = Some cs \<and> count_is R (redis_run R cs s) (n + int (length (filter is_trade evs)))"
  using assms
proof (induction arbitrary: s n rule: delivers.induct)
  case (delivers_event rs evs t k p)
  obtain x where h: "analytics_handle True \<lparr>ev_Type = k, ev_Timestamp = t, ev_Payload = Some (Marshal p)\<rparr>
    = Some (if is_trade (k, p) then [IncrByFloat ''analytics:total_volume'' x, Incr ''analytics:trade_count''] else [])" (is "_ = Some ?cs")
    using analytics_handle_event [of "(k, p)" t] delivers_event.prems(2) by auto
  let ?n = "n + (if is_trade (k, p) then 1 else 0)"
  have "count_is R (redis_run R ?cs s) ?n"
    using count_is_step [OF assms(2) delivers_event.prems(3), of x] delivers_event.prems(3,4) by (simp split: if_splits)
  moreover have "?n + int (length (filter is_trade evs)) < 2 ^ 63" using delivers_event.prems(4) by (auto split: if_splits)
  ultimately obtain cs where cs: "analytics_consumer True rs = Some cs"
    "count_is R (redis_run R (?cs @ cs) s) (?n + int (length (filter is_trade evs)))"
    using delivers_event.IH [OF delivers_event.prems(1), of "redis_run R ?cs s" ?n] delivers_event.prems(2) by (auto simp: redis_run_append)
  moreover have "?n + int (length (filter is_trade evs)) = n + int (length (filter is_trade ((k, p) # evs)))" by simp
  moreover have "analytics_consumer True (Message (Some (event_message t k p)) # rs) = Some (?cs @ cs)" using h cs(1) by simp
  ultimately show ?case by metis
next
  case (delivers_no_event v we rs evs)
  then show ?case by (force simp: no_event_handled)
qed simp_all

text \<open>
  The trade count of the analytics is right: after the events of any trades have come through the
  consumer, with read errors, broken messages and other events in between, the repository answers with the
  number of trades more than before.
\<close>

theorem trade_count_right:
  assumes "counters_ok R" and "delivers rs evs" and "list_all countable_event evs"
    and "rc_Get R ''analytics:trade_count'' s = None" and "length (filter is_trade evs) < 2 ^ 63"
  shows "\<exists>cs. analytics_consumer True rs = Some cs \<and> GetTradeCount R (redis_run R cs s) = Some (int (length (filter is_trade evs)))"
proof -
  have n: "int (length (filter is_trade evs)) < 2 ^ 63" using assms(5) by simp
  have "count_is R s 0" using assms(4) by (simp add: count_is_def)
  from analytics_consumer_counts [OF assms(2,1,3) this] n count_is_GetTradeCount [OF _ n] show ?thesis by auto
qed

text \<open>A store with one counter per key.\<close>

definition ex_counters :: "(string \<Rightarrow> int option) redis_counters" where
  "ex_counters = \<lparr>rc_IncrByFloat = (\<lambda>k x s. s(k := Some (case s k of None \<Rightarrow> 1 | Some n \<Rightarrow> n))),
     rc_Incr = (\<lambda>k s. s(k := Some (case s k of None \<Rightarrow> 1 | Some n \<Rightarrow> n + 1))), rc_Get = (\<lambda>k s. map_option show_int (s k))\<rparr>"

lemma ex_counters_ok: "counters_ok ex_counters"
  by (auto simp: counters_ok_def ex_counters_def split: option.splits)

theorem trade_count_right_witness:
  "\<exists>cs. analytics_consumer True [ReadError, Message (Some (event_message 9 ''trade.executed'' (TradeEventPayload
        (ex_trade_event\<lparr>te_Price := numeric_out 5, te_Quantity := numeric_out 7\<rparr>)))), Message None] = Some cs
     \<and> GetTradeCount ex_counters (redis_run ex_counters cs Map.empty) = Some 1"
proof -
  let ?p = "TradeEventPayload (ex_trade_event\<lparr>te_Price := numeric_out 5, te_Quantity := numeric_out 7\<rparr>)"
  have d: "delivers [ReadError, Message (Some (event_message 9 ''trade.executed'' ?p)), Message None] [(''trade.executed'', ?p)]"
    by (intro delivers_Nil delivers_error delivers_event delivers_broken) (simp add: read_wrapper_def)
  have l: "list_all countable_event [(''trade.executed'', ?p)]"
    by (auto simp: payload_ok.simps ex_trade_event_def int64_range_def)
  have g: "rc_Get ex_counters ''analytics:trade_count'' Map.empty = None" by (simp add: ex_counters_def)
  have n: "length (filter is_trade [(''trade.executed'', ?p)]) = 1" by simp
  from trade_count_right [OF ex_counters_ok d l g] show ?thesis unfolding n by simp
qed

section \<open>internal/kafka/producer.go\<close>

text \<open>
  The message that \<^verbatim>\<open>PublishEvent\<close> gives to the writer, and the error if it cannot be written; the
  clock is read twice, in nanoseconds for the key. Payloads are structs of texts, numbers and times, whose
  marshalling does not fail.
\<close>

record kafka_message =
  km_Topic :: string
  km_Key :: string
  km_Value :: json
  km_Headers :: "(string \<times> string) list"

definition kafka_PublishEvent :: "(kafka_message \<Rightarrow> string option) \<Rightarrow> int \<Rightarrow> int \<Rightarrow> string \<Rightarrow> string \<Rightarrow> payload \<Rightarrow> string + kafka_message" where
  "kafka_PublishEvent writeMessages t nanos topic eventType p =
     (let msg = \<lparr>km_Topic = topic, km_Key = eventType @ ''-'' @ show_int nanos, km_Value = event_message t eventType p,
          km_Headers = [(''event_type'', eventType)]\<rparr>
      in case writeMessages msg of Some e \<Rightarrow> Inl (''publish event: write message: '' @ e) | None \<Rightarrow> Inr msg)"

text \<open>
  What is written arrives: the consumer of the topic reads the type of the header, the time and the
  payload back. Of one type, the key tells the events of two nanoseconds apart.
\<close>

lemma kafka_PublishEvent_read:
  assumes "kafka_PublishEvent write t nanos topic k p = Inr msg"
  shows "km_Topic msg = topic \<and> km_Headers msg = [(''event_type'', k)]
    \<and> read_wrapper (Some (km_Value msg)) = Some \<lparr>ev_Type = k, ev_Timestamp = t, ev_Payload = Some (Marshal p)\<rparr>"
  using assms by (auto simp: kafka_PublishEvent_def Let_def split: option.splits)

lemma kafka_key_inj:
  assumes "kafka_PublishEvent write t n topic k p = Inr a" and "kafka_PublishEvent write u m topic k q = Inr b"
  shows "km_Key a = km_Key b \<longleftrightarrow> n = m"
  using assms by (auto simp: kafka_PublishEvent_def Let_def split: option.splits)

section \<open>internal/notification: the notifier\<close>

text \<open>A payload that can be marshalled is a broadcast of the hub.\<close>

definition notifier_Broadcast :: "('p \<Rightarrow> string + string) \<Rightarrow> string \<Rightarrow> 'p \<Rightarrow> hub \<Rightarrow> string + outcome" where
  "notifier_Broadcast marshal topic payload h = (case marshal payload of Inl e \<Rightarrow> Inl e | Inr b \<Rightarrow> Inr (run_broadcast topic b h))"

end
