(* ===== verification/Spec2Isabelle.thy ===== *)
theory Spec2Isabelle
  imports Decimal RateLimit Book Queue Validator Enums Pumps Chain Config Schedule Shared
begin

text \<open>
  MultiTrade is a trading platform in Go: users deposit money, brokers list assets, traders place limit
  orders, and an engine matches them. This development models its core and shows what the parts and
  the whole promise. Paths are relative to the repository.

  \<^bold>\<open>The parts and how they interact.\<close> HTTP requests pass authentication, roles and limiters
  (internal/middleware) to the handlers, which call the services; services use repositories, whose
  statements run in PostgreSQL, one transaction per operation. \<^verbatim>\<open>PlaceOrder\<close> puts new orders into a queue;
  the matching engine takes them out one at a time and trades each against the open orders of the
  other side, one transaction per trade. Services and engine publish events to Kafka and prices to
  Redis; consumers write the audit log, notifications and counters, the hub sends prices to web
  clients. Cron jobs expire orders and check the books.

  \<^bold>\<open>The state.\<close> Database has the monad of all stateful code: a computation takes the \<open>world\<close> (tables,
  sequences, clock, coming faults, sent events, queue) and gives a result or an error, with the world
  after it. A list of faults decides which statements fail; theorems without a hypothesis on it hold
  whatever fails. A transaction is rolled back on an error, a panic or a commit that fails. A request,
  a turn of the engine's loop and a job are atomic towards each other.

  \<^bold>\<open>Theories.\<close>
  \<^item> Prelude: lists, options, decimal texts. BigFloat: \<^verbatim>\<open>big.Float\<close> with its precision and rounding to
    even, for every finite value, infinity and negative zero. Numeric: \<^verbatim>\<open>NUMERIC(20,8)\<close> as integers of
    units, the texts it is read from and written as, and when the detour over floats is exact (the
    locale there is interpreted for 64 and 128 bits).
  \<^item> Model: records and constants of all domains, errors with their texts. Database, Schema: statements,
    transactions, faults; the constraints of the migrations (\<open>schema_ok\<close>) and the locale of invariants.
  \<^item> Wallet (internal/wallet), Portfolio, Trade, Asset, AssetService, User, Order: repositories and
    services. Auth: registration, login and refresh with pkg/jwt and pkg/password. Admin: user status,
    analytics, audit log. Decimal, Pagination: the packages of pkg.
  \<^item> Engine, EngineLoop (internal/matchingengine): matching, the trade transaction, the loop, with \<open>None\<close>
    for a loop that never ends, so that returning is a theorem and not a convention.
  \<^item> Cron (internal/cronjobs), Kafka (internal/kafka, internal/notification): the jobs and consumers.
  \<^item> Http (handlers, internal/middleware, the routes of cmd/api/main.go), RateLimit, Chain (the middleware
    around a request: recovery, identity, counters, the line in the log). Hub (internal/websocket) and
    Pumps (what a web client writes and receives), Prices (from a trade over Redis and the goroutine of
    main.go to the hub), Cache (the prices in Redis and their lapse).
  \<^item> Config (internal/config, connecting, the start in main.go), Migrations (internal/database), Schedule
    (the scheduler of the jobs), Validator (internal/validator, pkg/idempotency: the patterns as regular
    expressions), Shared (internal/shared, compliance, analytics, the Kafka producer, the notifier).
  \<^item> Book: the abstract order book and the refinement to the tables. System: invariants of all tables,
    proved once for every handler in the locales \<open>quiet_inv\<close> and \<open>platform_inv\<close>, which are
    interpreted for the schema and for the book. Queue: only placed orders enter the queue, and what
    is queued stays an order of the table. Enums: the values that states, sides, kinds and roles can have,
    one more interpretation. This theory: the platform as a whole, its queue included.
  \<^item> Example: the small market on which theorems are instantiated.

  \<^bold>\<open>What is shown.\<close> Money: deposits, withdrawals and trades are exact up to \<open>10 ^ 10\<close> USD or within one
  unit, atomic, and no update is lost; beyond that 64 bits are too few. Orders: what is accepted,
  refused, deduplicated and cancelled; the book is matched by price and time, never against the same
  user; every fill is a trade. The loop of the engine ends on whole quantities and does not on some
  fractions. Access: no guarded route is reached without a genuine token of the right role; suspended
  users cannot log in, but can refresh. Jobs, audit log, counters, limiter, hub and migrations do what
  they are for, with the exceptions stated as theorems. The start: durations are read exactly, the
  server listens only on a migrated database, and a secret that is not configured is one that everybody knows.

  \<^bold>\<open>Libraries.\<close> PostgreSQL's reading of arbitrary texts as numbers, its collation and time functions,
  the JWT library, bcrypt, the keys and counters of Redis, the configuration library, the meaning of
  schedules, sorting with \<^verbatim>\<open>sort.Slice\<close> and the effect of a migration script are arguments
  of the definitions; what is assumed of them is a named predicate (\<open>pg_ok\<close>, \<open>jwt_ok\<close>, \<open>jwt_signs\<close>,
  \<open>bcrypt_ok\<close>, \<open>kv_ok\<close>, \<open>kv_up\<close> (Redis takes every write; only the lemma on lapsing prices has it),
  \<open>counters_ok\<close>, \<open>viper_ok\<close>, \<open>cron_ok\<close>, \<open>sorts\<close>) that an example satisfies.
  What JSON binding makes of a body is part of the request.

  \<^bold>\<open>Not modelled.\<close> The set-up of the logger and the lines logged by services; constant response headers
  and those of the limiter; the clients of Redis and Kafka, deadlines and pings of web sockets, the
  shutdown (I/O of libraries); the redirects of gin for a path with a slash too many or too few, the
  answers of the CORS middleware to preflights, \<^verbatim>\<open>/metrics\<close> and \<^verbatim>\<open>/swagger\<close>; the generated documentation; the second authentication middleware and
  the authentication repository, copies that nothing imports; the tags of structs in the validator.
  Interleaving inside a request or a turn of the engine is not
  modelled: rows are locked by \<^verbatim>\<open>FOR UPDATE\<close> where it matters, and the version check of wallets is
  treated on its own.
\<close>

section \<open>The platform\<close>

text \<open>
  The platform is the world and the order the engine is working on. One step of it: a request is
  served; the engine takes the next order from the queue, or does a turn of the loop of \<^verbatim>\<open>processOrder\<close>
  and goes on with the order if the turn says so; the expiry job or the audit consumer runs; the
  process is restarted, which loses the queue; or something happens that concerns neither database nor
  queue (time passes, statements to come fail). So requests, jobs and the turns for an order interleave.
\<close>

record platform =
  pf_world :: world
  pf_current :: "string order option"

abbreviation pf_db :: "platform \<Rightarrow> tables" where "pf_db p \<equiv> db (pf_world p)"
abbreviation pf_seqs :: "platform \<Rightarrow> string \<Rightarrow> int" where "pf_seqs p \<equiv> seqs (pf_world p)"

inductive platform_step :: "platform \<Rightarrow> platform \<Rightarrow> bool" where
  request: "server_ok S \<Longrightarrow> request_ok rq \<Longrightarrow> ServeHTTP S rq (pf_world p) = (as, w') \<Longrightarrow> platform_step p (p\<lparr>pf_world := w'\<rparr>)"
| take: "pf_current p = None \<Longrightarrow> queue (pf_world p) = o1 # os \<Longrightarrow>
    platform_step p \<lparr>pf_world = (pf_world p)\<lparr>queue := os\<rparr>, pf_current = Some o1\<rparr>"
| turn: "pf_current p = Some o1 \<Longrightarrow> process_step o1 (pf_world p) = (x, w') \<Longrightarrow>
    platform_step p \<lparr>pf_world = w', pf_current = (if x = Inr True then Some o1 else None)\<rparr>"
| expiry: "ExpireStaleOrders (pf_world p) = (n, w') \<Longrightarrow> platform_step p (p\<lparr>pf_world := w'\<rparr>)"
| audit: "audit_consumer rs (pf_world p) = (y, w') \<Longrightarrow> platform_step p (p\<lparr>pf_world := w'\<rparr>)"
| restart: "platform_step p \<lparr>pf_world = (pf_world p)\<lparr>queue := []\<rparr>, pf_current = None\<rparr>"
| elapse: "db w' = pf_db p \<Longrightarrow> seqs w' = pf_seqs p \<Longrightarrow> queue w' = queue (pf_world p) \<Longrightarrow> platform_step p (p\<lparr>pf_world := w'\<rparr>)"

context platform_inv
begin

lemma platform_step_keeps:
  assumes "platform_step p p'" and "\<And>o1. pf_current p = Some o1 \<Longrightarrow> ready (pf_db p) o1" and i: "I (pf_db p) (pf_seqs p)"
  shows "I (pf_db p') (pf_seqs p')"
  using assms(1)
proof cases
  case (request S rq as w')
  then show ?thesis using ServeHTTP_keeps i by fastforce
next
  case (turn o1 x w')
  then show ?thesis using process_step_keeps assms(2) i by fastforce
next
  case (expiry n w')
  then show ?thesis using preservesD [OF ExpireStaleOrders_keeps _ i] by fastforce
next
  case (audit rs y w')
  then show ?thesis using preservesD [OF audit_consumer_keeps _ i] by fastforce
qed (use i in simp_all)

end

text \<open>The orders on their way: those in the queue and the one the engine is working on.\<close>

definition waiting :: "platform \<Rightarrow> string order list" where
  "waiting p = queue (pf_world p) @ (case pf_current p of None \<Rightarrow> [] | Some o1 \<Rightarrow> [o1])"

lemma waiting_step:
  assumes "platform_step p p'" and "i \<in> set (waiting p')"
  shows "i \<in> set (waiting p) \<or> queued (pf_db p') i"
  using assms(1)
proof cases
  case (request S rq as w')
  then show ?thesis using assms(2) ServeHTTP_feeds [OF request(2,4), of i] by (auto simp: waiting_def)
next
  case (turn o1 x w')
  then show ?thesis using assms(2) calmD [OF calm_process_step turn(3)] by (auto simp: waiting_def split: if_splits)
next
  case (expiry n w')
  then show ?thesis using assms(2) calmD [OF calm_jobs(1) expiry(2)] by (auto simp: waiting_def)
next
  case (audit rs y w')
  then show ?thesis using assms(2) calmD [OF calm_audit_consumer audit(2)] by (auto simp: waiting_def)
qed (use assms(2) in \<open>auto simp: waiting_def\<close>)

text \<open>The book, with the orders that wait for the engine in it.\<close>

definition trading :: "book \<Rightarrow> platform \<Rightarrow> bool" where
  "trading B p \<longleftrightarrow> book_from B (pf_db p) (pf_seqs p) \<and> (\<forall>i \<in> set (waiting p). queued (pf_db p) i)"

lemma trading_step:
  assumes "platform_step p p'" and t: "trading B p"
  shows "trading B p'"
proof -
  have r: "queued (pf_db p) o1" if "pf_current p = Some o1" for o1 using t that by (simp add: trading_def waiting_def)
  have b: "book_from B (pf_db p) (pf_seqs p)" using t by (simp add: trading_def)
  then have "book_from (book_of (pf_db p)) (pf_db p) (pf_seqs p)" using book_from_ok [OF b] by (simp add: book_from_def)
  from book_p.platform_step_keeps [OF assms(1) r this] have "queued (pf_db p') i" if "queued (pf_db p) i" for i
    using queued_stays [OF that] b by (auto simp: book_from_def)
  then show ?thesis
    using book_p.platform_step_keeps [OF assms(1) r b] waiting_step [OF assms(1)] t by (auto simp: trading_def)
qed

lemma trading_steps: "platform_step\<^sup>*\<^sup>* p p' \<Longrightarrow> trading B p \<Longrightarrow> trading B p'"
  by (induction rule: rtranclp_induct) (auto intro: trading_step)

text \<open>
  Property C3. Whatever is asked of the platform and whatever fails: the tables keep the constraints of
  the schema, which are the primary keys, the unique keys (that of the idempotency keys included), the
  foreign keys of all tables, the \<^verbatim>\<open>CHECK\<close>s, the generated column and the range of \<^verbatim>\<open>NUMERIC(20,8)\<close>. So no
  balance and no holding is ever negative and no order is filled beyond its quantity. The number of a row
  of portfolios is no field of the model, and \<^verbatim>\<open>NOT NULL\<close> and lengths are left to the types and to the
  statements that check them.
\<close>

theorem platform_keeps_schema:
  assumes "schema_ok (pf_db p) (pf_seqs p)" and "platform_step\<^sup>*\<^sup>* p p'"
  shows "schema_ok (pf_db p') (pf_seqs p')"
  using assms(2,1) by (induction rule: rtranclp_induct) (auto intro: schema_p.platform_step_keeps)

definition ex_platform :: platform where
  "ex_platform = \<lparr>pf_world = ex_world, pf_current = None\<rparr>"

definition ex_later :: platform where
  "ex_later = ex_platform\<lparr>pf_world := ex_world\<lparr>now := day + 2\<rparr>\<rparr>"

definition ex_expired :: platform where
  "ex_expired = ex_later\<lparr>pf_world := snd (ExpireStaleOrders (pf_world ex_later))\<rparr>"

lemma ex_steps: "platform_step\<^sup>*\<^sup>* ex_platform ex_expired"
proof -
  have "platform_step ex_platform ex_later" unfolding ex_later_def by (rule elapse) (simp_all add: ex_platform_def)
  moreover have "platform_step ex_later ex_expired"
    unfolding ex_expired_def by (rule expiry [of _ "fst (ExpireStaleOrders (pf_world ex_later))"]) simp
  ultimately show ?thesis by simp
qed

theorem platform_keeps_schema_witness: "schema_ok (pf_db ex_expired) (pf_seqs ex_expired)"
  by (rule platform_keeps_schema [OF _ ex_steps]) (simp add: ex_platform_def ex_world_ok)

text \<open>
  Property C35. Types: on a platform that started with the constants of enums.go and of the models in its
  tables, whatever is asked and whatever fails, every order has one of the four states, one of the two
  sides and the one type, every user one of the four roles and two states, every wallet transaction one
  of the two kinds and the state \<^verbatim>\<open>COMPLETED\<close>, and every asset is \<^verbatim>\<open>ACTIVE\<close> or \<^verbatim>\<open>DISABLED\<close>.
\<close>

theorem columns_typed:
  assumes "enums_ok (pf_db p)" and "platform_step\<^sup>*\<^sup>* p p'"
  shows "enums_ok (pf_db p')"
  using assms(2,1) by (induction rule: rtranclp_induct) (auto intro: typed_p.platform_step_keeps)

theorem columns_typed_witness: "enums_ok (pf_db ex_expired)"
  by (rule columns_typed [OF _ ex_steps])
    (auto simp: ex_platform_def enums_ok_def asset_typed_def order_typed_def user_typed_def tx_typed_def side_ok_def enum_constants validRoles_def const_defs ex_defs)

text \<open>
  Property C2. The platform implements the order book: from tables that are a book with all the orders
  that wait for the engine, every run of the platform is a run of the book, with nothing but orders
  being placed, open orders being withdrawn and crossing orders of different users trading. It ends in
  a book again, and every order that waits is one of its orders.
\<close>

theorem platform_refines_book:
  assumes "schema_ok (pf_db p) (pf_seqs p)" and "sides_ok (pf_db p)" and "book_ok (book_of (pf_db p))"
    and "\<And>i. i \<in> set (waiting p) \<Longrightarrow> queued (pf_db p) i" and "platform_step\<^sup>*\<^sup>* p p'"
  shows "book_step\<^sup>*\<^sup>* (book_of (pf_db p)) (book_of (pf_db p')) \<and> sides_ok (pf_db p') \<and> book_ok (book_of (pf_db p'))
    \<and> (\<forall>i \<in> set (waiting p'). queued (pf_db p') i)"
proof -
  have "trading (book_of (pf_db p)) p" using assms(1-4) by (simp add: trading_def book_from_def)
  from trading_steps [OF assms(5) this] show ?thesis using book_from_ok by (auto simp: trading_def book_from_def)
qed

lemma ex_book: "sides_ok (db ex_world)" "book_ok (book_of (db ex_world))"
  by (auto simp: sides_ok_def side_ok_def book_ok_def book_of_def entry_ok_def entry_of_def filled_by_def phase_of_def ex_defs const_defs
      split: if_splits)

theorem platform_refines_book_witness: "book_step\<^sup>*\<^sup>* (book_of (pf_db ex_platform)) (book_of (pf_db ex_expired))"
  using platform_refines_book [OF _ _ _ _ ex_steps] ex_world_ok ex_book by (simp add: ex_platform_def waiting_def ex_world_def)

text \<open>
  Property C1. On a platform that started without orders: the filled quantity of every order is the sum
  of its trades, never more than its quantity, and all of it if the order is marked \<^verbatim>\<open>FILLED\<close>. Every
  trade is between a buy and a sell order of different users for the same asset, at a price that
  neither of them had excluded.
\<close>

theorem trades_account_for_fills:
  assumes "schema_ok (pf_db p) (pf_seqs p)" and "orders (pf_db p) = []" and "trades (pf_db p) = []" and "waiting p = []"
    and "platform_step\<^sup>*\<^sup>* p p'"
  shows "(\<forall>r \<in> set (orders (pf_db p')). o_FilledQuantity r = fills_of (pf_db p') (o_ID r) \<and> 0 \<le> o_FilledQuantity r
        \<and> o_FilledQuantity r \<le> o_Quantity r \<and> (o_Status r = OrderStatusFilled \<longrightarrow> o_FilledQuantity r = o_Quantity r))
    \<and> (\<forall>t \<in> set (trades (pf_db p')). fair_trade (pf_db p') t)"
proof -
  have "trading (book_of (pf_db p)) p"
    using assms(1-4) by (simp add: trading_def book_from_def sides_ok_def book_ok_def book_of_def)
  from trading_steps [OF assms(5) this]
  have "schema_ok (pf_db p') (pf_seqs p')" "sides_ok (pf_db p')" "book_ok (book_of (pf_db p'))"
    using book_from_ok by (auto simp: trading_def book_from_def)
  then show ?thesis using book_rows book_trades by blast
qed

text \<open>A platform without orders, and a buy order posted to it.\<close>

definition ex_fresh :: platform where
  "ex_fresh = \<lparr>pf_world = ex_world\<lparr>db := ex_tables\<lparr>orders := []\<rparr>\<rparr>, pf_current = None\<rparr>"

definition ex_post :: request where
  "ex_post = (ex_authorised 1 ''trader'' ''POST'' [''orders''])\<lparr>rq_PlaceOrder := Inr
     \<lparr>pi_AssetID = 1, pi_Side = ''BUY'', pi_Price = ''12'', pi_Quantity = ''3'', pi_IdempotencyKey = None\<rparr>\<rparr>"

definition ex_posted :: platform where
  "ex_posted = ex_fresh\<lparr>pf_world := snd (ServeHTTP ex_server ex_post (pf_world ex_fresh))\<rparr>"

theorem trades_account_for_fills_witness:
  "list_all (\<lambda>r. o_FilledQuantity r \<le> o_Quantity r) (orders (pf_db ex_posted))"
proof -
  have "schema_ok (pf_db ex_fresh) (pf_seqs ex_fresh)"
    using ex_world_ok by (simp add: ex_fresh_def schema_defs ex_defs idempotency_keys_def)
  moreover have "platform_step ex_fresh ex_posted"
    unfolding ex_posted_def by (rule request [of ex_server ex_post _ "fst (ServeHTTP ex_server ex_post (pf_world ex_fresh))"])
      (simp_all add: ex_server_ok request_ok_def ex_post_def side_ok_def const_defs)
  ultimately show ?thesis
    using trades_account_for_fills [of ex_fresh ex_posted]
    by (auto simp: list_all_iff ex_fresh_def ex_tables_def ex_world_def waiting_def)
qed

end
